(* ===== verification/Prelude.thy ===== *)
theory Prelude
  imports Main "HOL-Library.Word"
begin

text \<open>
  Shared vocabulary of the development: the integer types of \<^verbatim>\<open>MdePkg/Include/Base.h\<close>
  at their width, the status codes every firmware service returns, and the generic facts on
  lists and words the component theories use.
\<close>

unbundle bit_operations_syntax

section \<open>Integer types\<close>

type_synonym UINT8 = "8 word"
type_synonym UINT16 = "16 word"
type_synonym UINT32 = "32 word"
type_synonym UINT64 = "64 word"

text \<open>\<open>UINTN\<close> is the natural width of a 64-bit processor; a pointer or handle is such a number,
  and \<open>NULL\<close> is zero.\<close>

type_synonym UINTN = "64 word"
type_synonym EFI_HANDLE = "64 word"

abbreviation (input) NULL :: EFI_HANDLE where
  "NULL \<equiv> 0"

text \<open>A GUID is its sixteen bytes, as \<open>CopyMem\<close> moves them.\<close>

type_synonym EFI_GUID = "UINT8 list"

section \<open>Status codes\<close>

text \<open>\<open>RETURN_STATUS\<close> and the \<open>RETURN_*\<close> codes of \<^verbatim>\<open>Base.h\<close> (the \<open>EFI_*\<close> names are aliases).\<close>

datatype EFI_STATUS =
    EFI_SUCCESS
  | EFI_LOAD_ERROR | EFI_INVALID_PARAMETER | EFI_UNSUPPORTED | EFI_BAD_BUFFER_SIZE
  | EFI_BUFFER_TOO_SMALL | EFI_NOT_READY | EFI_DEVICE_ERROR | EFI_WRITE_PROTECTED
  | EFI_OUT_OF_RESOURCES | EFI_VOLUME_CORRUPTED | EFI_VOLUME_FULL | EFI_NO_MEDIA
  | EFI_MEDIA_CHANGED | EFI_NOT_FOUND | EFI_ACCESS_DENIED | EFI_NO_RESPONSE | EFI_NO_MAPPING
  | EFI_TIMEOUT | EFI_NOT_STARTED | EFI_ALREADY_STARTED | EFI_ABORTED | EFI_ICMP_ERROR
  | EFI_TFTP_ERROR | EFI_PROTOCOL_ERROR | EFI_INCOMPATIBLE_VERSION | EFI_SECURITY_VIOLATION
  | EFI_CRC_ERROR | EFI_END_OF_MEDIA | EFI_END_OF_FILE | EFI_INVALID_LANGUAGE
  | EFI_COMPROMISED_DATA | EFI_IP_ADDRESS_CONFLICT | EFI_HTTP_ERROR
  | EFI_WARN_UNKNOWN_GLYPH | EFI_WARN_DELETE_FAILURE | EFI_WARN_WRITE_FAILURE
  | EFI_WARN_BUFFER_TOO_SMALL | EFI_WARN_STALE_DATA | EFI_WARN_FILE_SYSTEM
  | EFI_WARN_RESET_REQUIRED
  | EFI_REQUEST_UNLOAD_IMAGE | EFI_NOT_AVAILABLE_YET

definition MAX_BIT :: UINTN where
  "MAX_BIT = 0x8000000000000000"

definition ENCODE_ERROR :: "UINTN \<Rightarrow> UINTN" where
  "ENCODE_ERROR code = MAX_BIT OR code"

definition ENCODE_WARNING :: "UINTN \<Rightarrow> UINTN" where
  "ENCODE_WARNING code = code"

text \<open>\<open>EFI_REQUEST_UNLOAD_IMAGE\<close> and \<open>EFI_NOT_AVAILABLE_YET\<close> are the codes of \<^verbatim>\<open>PiMultiPhase.h\<close>.\<close>

definition DXE_ERROR :: "UINTN \<Rightarrow> UINTN" where
  "DXE_ERROR code = MAX_BIT OR drop_bit 2 MAX_BIT OR code"

primrec RETURN_STATUS :: "EFI_STATUS \<Rightarrow> UINTN" where
  "RETURN_STATUS EFI_SUCCESS = 0"
| "RETURN_STATUS EFI_LOAD_ERROR = ENCODE_ERROR 1"
| "RETURN_STATUS EFI_INVALID_PARAMETER = ENCODE_ERROR 2"
| "RETURN_STATUS EFI_UNSUPPORTED = ENCODE_ERROR 3"
| "RETURN_STATUS EFI_BAD_BUFFER_SIZE = ENCODE_ERROR 4"
| "RETURN_STATUS EFI_BUFFER_TOO_SMALL = ENCODE_ERROR 5"
| "RETURN_STATUS EFI_NOT_READY = ENCODE_ERROR 6"
| "RETURN_STATUS EFI_DEVICE_ERROR = ENCODE_ERROR 7"
| "RETURN_STATUS EFI_WRITE_PROTECTED = ENCODE_ERROR 8"
| "RETURN_STATUS EFI_OUT_OF_RESOURCES = ENCODE_ERROR 9"
| "RETURN_STATUS EFI_VOLUME_CORRUPTED = ENCODE_ERROR 10"
| "RETURN_STATUS EFI_VOLUME_FULL = ENCODE_ERROR 11"
| "RETURN_STATUS EFI_NO_MEDIA = ENCODE_ERROR 12"
| "RETURN_STATUS EFI_MEDIA_CHANGED = ENCODE_ERROR 13"
| "RETURN_STATUS EFI_NOT_FOUND = ENCODE_ERROR 14"
| "RETURN_STATUS EFI_ACCESS_DENIED = ENCODE_ERROR 15"
| "RETURN_STATUS EFI_NO_RESPONSE = ENCODE_ERROR 16"
| "RETURN_STATUS EFI_NO_MAPPING = ENCODE_ERROR 17"
| "RETURN_STATUS EFI_TIMEOUT = ENCODE_ERROR 18"
| "RETURN_STATUS EFI_NOT_STARTED = ENCODE_ERROR 19"
| "RETURN_STATUS EFI_ALREADY_STARTED = ENCODE_ERROR 20"
| "RETURN_STATUS EFI_ABORTED = ENCODE_ERROR 21"
| "RETURN_STATUS EFI_ICMP_ERROR = ENCODE_ERROR 22"
| "RETURN_STATUS EFI_TFTP_ERROR = ENCODE_ERROR 23"
| "RETURN_STATUS EFI_PROTOCOL_ERROR = ENCODE_ERROR 24"
| "RETURN_STATUS EFI_INCOMPATIBLE_VERSION = ENCODE_ERROR 25"
| "RETURN_STATUS EFI_SECURITY_VIOLATION = ENCODE_ERROR 26"
| "RETURN_STATUS EFI_CRC_ERROR = ENCODE_ERROR 27"
| "RETURN_STATUS EFI_END_OF_MEDIA = ENCODE_ERROR 28"
| "RETURN_STATUS EFI_END_OF_FILE = ENCODE_ERROR 31"
| "RETURN_STATUS EFI_INVALID_LANGUAGE = ENCODE_ERROR 32"
| "RETURN_STATUS EFI_COMPROMISED_DATA = ENCODE_ERROR 33"
| "RETURN_STATUS EFI_IP_ADDRESS_CONFLICT = ENCODE_ERROR 34"
| "RETURN_STATUS EFI_HTTP_ERROR = ENCODE_ERROR 35"
| "RETURN_STATUS EFI_WARN_UNKNOWN_GLYPH = ENCODE_WARNING 1"
| "RETURN_STATUS EFI_WARN_DELETE_FAILURE = ENCODE_WARNING 2"
| "RETURN_STATUS EFI_WARN_WRITE_FAILURE = ENCODE_WARNING 3"
| "RETURN_STATUS EFI_WARN_BUFFER_TOO_SMALL = ENCODE_WARNING 4"
| "RETURN_STATUS EFI_WARN_STALE_DATA = ENCODE_WARNING 5"
| "RETURN_STATUS EFI_WARN_FILE_SYSTEM = ENCODE_WARNING 6"
| "RETURN_STATUS EFI_WARN_RESET_REQUIRED = ENCODE_WARNING 7"
| "RETURN_STATUS EFI_REQUEST_UNLOAD_IMAGE = DXE_ERROR 1"
| "RETURN_STATUS EFI_NOT_AVAILABLE_YET = DXE_ERROR 2"

definition EFI_ERROR :: "EFI_STATUS \<Rightarrow> bool" where
  "EFI_ERROR s \<longleftrightarrow> MAX_BIT \<le> RETURN_STATUS s"

lemma EFI_ERROR_SUCCESS [simp]: "\<not> EFI_ERROR EFI_SUCCESS"
  by (simp add: EFI_ERROR_def MAX_BIT_def)

lemma EFI_ERROR_codes [simp]:
  "EFI_ERROR EFI_INVALID_PARAMETER" "EFI_ERROR EFI_UNSUPPORTED" "EFI_ERROR EFI_NOT_FOUND"
  "EFI_ERROR EFI_ACCESS_DENIED" "EFI_ERROR EFI_OUT_OF_RESOURCES" "EFI_ERROR EFI_NOT_READY"
  "EFI_ERROR EFI_BUFFER_TOO_SMALL" "EFI_ERROR EFI_NOT_STARTED" "EFI_ERROR EFI_ALREADY_STARTED"
  "EFI_ERROR EFI_ABORTED" "EFI_ERROR EFI_SECURITY_VIOLATION" "EFI_ERROR EFI_DEVICE_ERROR"
  "EFI_ERROR EFI_NOT_AVAILABLE_YET"
  by (simp_all add: EFI_ERROR_def MAX_BIT_def ENCODE_ERROR_def DXE_ERROR_def)

section \<open>Words\<close>

lemma unat_UINT64: "unat (x :: UINT64) < 2 ^ 64"
  using unsigned_less [of x] by simp

lemma unat_take_bit: "unat (take_bit n (x :: 'a :: len word)) = unat x mod 2 ^ n"
  unfolding unsigned_take_bit_eq by (rule take_bit_eq_mod)

lemma unat_and_not_mask:
  fixes x :: UINT64
  shows "unat (x AND NOT (mask n)) = unat x div 2 ^ n * 2 ^ n"
proof -
  note t = unat_take_bit [of n x]
  have "x - take_bit n x = x AND NOT (take_bit n x)"
    by (rule disjunctive_diff) (simp add: bit_take_bit_iff)
  moreover have "x AND NOT (take_bit n x) = x AND NOT (mask n)"
    by (rule bit_eqI) (auto simp: bit_and_iff bit_not_iff bit_take_bit_iff bit_mask_iff)
  moreover have "unat (x - take_bit n x) = unat x - unat (take_bit n x)"
    by (rule unat_sub) (simp add: word_le_nat_alt t)
  ultimately show ?thesis by (simp add: t minus_mod_eq_div_mult)
qed

lemma and_mask_eq_0:
  fixes x :: UINT64
  shows "x AND mask n = 0 \<longleftrightarrow> 2 ^ n dvd unat x"
proof -
  have "unat (x AND mask n) = unat x mod 2 ^ n"
    by (simp add: unat_take_bit flip: take_bit_eq_mask)
  then show ?thesis by (simp add: mod_eq_0_iff_dvd flip: unat_eq_0)
qed

text \<open>Rounding down gives the greatest multiple below, rounding up the least one above.\<close>

lemma unat_mask: "n < 64 \<Longrightarrow> unat (mask n :: UINT64) = 2 ^ n - 1"
  using uint_mask_eq [of n, where 'a = 64] unfolding unat_eq_nat_uint
  by (simp add: nat_mask_eq mask_eq_exp_minus_1 [where 'a = nat])

lemma align_down:
  fixes x :: UINT64
  shows "2 ^ n dvd unat (x AND NOT (mask n))" "unat (x AND NOT (mask n)) \<le> unat x"
    "2 ^ n dvd y \<Longrightarrow> y \<le> unat x \<Longrightarrow> y \<le> unat (x AND NOT (mask n))"
  unfolding unat_and_not_mask
  by (simp_all, metis div_le_mono dvd_div_mult_self mult_le_mono1)

lemma align_up:
  fixes x :: UINT64
  assumes "n < 64" "unat x + 2 ^ n \<le> 2 ^ 64"
  shows "2 ^ n dvd unat ((x + mask n) AND NOT (mask n))" "unat x \<le> unat ((x + mask n) AND NOT (mask n))"
    "unat ((x + mask n) AND NOT (mask n)) < unat x + 2 ^ n"
    "2 ^ n dvd y \<Longrightarrow> unat x \<le> y \<Longrightarrow> unat ((x + mask n) AND NOT (mask n)) \<le> y"
proof -
  let ?p = "2 ^ n :: nat"
  have p: "0 < ?p" by simp
  have "unat (x + mask n) = unat x + (?p - 1)"
    using assms p unat_mask [OF assms(1)] by (subst unat_add_lem [THEN iffD1]) simp_all
  then have e: "unat ((x + mask n) AND NOT (mask n)) = (unat x + (?p - 1)) div ?p * ?p"
    by (simp add: unat_and_not_mask)
  show "?p dvd unat ((x + mask n) AND NOT (mask n))" by (simp add: e)
  have r: "(unat x + (?p - 1)) div ?p * ?p + (unat x + (?p - 1)) mod ?p = unat x + (?p - 1)"
    "(unat x + (?p - 1)) mod ?p < ?p"
    by (rule div_mult_mod_eq) simp
  then show "unat x \<le> unat ((x + mask n) AND NOT (mask n))"
    and lt: "unat ((x + mask n) AND NOT (mask n)) < unat x + ?p"
    unfolding e by linarith+
  show "unat ((x + mask n) AND NOT (mask n)) \<le> y" if "?p dvd y" "unat x \<le> y"
  proof (rule ccontr)
    assume "\<not> ?thesis"
    moreover have "?p dvd unat ((x + mask n) AND NOT (mask n)) - y"
      using that by (simp add: e)
    ultimately have "y + ?p \<le> unat ((x + mask n) AND NOT (mask n))"
      by (metis dvd_imp_le le_add_diff_inverse less_imp_le_nat nat_add_left_cancel_le not_le_imp_less zero_less_diff)
    with lt that(2) show False by linarith
  qed
qed

lemma and_or_absorb:
  fixes a x y :: UINT64
  shows "a AND x = x \<Longrightarrow> (a OR y) AND x = x" "(a OR y) AND y = y"
proof -
  show "(a OR y) AND x = x" if "a AND x = x"
  proof -
    have "bit a n" if "bit x n" for n using that \<open>a AND x = x\<close> by (metis bit_and_iff)
    then show ?thesis by (intro bit_eqI) (auto simp: bit_and_iff bit_or_iff)
  qed
qed (intro bit_eqI, auto simp: bit_and_iff bit_or_iff)

end
