(* ===== verification/Gcd_Map.thy ===== *)
theory Gcd_Map
  imports Prelude
begin

text \<open>
  The Global Coherency Domain (GCD) space map of \<^verbatim>\<open>MdeModulePkg/Core/Dxe/Gcd/Gcd.c\<close>: the list of
  \<open>EFI_GCD_MAP_ENTRY\<close> descriptors that tiles the address space, and the worker functions that
  search, split and merge its entries. A \<open>LIST_ENTRY\<close> ring is the list of its entries in order;
  a link of the C code is a position in that list. \<open>ASSERT\<close> failures are the value \<open>None\<close>.
\<close>

section \<open>Entries and their cells\<close>

record EFI_GCD_MAP_ENTRY =
  BaseAddress :: UINT64
  EndAddress :: UINT64
  Capabilities :: UINT64
  Attributes :: UINT64
  GcdMemoryType :: UINT32
  GcdIoType :: UINT32
  ImageHandle :: EFI_HANDLE
  DeviceHandle :: EFI_HANDLE

abbreviation (input) EfiGcdMemoryTypeNonExistent :: UINT32 where "EfiGcdMemoryTypeNonExistent \<equiv> 0"
abbreviation (input) EfiGcdMemoryTypeReserved :: UINT32 where "EfiGcdMemoryTypeReserved \<equiv> 1"
abbreviation (input) EfiGcdMemoryTypeSystemMemory :: UINT32 where "EfiGcdMemoryTypeSystemMemory \<equiv> 2"
abbreviation (input) EfiGcdMemoryTypeMemoryMappedIo :: UINT32 where "EfiGcdMemoryTypeMemoryMappedIo \<equiv> 3"
abbreviation (input) EfiGcdMemoryTypePersistent :: UINT32 where "EfiGcdMemoryTypePersistent \<equiv> 4"
abbreviation (input) EfiGcdMemoryTypeMoreReliable :: UINT32 where "EfiGcdMemoryTypeMoreReliable \<equiv> 5"
abbreviation (input) EfiGcdMemoryTypeUnaccepted :: UINT32 where "EfiGcdMemoryTypeUnaccepted \<equiv> 6"
abbreviation (input) EfiGcdMemoryTypeMaximum :: UINT32 where "EfiGcdMemoryTypeMaximum \<equiv> 7"

abbreviation (input) EfiGcdIoTypeNonExistent :: UINT32 where "EfiGcdIoTypeNonExistent \<equiv> 0"
abbreviation (input) EfiGcdIoTypeReserved :: UINT32 where "EfiGcdIoTypeReserved \<equiv> 1"
abbreviation (input) EfiGcdIoTypeIo :: UINT32 where "EfiGcdIoTypeIo \<equiv> 2"
abbreviation (input) EfiGcdIoTypeMaximum :: UINT32 where "EfiGcdIoTypeMaximum \<equiv> 3"

definition mGcdMemorySpaceMapEntryTemplate :: EFI_GCD_MAP_ENTRY where
  "mGcdMemorySpaceMapEntryTemplate =
     \<lparr>BaseAddress = 0, EndAddress = 0, Capabilities = 0, Attributes = 0,
      GcdMemoryType = EfiGcdMemoryTypeNonExistent, GcdIoType = 0,
      ImageHandle = NULL, DeviceHandle = NULL\<rparr>"

definition mGcdIoSpaceMapEntryTemplate :: EFI_GCD_MAP_ENTRY where
  "mGcdIoSpaceMapEntryTemplate =
     \<lparr>BaseAddress = 0, EndAddress = 0, Capabilities = 0, Attributes = 0,
      GcdMemoryType = 0, GcdIoType = EfiGcdIoTypeNonExistent,
      ImageHandle = NULL, DeviceHandle = NULL\<rparr>"

text \<open>What an entry says about each address it covers: everything but its bounds.\<close>

record gcd_cell =
  cell_Capabilities :: UINT64
  cell_Attributes :: UINT64
  cell_MemoryType :: UINT32
  cell_IoType :: UINT32
  cell_ImageHandle :: EFI_HANDLE
  cell_DeviceHandle :: EFI_HANDLE

definition cell_of :: "EFI_GCD_MAP_ENTRY \<Rightarrow> gcd_cell" where
  "cell_of e =
     \<lparr>cell_Capabilities = Capabilities e, cell_Attributes = Attributes e,
      cell_MemoryType = GcdMemoryType e, cell_IoType = GcdIoType e,
      cell_ImageHandle = ImageHandle e, cell_DeviceHandle = DeviceHandle e\<rparr>"

section \<open>Worker functions\<close>

subsection \<open>Alignment\<close>

definition LShiftU64 :: "UINT64 \<Rightarrow> nat \<Rightarrow> UINT64" where
  "LShiftU64 Operand Count = push_bit Count Operand"

definition AlignValue :: "UINT64 \<Rightarrow> nat \<Rightarrow> bool \<Rightarrow> UINT64" where
  "AlignValue Value Alignment RoundUp =
     (let AlignmentMask = LShiftU64 1 Alignment - 1;
          Value = (if RoundUp then Value + AlignmentMask else Value)
      in Value AND (NOT AlignmentMask))"

abbreviation (input) EFI_PAGE_SHIFT :: nat where "EFI_PAGE_SHIFT \<equiv> 12"
abbreviation (input) EFI_PAGE_SIZE :: UINT64 where "EFI_PAGE_SIZE \<equiv> 0x1000"
abbreviation (input) EFI_PAGE_MASK :: UINT64 where "EFI_PAGE_MASK \<equiv> 0xFFF"

definition PageAlignAddress :: "UINT64 \<Rightarrow> UINT64" where
  "PageAlignAddress Value = AlignValue Value EFI_PAGE_SHIFT True"

definition PageAlignLength :: "UINT64 \<Rightarrow> UINT64" where
  "PageAlignLength Value = AlignValue Value EFI_PAGE_SHIFT False"

subsection \<open>Splitting an entry\<close>

text \<open>
  The two spare entries are zeroed pool buffers; \<open>TopUsed\<close> and \<open>BottomUsed\<close> say whether their
  \<open>Signature\<close> is still zero. The result is the entries linked in before \<open>Entry\<close>, the updated
  \<open>Entry\<close>, the entries linked in after it and the two flags.
\<close>

definition CoreInsertGcdMapEntry ::
  "EFI_GCD_MAP_ENTRY \<Rightarrow> UINT64 \<Rightarrow> UINT64 \<Rightarrow> bool \<Rightarrow> bool \<Rightarrow>
   (EFI_GCD_MAP_ENTRY list \<times> EFI_GCD_MAP_ENTRY \<times> EFI_GCD_MAP_ENTRY list \<times> bool \<times> bool) option"
where
  "CoreInsertGcdMapEntry Entry Base Length TopUsed BottomUsed =
     (if Length = 0 then None
      else if Base > BaseAddress Entry \<and> BottomUsed then None
      else
        (let (Before, Entry, BottomUsed) =
               (if Base > BaseAddress Entry
                then ([Entry\<lparr>EndAddress := Base - 1\<rparr>], Entry\<lparr>BaseAddress := Base\<rparr>, True)
                else ([], Entry, BottomUsed))
         in if Base + Length - 1 < EndAddress Entry
            then (if TopUsed then None
                  else Some (Before, Entry\<lparr>EndAddress := Base + Length - 1\<rparr>,
                             [Entry\<lparr>BaseAddress := Base + Length\<rparr>], True, BottomUsed))
            else Some (Before, Entry, [], TopUsed, BottomUsed)))"

subsection \<open>Merging neighbours\<close>

text \<open>
  \<open>CoreMergeGcdMapEntry\<close> with the ring opened at \<open>Link\<close>: the entries before it, nearest first,
  and the entries after it. The entry it absorbs is unlinked; an unequal field refuses the merge.
\<close>

definition gcd_mergeable :: "EFI_GCD_MAP_ENTRY \<Rightarrow> EFI_GCD_MAP_ENTRY \<Rightarrow> bool" where
  "gcd_mergeable Entry AdjacentEntry \<longleftrightarrow>
     Capabilities Entry = Capabilities AdjacentEntry \<and>
     Attributes Entry = Attributes AdjacentEntry \<and>
     GcdMemoryType Entry = GcdMemoryType AdjacentEntry \<and>
     GcdIoType Entry = GcdIoType AdjacentEntry \<and>
     ImageHandle Entry = ImageHandle AdjacentEntry \<and>
     DeviceHandle Entry = DeviceHandle AdjacentEntry"

fun CoreMergeGcdMapEntry ::
  "EFI_GCD_MAP_ENTRY list \<Rightarrow> EFI_GCD_MAP_ENTRY \<Rightarrow> EFI_GCD_MAP_ENTRY list \<Rightarrow> bool \<Rightarrow>
   EFI_STATUS \<times> EFI_GCD_MAP_ENTRY list \<times> EFI_GCD_MAP_ENTRY \<times> EFI_GCD_MAP_ENTRY list"
where
  "CoreMergeGcdMapEntry Before Entry [] True = (EFI_SUCCESS, Before, Entry, [])"
| "CoreMergeGcdMapEntry Before Entry (Adj # After) True =
     (if gcd_mergeable Entry Adj
      then (EFI_SUCCESS, Before, Entry\<lparr>EndAddress := EndAddress Adj\<rparr>, After)
      else (EFI_UNSUPPORTED, Before, Entry, Adj # After))"
| "CoreMergeGcdMapEntry [] Entry After False = (EFI_SUCCESS, [], Entry, After)"
| "CoreMergeGcdMapEntry (Adj # Before) Entry After False =
     (if gcd_mergeable Entry Adj
      then (EFI_SUCCESS, Before, Entry\<lparr>BaseAddress := BaseAddress Adj\<rparr>, After)
      else (EFI_UNSUPPORTED, Adj # Before, Entry, After))"

text \<open>
  \<open>CoreCleanupGcdMapEntry\<close> on the ring \<open>rev Before @ Run @ After\<close>, where \<open>Run\<close> goes from
  \<open>StartLink\<close> to \<open>EndLink\<close>: each entry of the run absorbs its predecessor when it can, and
  the last one then its successor.
\<close>

fun gcd_cleanup_run ::
  "EFI_GCD_MAP_ENTRY list \<Rightarrow> EFI_GCD_MAP_ENTRY list \<Rightarrow> EFI_GCD_MAP_ENTRY list \<Rightarrow> EFI_GCD_MAP_ENTRY list"
where
  "gcd_cleanup_run Before [] After = rev Before @ After"
| "gcd_cleanup_run Before [EndLink] After =
     (case CoreMergeGcdMapEntry Before EndLink After False of (_, Before, EndLink, After) \<Rightarrow>
      (case CoreMergeGcdMapEntry Before EndLink After True of (_, Before, EndLink, After) \<Rightarrow>
         rev Before @ EndLink # After))"
| "gcd_cleanup_run Before (Link # Link' # Run) After =
     (case CoreMergeGcdMapEntry Before Link (Link' # Run @ After) False of (_, Before, Link, _) \<Rightarrow>
        gcd_cleanup_run (Link # Before) (Link' # Run) After)"

definition CoreCleanupGcdMapEntry ::
  "EFI_GCD_MAP_ENTRY list \<Rightarrow> EFI_GCD_MAP_ENTRY list \<Rightarrow> EFI_GCD_MAP_ENTRY list \<Rightarrow> EFI_GCD_MAP_ENTRY list"
where
  "CoreCleanupGcdMapEntry Before Run After = gcd_cleanup_run (rev Before) Run After"

subsection \<open>Searching\<close>

text \<open>\<open>CoreSearchGcdMapEntry\<close> returns the positions of \<open>StartLink\<close> and \<open>EndLink\<close>.\<close>

fun gcd_search_loop ::
  "UINT64 \<Rightarrow> UINT64 \<Rightarrow> nat option \<Rightarrow> nat \<Rightarrow> EFI_GCD_MAP_ENTRY list \<Rightarrow> (nat \<times> nat) option"
where
  "gcd_search_loop Base Length StartLink Link [] = None"
| "gcd_search_loop Base Length StartLink Link (Entry # Map) =
     (let StartLink = (if BaseAddress Entry \<le> Base \<and> Base \<le> EndAddress Entry
                       then Some Link else StartLink)
      in case StartLink of
           Some s \<Rightarrow>
             if BaseAddress Entry \<le> Base + Length - 1 \<and> Base + Length - 1 \<le> EndAddress Entry
             then Some (s, Link)
             else gcd_search_loop Base Length StartLink (Suc Link) Map
         | None \<Rightarrow> gcd_search_loop Base Length None (Suc Link) Map)"

definition CoreSearchGcdMapEntry ::
  "UINT64 \<Rightarrow> UINT64 \<Rightarrow> EFI_GCD_MAP_ENTRY list \<Rightarrow> (nat \<times> nat) option" where
  "CoreSearchGcdMapEntry Base Length Map = gcd_search_loop Base Length None 0 Map"

fun CoreCountGcdMapEntry :: "EFI_GCD_MAP_ENTRY list \<Rightarrow> UINTN" where
  "CoreCountGcdMapEntry [] = 0"
| "CoreCountGcdMapEntry (Link # Map) = 1 + CoreCountGcdMapEntry Map"

subsection \<open>The conversion loop\<close>

text \<open>
  The loop both \<open>CoreConvertSpace\<close> and \<open>CoreAllocateSpace\<close> run from \<open>StartLink\<close> to
  \<open>EndLink\<close>: split the entry at the bounds of the range, update what is left of it (\<open>upd\<close>, with
  the loop-carried variables in its first argument), go on at its \<open>ForwardLink\<close>. The last entry
  of the worklist is \<open>EndLink\<close>. The result is the entries before \<open>StartLink\<close>, those from
  \<open>StartLink\<close> to \<open>EndLink\<close>, and those linked in after \<open>EndLink\<close>.
\<close>

function gcd_convert_loop ::
  "('acc \<Rightarrow> EFI_GCD_MAP_ENTRY \<Rightarrow> 'acc \<times> EFI_GCD_MAP_ENTRY) \<Rightarrow> UINT64 \<Rightarrow> UINT64 \<Rightarrow> 'acc \<Rightarrow> bool \<Rightarrow> bool \<Rightarrow>
   EFI_GCD_MAP_ENTRY list \<Rightarrow> EFI_GCD_MAP_ENTRY list \<Rightarrow> EFI_GCD_MAP_ENTRY list \<Rightarrow>
   ('acc \<times> EFI_GCD_MAP_ENTRY list \<times> EFI_GCD_MAP_ENTRY list \<times> EFI_GCD_MAP_ENTRY list) option"
where
  "gcd_convert_loop upd Base Length acc TopUsed BottomUsed Before Run [] =
     Some (acc, Before, Run, [])"
| "gcd_convert_loop upd Base Length acc TopUsed BottomUsed Before Run (Entry # Links) =
     (case CoreInsertGcdMapEntry Entry Base Length TopUsed BottomUsed of
        None \<Rightarrow> None
      | Some (Bottom, Entry, Top, TopUsed', BottomUsed') \<Rightarrow>
          (let (acc, Entry) = upd acc Entry;
               (Before, Run) = (if Run = [] then (Before @ Bottom, [Entry])
                                else (Before, Run @ Bottom @ [Entry]))
           in if Links = [] then Some (acc, Before, Run, Top)
              else gcd_convert_loop upd Base Length acc TopUsed' BottomUsed' Before Run
                     (Top @ Links)))"
  by pat_completeness auto

text \<open>Each step consumes an entry, and the one step that adds one uses up the top spare entry.\<close>

lemma CoreInsertGcdMapEntry_Top:
  "CoreInsertGcdMapEntry e b l tu bu = Some (lower, e', upper, tu', bu') \<Longrightarrow>
   upper = [] \<and> tu' = tu \<or> (\<exists>t. upper = [t]) \<and> \<not> tu \<and> tu'"
  by (auto simp: CoreInsertGcdMapEntry_def Let_def split: if_splits)

termination gcd_convert_loop
  by (relation "measure (\<lambda>(upd, b, l, acc, tu, bu, pre, run, es). (if tu then 0 else 1) + length es)")
    (auto dest!: CoreInsertGcdMapEntry_Top)

text \<open>The loop from \<open>StartLink\<close> to \<open>EndLink\<close> followed by the cleanup, on the whole ring.\<close>

definition gcd_update_range ::
  "('acc \<Rightarrow> EFI_GCD_MAP_ENTRY \<Rightarrow> 'acc \<times> EFI_GCD_MAP_ENTRY) \<Rightarrow> UINT64 \<Rightarrow> UINT64 \<Rightarrow> 'acc \<Rightarrow>
   EFI_GCD_MAP_ENTRY list \<Rightarrow> nat \<Rightarrow> nat \<Rightarrow> ('acc \<times> EFI_GCD_MAP_ENTRY list) option"
where
  "gcd_update_range upd Base Length acc Map StartLink EndLink =
     (case gcd_convert_loop upd Base Length acc False False (take StartLink Map) []
             (take (Suc EndLink - StartLink) (drop StartLink Map)) of
        None \<Rightarrow> None
      | Some (acc, Before, Run, Top) \<Rightarrow>
          Some (acc, CoreCleanupGcdMapEntry Before Run (Top @ drop (Suc EndLink) Map)))"

section \<open>The tiling invariant and the abstract map\<close>

text \<open>The entries cover the half-open range from \<open>lo\<close> to \<open>hi\<close> in order, without gap or overlap.\<close>

fun gcd_tiles :: "nat \<Rightarrow> nat \<Rightarrow> EFI_GCD_MAP_ENTRY list \<Rightarrow> bool" where
  "gcd_tiles lo hi [] \<longleftrightarrow> lo = hi"
| "gcd_tiles lo hi (e # es) \<longleftrightarrow>
     unat (BaseAddress e) = lo \<and> BaseAddress e \<le> EndAddress e \<and>
     gcd_tiles (Suc (unat (EndAddress e))) hi es"

definition gcd_covers :: "EFI_GCD_MAP_ENTRY \<Rightarrow> nat \<Rightarrow> bool" where
  "gcd_covers e a \<longleftrightarrow> unat (BaseAddress e) \<le> a \<and> a \<le> unat (EndAddress e)"

text \<open>The abstract space map: what is known about an address.\<close>

definition gcd_lookup :: "EFI_GCD_MAP_ENTRY list \<Rightarrow> nat \<Rightarrow> gcd_cell option" where
  "gcd_lookup es a = map_option cell_of (find (\<lambda>e. gcd_covers e a) es)"

text \<open>No two neighbours could be merged.\<close>

definition gcd_coalesced :: "EFI_GCD_MAP_ENTRY list \<Rightarrow> bool" where
  "gcd_coalesced es \<longleftrightarrow> distinct_adj (map cell_of es)"

definition gcd_wf :: "nat \<Rightarrow> EFI_GCD_MAP_ENTRY list \<Rightarrow> bool" where
  "gcd_wf hi es \<longleftrightarrow> gcd_tiles 0 hi es \<and> gcd_coalesced es"

named_theorems gcd_simps

lemma gcd_mergeable_cell [gcd_simps]: "gcd_mergeable e f \<longleftrightarrow> cell_of e = cell_of f"
  by (auto simp: gcd_mergeable_def cell_of_def)

lemma cell_of_bounds [simp]:
  "cell_of (e\<lparr>BaseAddress := b\<rparr>) = cell_of e" "cell_of (e\<lparr>EndAddress := b\<rparr>) = cell_of e"
  by (simp_all add: cell_of_def)

lemma gcd_tiles_append:
  "gcd_tiles lo hi (xs @ ys) \<longleftrightarrow> (\<exists>m. gcd_tiles lo m xs \<and> gcd_tiles m hi ys)"
  by (induction xs arbitrary: lo) auto

lemma gcd_tiles_le: "gcd_tiles lo hi es \<Longrightarrow> lo \<le> hi"
proof (induction es arbitrary: lo)
  case (Cons e es)
  then have "Suc (unat (EndAddress e)) \<le> hi" by simp
  with Cons.prems show ?case by (auto simp: word_le_nat_alt)
qed simp

lemma gcd_tiles_bounds:
  "gcd_tiles lo hi es \<Longrightarrow> e \<in> set es \<Longrightarrow>
   lo \<le> unat (BaseAddress e) \<and> unat (BaseAddress e) \<le> unat (EndAddress e) \<and> unat (EndAddress e) < hi"
proof (induction es arbitrary: lo)
  case (Cons x es)
  from Cons.prems(1) have t: "gcd_tiles (Suc (unat (EndAddress x))) hi es"
    and x: "unat (BaseAddress x) = lo" "unat (BaseAddress x) \<le> unat (EndAddress x)"
    by (auto simp: word_le_nat_alt)
  show ?case
  proof (cases "e = x")
    case True
    with x gcd_tiles_le [OF t] show ?thesis by auto
  next
    case False
    with Cons.prems(2) Cons.IH [OF t] x show ?thesis by auto
  qed
qed simp

lemma gcd_lookup_Nil [simp]: "gcd_lookup [] a = None"
  by (simp add: gcd_lookup_def)

lemma gcd_lookup_Cons:
  "gcd_lookup (e # es) a = (if gcd_covers e a then Some (cell_of e) else gcd_lookup es a)"
  by (simp add: gcd_lookup_def)

lemma gcd_lookup_append:
  "gcd_lookup (xs @ ys) a = (case gcd_lookup xs a of None \<Rightarrow> gcd_lookup ys a | Some c \<Rightarrow> Some c)"
  by (induction xs) (auto simp: gcd_lookup_Cons)

lemma gcd_lookup_SomeD:
  "gcd_lookup es a = Some c \<Longrightarrow> \<exists>e \<in> set es. gcd_covers e a \<and> cell_of e = c"
  by (induction es) (auto simp: gcd_lookup_Cons split: if_splits)

lemma gcd_lookup_outside:
  assumes "gcd_tiles lo hi es" "a < lo \<or> hi \<le> a"
  shows "gcd_lookup es a = None"
  using assms
proof (induction es arbitrary: lo)
  case (Cons e es)
  then have "unat (BaseAddress e) = lo" "unat (EndAddress e) < hi"
    "unat (BaseAddress e) \<le> unat (EndAddress e)"
    using gcd_tiles_bounds [OF Cons.prems(1), of e] by auto
  with Cons show ?case by (auto simp: gcd_lookup_Cons gcd_covers_def)
qed simp

lemma gcd_lookup_inside:
  assumes "gcd_tiles lo hi es" "lo \<le> a" "a < hi"
  shows "gcd_lookup es a \<noteq> None"
  using assms
proof (induction es arbitrary: lo)
  case (Cons e es)
  then show ?case
    by (cases "a \<le> unat (EndAddress e)") (auto simp: gcd_lookup_Cons gcd_covers_def)
qed simp

lemma gcd_lookup_append_tiles:
  assumes "gcd_tiles lo m xs" "gcd_tiles m hi ys"
  shows "gcd_lookup (xs @ ys) a = (if a < m then gcd_lookup xs a else gcd_lookup ys a)"
proof (cases "a < m")
  case True
  with gcd_lookup_outside [OF assms(2)] show ?thesis
    by (simp add: gcd_lookup_append split: option.splits)
next
  case False
  with gcd_lookup_outside [OF assms(1)] show ?thesis by (simp add: gcd_lookup_append)
qed

end
