(* ===== verification/Gcd_Tiling.thy ===== *)
theory Gcd_Tiling
  imports Gcd_Map
begin

text \<open>
  What the worker functions of the GCD map do to a tiling: splitting and merging entries keep the
  range tiled and the abstract map unchanged, searching finds the entries a range touches, and the
  conversion loop applies its update to exactly the addresses of the range.
\<close>

section \<open>The end of a range that does not wrap\<close>

lemma unat_range_last:
  fixes b l :: UINT64
  assumes "l \<noteq> 0" "unat b + unat l \<le> 2 ^ 64"
  shows "unat (b + l - 1) = unat b + unat l - 1"
proof -
  have l: "unat (l - 1) = unat l - 1" "0 < unat l"
    using assms(1) by (auto simp: unat_minus_one unat_gt_0)
  have "unat (b + (l - 1)) = unat b + unat (l - 1)"
    using l assms(2) by (intro unat_add_lem [THEN iffD1]) auto
  with l show ?thesis by (simp add: add_diff_eq)
qed

lemma unat_range_end:
  fixes b l :: UINT64
  assumes "unat b + unat l < 2 ^ 64"
  shows "unat (b + l) = unat b + unat l"
  using assms by (intro unat_add_lem [THEN iffD1]) simp

section \<open>Splitting\<close>

lemma CoreInsertGcdMapEntry_tiles:
  assumes len: "l \<noteq> 0" "unat b + unat l \<le> 2 ^ 64"
    and ord: "BaseAddress e \<le> EndAddress e"
    and touch: "unat b \<le> unat (EndAddress e)" "unat (BaseAddress e) < unat b + unat l"
    and free: "unat (BaseAddress e) < unat b \<Longrightarrow> \<not> bu" "unat b + unat l \<le> unat (EndAddress e) \<Longrightarrow> \<not> tu"
  obtains lower e' upper where
    "CoreInsertGcdMapEntry e b l tu bu = Some (lower, e', upper, tu \<or> upper \<noteq> [], bu \<or> lower \<noteq> [])"
    "gcd_tiles (unat (BaseAddress e)) (max (unat b) (unat (BaseAddress e))) lower"
    "unat (BaseAddress e') = max (unat b) (unat (BaseAddress e))" "BaseAddress e' \<le> EndAddress e'"
    "Suc (unat (EndAddress e')) = min (unat b + unat l) (Suc (unat (EndAddress e)))"
    "gcd_tiles (min (unat b + unat l) (Suc (unat (EndAddress e)))) (Suc (unat (EndAddress e))) upper"
    "cell_of e' = cell_of e" "\<forall>x \<in> set (lower @ upper). cell_of x = cell_of e"
    "length lower \<le> 1" "length upper \<le> 1"
    "lower = [] \<longleftrightarrow> unat b \<le> unat (BaseAddress e)"
    "upper = [] \<longleftrightarrow> unat (EndAddress e) < unat b + unat l"
proof -
  note last = unat_range_last [OF len]
  have lt: "b > BaseAddress e \<longleftrightarrow> unat (BaseAddress e) < unat b"
    by (simp add: word_less_nat_alt)
  have pos: "0 < unat l" using len(1) by (simp add: unat_gt_0)
  have top: "b + l - 1 < EndAddress e \<longleftrightarrow> unat b + unat l \<le> unat (EndAddress e)"
    using last pos by (auto simp: word_less_nat_alt)
  have bm: "unat (b - 1) = unat b - 1" if "unat (BaseAddress e) < unat b"
    using that by (intro unat_minus_one) auto
  have en: "unat (b + l) = unat b + unat l" if "unat b + unat l \<le> unat (EndAddress e)"
  proof -
    from that unat_UINT64 [of "EndAddress e"] show ?thesis by (intro unat_range_end) simp
  qed
  define lower where "lower = (if b > BaseAddress e then [e\<lparr>EndAddress := b - 1\<rparr>] else [])"
  define m where "m = (if b > BaseAddress e then e\<lparr>BaseAddress := b\<rparr> else e)"
  define e' where "e' = (if b + l - 1 < EndAddress e then m\<lparr>EndAddress := b + l - 1\<rparr> else m)"
  define upper where "upper = (if b + l - 1 < EndAddress e then [m\<lparr>BaseAddress := b + l\<rparr>] else [])"
  show ?thesis
  proof (rule that [of lower e' upper])
    show "CoreInsertGcdMapEntry e b l tu bu =
        Some (lower, e', upper, tu \<or> upper \<noteq> [], bu \<or> lower \<noteq> [])"
      using len(1) free lt top
      by (auto simp: CoreInsertGcdMapEntry_def lower_def m_def e'_def upper_def Let_def)
    show "gcd_tiles (unat (BaseAddress e)) (max (unat b) (unat (BaseAddress e))) lower"
      using bm lt by (auto simp: lower_def word_le_nat_alt max_def)
    show "unat (BaseAddress e') = max (unat b) (unat (BaseAddress e))"
      using lt by (auto simp: e'_def m_def max_def)
    show "BaseAddress e' \<le> EndAddress e'"
      using lt top last pos touch ord by (auto simp: e'_def m_def word_le_nat_alt)
    show "Suc (unat (EndAddress e')) = min (unat b + unat l) (Suc (unat (EndAddress e)))"
      using lt top last pos by (auto simp: e'_def m_def)
    show "gcd_tiles (min (unat b + unat l) (Suc (unat (EndAddress e)))) (Suc (unat (EndAddress e))) upper"
      using lt top en by (auto simp: upper_def m_def word_le_nat_alt)
    show "cell_of e' = cell_of e" "\<forall>x \<in> set (lower @ upper). cell_of x = cell_of e"
      by (auto simp: e'_def m_def lower_def upper_def)
    show "length lower \<le> 1" "length upper \<le> 1"
      by (auto simp: lower_def upper_def)
    show "lower = [] \<longleftrightarrow> unat b \<le> unat (BaseAddress e)"
      "upper = [] \<longleftrightarrow> unat (EndAddress e) < unat b + unat l"
      using lt top by (auto simp: lower_def upper_def)
  qed
qed

section \<open>Merging\<close>

lemma gcd_tiles_merge:
  "gcd_tiles lo hi [p, e] \<Longrightarrow> gcd_tiles lo hi [e\<lparr>BaseAddress := BaseAddress p\<rparr>]"
  "gcd_tiles lo hi [e, n] \<Longrightarrow> gcd_tiles lo hi [e\<lparr>EndAddress := EndAddress n\<rparr>]"
  by (auto simp: word_le_nat_alt)

text \<open>Two lists that tile the same range and say the same of every address.\<close>

definition gcd_same :: "EFI_GCD_MAP_ENTRY list \<Rightarrow> EFI_GCD_MAP_ENTRY list \<Rightarrow> bool" where
  "gcd_same xs ys \<longleftrightarrow>
     (\<forall>lo hi. gcd_tiles lo hi xs \<longrightarrow> gcd_tiles lo hi ys \<and> gcd_lookup ys = gcd_lookup xs)"

lemma gcd_same_refl [simp]: "gcd_same xs xs"
  by (simp add: gcd_same_def)

lemma gcd_same_trans: "gcd_same xs ys \<Longrightarrow> gcd_same ys zs \<Longrightarrow> gcd_same xs zs"
  by (fastforce simp: gcd_same_def)

lemma gcd_same_context:
  assumes "gcd_same xs ys"
  shows "gcd_same (us @ xs @ vs) (us @ ys @ vs)"
  unfolding gcd_same_def
proof (intro allI impI)
  fix lo hi
  assume "gcd_tiles lo hi (us @ xs @ vs)"
  then obtain m n where t: "gcd_tiles lo m us" "gcd_tiles m n xs" "gcd_tiles n hi vs"
    by (auto simp: gcd_tiles_append)
  with assms have "gcd_tiles m n ys" "gcd_lookup ys = gcd_lookup xs"
    by (auto simp: gcd_same_def)
  with t show "gcd_tiles lo hi (us @ ys @ vs) \<and> gcd_lookup (us @ ys @ vs) = gcd_lookup (us @ xs @ vs)"
    by (auto simp: gcd_tiles_append fun_eq_iff gcd_lookup_append split: option.splits)
qed

lemma gcd_same_merge:
  assumes "cell_of p = cell_of e"
  shows "gcd_same [p, e] [e\<lparr>BaseAddress := BaseAddress p\<rparr>]"
    and "gcd_same [p, e] [p\<lparr>EndAddress := EndAddress e\<rparr>]"
  using assms gcd_tiles_merge
  by (auto simp: gcd_same_def fun_eq_iff gcd_lookup_Cons gcd_covers_def word_le_nat_alt)

lemma CoreMergeGcdMapEntry_same:
  assumes "CoreMergeGcdMapEntry bf e af fwd = (st, bf', e', af')"
  shows "gcd_same (rev bf @ e # af) (rev bf' @ e' # af') \<and> cell_of e' = cell_of e"
  using assms
proof (cases "(bf, e, af, fwd)" rule: CoreMergeGcdMapEntry.cases)
  case (2 Before Entry Adj After)
  with assms gcd_same_context [OF gcd_same_merge(2), of Entry Adj "rev Before" After]
  show ?thesis by (auto simp: gcd_simps split: if_splits)
next
  case (4 Adj Before Entry After)
  with assms gcd_same_context [OF gcd_same_merge(1), of Adj Entry "rev Before" After]
  show ?thesis by (auto simp: gcd_simps split: if_splits)
qed (auto)

lemma gcd_cleanup_run_same: "gcd_same (rev bf @ run @ af) (gcd_cleanup_run bf run af)"
proof (induction bf run af rule: gcd_cleanup_run.induct)
  case (2 bf e af)
  obtain st1 bf1 e1 af1 where m1: "CoreMergeGcdMapEntry bf e af False = (st1, bf1, e1, af1)"
    by (metis prod_cases4)
  obtain st2 bf2 e2 af2 where m2: "CoreMergeGcdMapEntry bf1 e1 af1 True = (st2, bf2, e2, af2)"
    by (metis prod_cases4)
  from CoreMergeGcdMapEntry_same [OF m1] CoreMergeGcdMapEntry_same [OF m2] m1 m2
  show ?case by (auto intro: gcd_same_trans)
next
  case (3 bf e e' run af)
  obtain st bf1 e1 af1 where m: "CoreMergeGcdMapEntry bf e (e' # run @ af) False = (st, bf1, e1, af1)"
    by (metis prod_cases4)
  then have "af1 = e' # run @ af"
    by (cases bf) (auto split: if_splits)
  with CoreMergeGcdMapEntry_same [OF m] "3.IH" [OF m [symmetric] refl refl] m show ?case
    by (auto intro: gcd_same_trans)
qed simp

lemma gcd_cleanup_run_coalesced:
  "run \<noteq> [] \<Longrightarrow> gcd_coalesced (rev bf) \<Longrightarrow> gcd_coalesced af \<Longrightarrow>
   gcd_coalesced (gcd_cleanup_run bf run af)"
proof (induction bf run af rule: gcd_cleanup_run.induct)
  case (2 bf e af)
  then show ?case
    by (cases bf; cases af)
      (auto simp: gcd_coalesced_def gcd_simps rev_map distinct_adj_append_iff)
next
  case (3 bf e e' run af)
  obtain st bf1 e1 af1 where m: "CoreMergeGcdMapEntry bf e (e' # run @ af) False = (st, bf1, e1, af1)"
    by (metis prod_cases4)
  then have "gcd_coalesced (rev (e1 # bf1))"
    using "3.prems"(2)
    by (cases bf) (auto simp: gcd_coalesced_def gcd_simps distinct_adj_append_iff split: if_splits)
  with "3.IH" [OF m [symmetric] refl refl] "3.prems"(3) m show ?case by simp
qed simp

lemma CoreCleanupGcdMapEntry_tiles:
  assumes "gcd_tiles lo hi (bf @ run @ af)"
  shows "gcd_tiles lo hi (CoreCleanupGcdMapEntry bf run af)"
    and "gcd_lookup (CoreCleanupGcdMapEntry bf run af) = gcd_lookup (bf @ run @ af)"
  using gcd_cleanup_run_same [of "rev bf" run af] assms
  by (auto simp: gcd_same_def CoreCleanupGcdMapEntry_def)

lemma CoreCleanupGcdMapEntry_coalesced:
  "run \<noteq> [] \<Longrightarrow> gcd_coalesced bf \<Longrightarrow> gcd_coalesced af \<Longrightarrow>
   gcd_coalesced (CoreCleanupGcdMapEntry bf run af)"
  using gcd_cleanup_run_coalesced [of run "rev bf" af] by (simp add: CoreCleanupGcdMapEntry_def)

section \<open>Searching\<close>

lemma gcd_covers_word:
  "gcd_covers e (unat w) \<longleftrightarrow> BaseAddress e \<le> w \<and> w \<le> EndAddress e"
  by (simp add: gcd_covers_def word_le_nat_alt)

lemma gcd_search_loop_Some:
  "gcd_search_loop b l st k es = Some (s, j) \<Longrightarrow>
   k \<le> j \<and> j < k + length es \<and> gcd_covers (es ! (j - k)) (unat (b + l - 1)) \<and>
   (st = Some s \<or> k \<le> s \<and> s \<le> j \<and> gcd_covers (es ! (s - k)) (unat b))"
proof (induction es arbitrary: st k)
  case (Cons e es)
  define st' where "st' = (if gcd_covers e (unat b) then Some k else st)"
  show ?case
  proof (cases "st' \<noteq> None \<and> gcd_covers e (unat (b + l - 1))")
    case True
    with Cons.prems have "j = k" "st' = Some s"
      by (auto simp: st'_def gcd_covers_word Let_def split: if_splits option.splits)
    with True show ?thesis by (auto simp: st'_def split: if_splits)
  next
    case False
    with Cons.prems have "gcd_search_loop b l st' (Suc k) es = Some (s, j)"
      by (auto simp: st'_def gcd_covers_word Let_def split: if_splits option.splits)
    from Cons.IH [OF this] show ?thesis
      by (auto simp: st'_def nth_Cons' Suc_diff_le split: if_splits)
  qed
qed simp

lemma gcd_search_loop_None:
  "gcd_search_loop b l st k es = None \<Longrightarrow> j < length es \<Longrightarrow> gcd_covers (es ! j) (unat (b + l - 1)) \<Longrightarrow>
   st = None \<and> (\<forall>i \<le> j. \<not> gcd_covers (es ! i) (unat b))"
proof (induction es arbitrary: st k j)
  case (Cons e es)
  define st' where "st' = (if gcd_covers e (unat b) then Some k else st)"
  from Cons.prems(1) have e: "\<not> (st' \<noteq> None \<and> gcd_covers e (unat (b + l - 1)))"
    and rest: "gcd_search_loop b l st' (Suc k) es = None"
    by (auto simp: st'_def gcd_covers_word Let_def split: if_splits option.splits)
  show ?case
  proof (cases j)
    case 0
    with e Cons.prems(3) show ?thesis by (auto simp: st'_def split: if_splits)
  next
    case (Suc j')
    with Cons.IH [OF rest, of j'] Cons.prems(2,3) show ?thesis
      by (auto simp: st'_def nth_Cons' split: if_splits)
  qed
qed simp

text \<open>The entry of a tiling that covers an address, by its position.\<close>

lemma gcd_tiles_index:
  assumes "gcd_tiles lo hi es" "lo \<le> a" "a < hi"
  obtains i where "i < length es" "gcd_covers (es ! i) a"
proof -
  from gcd_lookup_inside [OF assms] obtain e where "e \<in> set es" "gcd_covers e a"
    by (auto simp: gcd_lookup_def find_Some_iff in_set_conv_nth)
  then show ?thesis by (metis in_set_conv_nth that)
qed

lemma gcd_tiles_sorted:
  assumes "gcd_tiles lo hi es" "i < j" "j < length es"
  shows "unat (EndAddress (es ! i)) < unat (BaseAddress (es ! j))"
proof -
  have "es = take (Suc i) es @ drop (Suc i) es" by simp
  with assms(1) obtain m where t: "gcd_tiles lo m (take (Suc i) es)" "gcd_tiles m hi (drop (Suc i) es)"
    by (metis gcd_tiles_append)
  have "es ! i \<in> set (take (Suc i) es)"
    using assms by (auto simp: in_set_conv_nth intro!: exI [of _ i])
  moreover have "es ! j \<in> set (drop (Suc i) es)"
    using assms by (auto simp: in_set_conv_nth intro!: exI [of _ "j - Suc i"])
  ultimately have "unat (EndAddress (es ! i)) < m" "m \<le> unat (BaseAddress (es ! j))"
    using gcd_tiles_bounds [OF t(1)] gcd_tiles_bounds [OF t(2)] by auto
  then show ?thesis by simp
qed

lemma gcd_tiles_index_mono:
  assumes "gcd_tiles lo hi es" "i < length es" "j < length es"
    and "gcd_covers (es ! i) a" "gcd_covers (es ! j) b" "a \<le> b"
  shows "i \<le> j"
proof (rule ccontr)
  assume "\<not> i \<le> j"
  then have "unat (EndAddress (es ! j)) < unat (BaseAddress (es ! i))"
    using gcd_tiles_sorted [OF assms(1), of j i] assms(2) by simp
  with assms(4-6) show False by (auto simp: gcd_covers_def)
qed

text \<open>On a tiling the search succeeds exactly for the ranges inside it.\<close>

lemma CoreSearchGcdMapEntry_Some:
  assumes "CoreSearchGcdMapEntry b l es = Some (i, j)"
  shows "i \<le> j" "j < length es" "gcd_covers (es ! i) (unat b)" "gcd_covers (es ! j) (unat (b + l - 1))"
  using gcd_search_loop_Some [OF assms [unfolded CoreSearchGcdMapEntry_def]] by auto

lemma CoreSearchGcdMapEntry_tiles:
  assumes t: "gcd_tiles lo hi es" and len: "l \<noteq> 0" "unat b + unat l \<le> 2 ^ 64"
  shows "(\<exists>i j. CoreSearchGcdMapEntry b l es = Some (i, j)) \<longleftrightarrow> lo \<le> unat b \<and> unat b + unat l \<le> hi"
proof
  assume "\<exists>i j. CoreSearchGcdMapEntry b l es = Some (i, j)"
  then obtain i j where "CoreSearchGcdMapEntry b l es = Some (i, j)" by blast
  note s = CoreSearchGcdMapEntry_Some [OF this]
  from s have "es ! i \<in> set es" "es ! j \<in> set es" by auto
  with s gcd_tiles_bounds [OF t] have "lo \<le> unat b" "unat (b + l - 1) < hi"
    by (fastforce simp: gcd_covers_def)+
  with unat_range_last [OF len] len(1) show "lo \<le> unat b \<and> unat b + unat l \<le> hi"
    by (auto simp: unat_gt_0 [symmetric])
next
  assume r: "lo \<le> unat b \<and> unat b + unat l \<le> hi"
  have pos: "0 < unat l" using len(1) by (simp add: unat_gt_0)
  obtain i where i: "i < length es" "gcd_covers (es ! i) (unat b)"
    using gcd_tiles_index [OF t, of "unat b"] r pos by auto
  have e: "lo \<le> unat (b + l - 1)" "unat (b + l - 1) < hi"
    using r pos unat_range_last [OF len] by auto
  obtain j where j: "j < length es" "gcd_covers (es ! j) (unat (b + l - 1))"
    using gcd_tiles_index [OF t e] by blast
  have "i \<le> j"
    using gcd_tiles_index_mono [OF t i(1) j(1) i(2) j(2)] unat_range_last [OF len] pos by simp
  with gcd_search_loop_None [of b l None 0 es j] i j
  show "\<exists>i j. CoreSearchGcdMapEntry b l es = Some (i, j)"
    by (cases "gcd_search_loop b l None 0 es") (auto simp: CoreSearchGcdMapEntry_def)
qed

text \<open>The ring around a found range, cut at \<open>StartLink\<close> and after \<open>EndLink\<close>.\<close>

lemma CoreSearchGcdMapEntry_split:
  assumes t: "gcd_tiles lo hi m" and s: "CoreSearchGcdMapEntry b l m = Some (i, j)"
    and len: "l \<noteq> 0" "unat b + unat l \<le> 2 ^ 64"
  obtains p q where
    "m = take i m @ take (Suc j - i) (drop i m) @ drop (Suc j) m"
    "gcd_tiles lo p (take i m)" "gcd_tiles p q (take (Suc j - i) (drop i m))" "gcd_tiles q hi (drop (Suc j) m)"
    "take (Suc j - i) (drop i m) \<noteq> []"
    "gcd_covers (hd (take (Suc j - i) (drop i m))) (unat b)"
    "unat (BaseAddress (last (take (Suc j - i) (drop i m)))) < unat b + unat l"
    "p \<le> unat b" "unat b + unat l \<le> q"
proof -
  note s' = CoreSearchGcdMapEntry_Some [OF s]
  let ?seg = "take (Suc j - i) (drop i m)"
  have "drop (Suc j - i) (drop i m) = drop (Suc j) m" using s'(1) by simp
  then have d: "drop i m = ?seg @ drop (Suc j) m"
    using append_take_drop_id [of "Suc j - i" "drop i m"] by simp
  have m: "m = take i m @ ?seg @ drop (Suc j) m"
    unfolding d [symmetric] by simp
  have seg: "?seg \<noteq> []" "hd ?seg = m ! i" "last ?seg = m ! j"
    using s' by (auto simp: hd_drop_conv_nth last_conv_nth)
  have "gcd_tiles lo hi (take i m @ ?seg @ drop (Suc j) m)"
    using t unfolding d [symmetric] by simp
  then obtain p q where p: "gcd_tiles lo p (take i m)" "gcd_tiles p q ?seg" "gcd_tiles q hi (drop (Suc j) m)"
    unfolding gcd_tiles_append by blast
  have "unat (BaseAddress (last ?seg)) < unat b + unat l" "unat b + unat l \<le> q"
    using s'(4) unat_range_last [OF len] len(1) gcd_tiles_bounds [OF p(2) last_in_set [OF seg(1)]] seg
    by (auto simp: gcd_covers_def unat_gt_0 [symmetric])
  moreover have "gcd_covers (hd ?seg) (unat b)" "p \<le> unat b"
    using s'(3) gcd_tiles_bounds [OF p(2) hd_in_set [OF seg(1)]] seg by (auto simp: gcd_covers_def)
  ultimately show ?thesis using p seg(1) by (intro that [of p q, OF m]) auto
qed

lemma gcd_lookup_covers:
  assumes "gcd_tiles lo hi es" "e \<in> set es" "gcd_covers e a"
  shows "gcd_lookup es a = Some (cell_of e)"
  using assms
proof (induction es arbitrary: lo)
  case (Cons x es)
  show ?case
  proof (cases "e = x")
    case False
    with Cons.prems have e: "e \<in> set es" and t: "gcd_tiles (Suc (unat (EndAddress x))) hi es" by auto
    with gcd_tiles_bounds [OF t e] Cons.prems(3) Cons.IH [OF t e] show ?thesis
      by (auto simp: gcd_lookup_Cons gcd_covers_def)
  qed (use Cons.prems in \<open>simp add: gcd_lookup_Cons\<close>)
qed simp

lemma gcd_run_touches:
  assumes t: "gcd_tiles p q seg" and e: "e \<in> set seg" and b: "gcd_covers (hd seg) b"
  shows "b \<le> unat (EndAddress e)" "unat (BaseAddress e) \<le> unat (BaseAddress (last seg))"
proof -
  have ne: "seg \<noteq> []" using e by auto
  obtain k where k: "k < length seg" "e = seg ! k" using e by (auto simp: in_set_conv_nth)
  show "b \<le> unat (EndAddress e)"
  proof (cases k)
    case 0
    with k b ne show ?thesis by (simp add: hd_conv_nth gcd_covers_def)
  next
    case (Suc k')
    with k gcd_tiles_sorted [OF t, of 0 k] gcd_tiles_bounds [OF t e] b ne show ?thesis
      by (simp add: hd_conv_nth gcd_covers_def)
  qed
  show "unat (BaseAddress e) \<le> unat (BaseAddress (last seg))"
  proof (cases "k = length seg - 1")
    case False
    with k have "k < length seg - 1" by simp
    with k gcd_tiles_sorted [OF t, of k "length seg - 1"] gcd_tiles_bounds [OF t e] show ?thesis
      by (simp add: last_conv_nth ne)
  qed (use k ne in \<open>simp add: last_conv_nth\<close>)
qed

text \<open>The cells of a found range are those of the entries from \<open>StartLink\<close> to \<open>EndLink\<close>.\<close>

lemma CoreSearchGcdMapEntry_cells:
  assumes t: "gcd_tiles lo hi m" and s: "CoreSearchGcdMapEntry b l m = Some (i, j)"
    and len: "l \<noteq> 0" "unat b + unat l \<le> 2 ^ 64"
  shows "gcd_lookup m ` {unat b..<unat b + unat l} =
    (\<lambda>e. Some (cell_of e)) ` set (take (Suc j - i) (drop i m))"
proof -
  define bf seg af where d: "bf = take i m" "seg = take (Suc j - i) (drop i m)" "af = drop (Suc j) m"
  obtain p q where m: "m = bf @ seg @ af"
    and tt: "gcd_tiles lo p bf" "gcd_tiles p q seg" "gcd_tiles q hi af"
    and seg: "seg \<noteq> []" "gcd_covers (hd seg) (unat b)" "unat (BaseAddress (last seg)) < unat b + unat l"
    and r: "p \<le> unat b" "unat b + unat l \<le> q"
    by (rule CoreSearchGcdMapEntry_split [OF t s len, folded d])
  have "gcd_lookup m a \<in> (\<lambda>e. Some (cell_of e)) ` set seg" if a: "unat b \<le> a" "a < unat b + unat l" for a
  proof -
    obtain c where c: "gcd_lookup seg a = Some c"
      using gcd_lookup_inside [OF tt(2), of a] a r by auto
    then have "gcd_lookup m a = Some c"
      using gcd_lookup_outside [OF tt(1), of a] a r m by (simp add: gcd_lookup_append)
    with gcd_lookup_SomeD [OF c] show ?thesis by auto
  qed
  moreover have "Some (cell_of e) \<in> gcd_lookup m ` {unat b..<unat b + unat l}" if e: "e \<in> set seg" for e
  proof -
    let ?a = "max (unat b) (unat (BaseAddress e))"
    have "gcd_covers e ?a" "?a < unat b + unat l"
      using gcd_run_touches [OF tt(2) e seg(2)] seg(3) len(1) gcd_tiles_bounds [OF tt(2) e]
      by (auto simp: gcd_covers_def unat_gt_0 [symmetric])
    moreover have "gcd_lookup m ?a = Some (cell_of e)"
      using gcd_lookup_covers [OF t _ \<open>gcd_covers e ?a\<close>] e m by simp
    ultimately show ?thesis by (metis atLeastLessThan_iff image_eqI max.cobounded1)
  qed
  ultimately show ?thesis unfolding d(2) [symmetric] by auto
qed

section \<open>Updating a range\<close>

text \<open>\<open>ys\<close> is related to \<open>xs\<close> by \<open>R\<close> on the addresses from \<open>b\<close> to \<open>en\<close>, and says of the others what
  \<open>xs\<close> says.\<close>

definition gcd_related ::
  "(gcd_cell \<Rightarrow> gcd_cell \<Rightarrow> bool) \<Rightarrow> nat \<Rightarrow> nat \<Rightarrow> EFI_GCD_MAP_ENTRY list \<Rightarrow> EFI_GCD_MAP_ENTRY list \<Rightarrow> bool" where
  "gcd_related R b en xs ys \<longleftrightarrow>
     (\<forall>a. if b \<le> a \<and> a < en then rel_option R (gcd_lookup xs a) (gcd_lookup ys a)
          else gcd_lookup ys a = gcd_lookup xs a)"

text \<open>The case of a function: \<open>ys\<close> says of the addresses of the range what \<open>f\<close> makes of \<open>xs\<close>.\<close>

definition gcd_mapped ::
  "(gcd_cell \<Rightarrow> gcd_cell) \<Rightarrow> nat \<Rightarrow> nat \<Rightarrow> EFI_GCD_MAP_ENTRY list \<Rightarrow> EFI_GCD_MAP_ENTRY list \<Rightarrow> bool" where
  "gcd_mapped f b en xs ys \<longleftrightarrow>
     (\<forall>a. gcd_lookup ys a =
        (if b \<le> a \<and> a < en then map_option f (gcd_lookup xs a) else gcd_lookup xs a))"

lemma gcd_related_mapped: "gcd_related (\<lambda>c d. d = f c) b en xs ys \<longleftrightarrow> gcd_mapped f b en xs ys"
proof -
  have "rel_option (\<lambda>c d. d = f c) x y \<longleftrightarrow> y = map_option f x" for x y :: "gcd_cell option"
    by (cases x; cases y) auto
  then show ?thesis by (auto simp: gcd_related_def gcd_mapped_def)
qed

lemma gcd_related_append:
  assumes "gcd_related R b en xs ys" "gcd_related R b en xs' ys'"
  shows "gcd_related R b en (xs @ xs') (ys @ ys')"
  unfolding gcd_related_def
proof
  fix a
  from assms show "if b \<le> a \<and> a < en then rel_option R (gcd_lookup (xs @ xs') a) (gcd_lookup (ys @ ys') a)
      else gcd_lookup (ys @ ys') a = gcd_lookup (xs @ xs') a"
    unfolding gcd_related_def gcd_lookup_append
    by (cases "gcd_lookup xs a"; cases "gcd_lookup ys a") (force split: if_splits)+
qed

lemma gcd_related_outside:
  assumes "gcd_tiles lo hi es" "hi \<le> b \<or> en \<le> lo"
  shows "gcd_related R b en es es"
proof -
  have "gcd_lookup es a = None" if "b \<le> a" "a < en" for a
    using assms that by (intro gcd_lookup_outside [OF assms(1)]) auto
  then show ?thesis by (auto simp: gcd_related_def)
qed

lemma gcd_lookup_const:
  assumes "gcd_tiles lo hi es" "\<forall>x \<in> set es. cell_of x = c"
  shows "gcd_lookup es a = (if lo \<le> a \<and> a < hi then Some c else None)"
proof (cases "lo \<le> a \<and> a < hi")
  case True
  then obtain c' where "gcd_lookup es a = Some c'"
    using gcd_lookup_inside [OF assms(1), of a] by auto
  with True assms(2) gcd_lookup_SomeD [of es a c'] show ?thesis by auto
qed (use gcd_lookup_outside [OF assms(1), of a] in auto)

lemma gcd_coalesced_cut:
  assumes "gcd_coalesced (bf @ seg @ af)" "seg \<noteq> []"
  shows "map cell_of lower = (if P then [] else [cell_of (hd seg)]) \<Longrightarrow> gcd_coalesced (bf @ lower)"
    and "map cell_of upper = (if Q then [] else [cell_of (last seg)]) \<Longrightarrow> gcd_coalesced (upper @ af)"
  using assms by (auto simp: gcd_coalesced_def distinct_adj_append_iff hd_map last_map split: if_splits)

text \<open>
  The contract of an entry update: it leaves the bounds alone and, as long as the loop-carried
  variables are as \<open>ok\<close> says, changes the rest of the entry as \<open>R\<close> allows.
\<close>

locale gcd_update =
  fixes upd :: "'acc \<Rightarrow> EFI_GCD_MAP_ENTRY \<Rightarrow> 'acc \<times> EFI_GCD_MAP_ENTRY"
    and ok :: "'acc \<Rightarrow> bool"
    and R :: "gcd_cell \<Rightarrow> gcd_cell \<Rightarrow> bool"
  assumes upd_base: "BaseAddress (snd (upd acc e)) = BaseAddress e"
    and upd_end: "EndAddress (snd (upd acc e)) = EndAddress e"
    and upd_cell: "ok acc \<Longrightarrow> R (cell_of e) (cell_of (snd (upd acc e)))"
    and upd_ok: "ok acc \<Longrightarrow> ok (fst (upd acc e))"
begin

lemma loop_step:
  assumes len: "l \<noteq> 0" "unat b + unat l \<le> 2 ^ 64"
    and ord: "BaseAddress e \<le> EndAddress e"
    and touch: "unat b \<le> unat (EndAddress e)" "unat (BaseAddress e) < unat b + unat l"
    and free: "unat (BaseAddress e) < unat b \<Longrightarrow> \<not> bu" "unat b + unat l \<le> unat (EndAddress e) \<Longrightarrow> \<not> tu"
    and ok: "ok acc"
  obtains lower e' acc1 e1 upper where
    "CoreInsertGcdMapEntry e b l tu bu = Some (lower, e', upper, tu \<or> upper \<noteq> [], bu \<or> lower \<noteq> [])"
    "upd acc e' = (acc1, e1)" "ok acc1"
    "gcd_tiles (unat (BaseAddress e)) (max (unat b) (unat (BaseAddress e))) lower"
    "gcd_tiles (max (unat b) (unat (BaseAddress e))) (min (unat b + unat l) (Suc (unat (EndAddress e)))) [e1]"
    "gcd_tiles (min (unat b + unat l) (Suc (unat (EndAddress e)))) (Suc (unat (EndAddress e))) upper"
    "gcd_related R (unat b) (unat b + unat l) [e] (lower @ [e1] @ upper)"
    "map cell_of lower = (if unat b \<le> unat (BaseAddress e) then [] else [cell_of e])"
    "map cell_of upper = (if unat (EndAddress e) < unat b + unat l then [] else [cell_of e])"
proof -
  let ?lo = "unat (BaseAddress e)" and ?hi = "Suc (unat (EndAddress e))"
  let ?m = "max (unat b) ?lo" and ?n = "min (unat b + unat l) ?hi"
  obtain lower e' upper where ins:
    "CoreInsertGcdMapEntry e b l tu bu = Some (lower, e', upper, tu \<or> upper \<noteq> [], bu \<or> lower \<noteq> [])"
    and lower: "gcd_tiles ?lo ?m lower"
    and e': "unat (BaseAddress e') = ?m" "BaseAddress e' \<le> EndAddress e'" "Suc (unat (EndAddress e')) = ?n"
    and upper: "gcd_tiles ?n ?hi upper"
    and cells: "cell_of e' = cell_of e" "\<forall>x \<in> set (lower @ upper). cell_of x = cell_of e"
      "length lower \<le> 1" "length upper \<le> 1"
    and ends: "lower = [] \<longleftrightarrow> unat b \<le> ?lo" "upper = [] \<longleftrightarrow> unat (EndAddress e) < unat b + unat l"
    by (rule CoreInsertGcdMapEntry_tiles [OF len ord touch free])
  obtain acc1 e1 where u: "upd acc e' = (acc1, e1)" by fastforce
  have e1: "gcd_tiles ?m ?n [e1]" "R (cell_of e) (cell_of e1)" "ok acc1"
    using upd_base [of acc e'] upd_end [of acc e'] upd_cell [OF ok, of e'] upd_ok [OF ok, of e'] u e' cells
    by auto
  have tail: "gcd_tiles ?m ?hi ([e1] @ upper)"
    using e1(1) upper by (auto simp: gcd_tiles_append)
  have ord': "?lo < ?hi" using ord by (simp add: word_le_nat_alt less_Suc_eq_le)
  have e: "gcd_lookup [e] a = (if ?lo \<le> a \<and> a < ?hi then Some (cell_of e) else None)" for a
    by (auto simp: gcd_lookup_Cons gcd_covers_def)
  have "if unat b \<le> a \<and> a < unat b + unat l then rel_option R (gcd_lookup [e] a) (gcd_lookup (lower @ [e1] @ upper) a)
      else gcd_lookup (lower @ [e1] @ upper) a = gcd_lookup [e] a" for a
  proof -
    have l: "gcd_lookup lower a = (if ?lo \<le> a \<and> a < ?m then Some (cell_of e) else None)"
      by (rule gcd_lookup_const [OF lower]) (use cells(2) in auto)
    have m: "gcd_lookup [e1] a = (if ?m \<le> a \<and> a < ?n then Some (cell_of e1) else None)"
      by (rule gcd_lookup_const [OF e1(1)]) auto
    have u: "gcd_lookup upper a = (if ?n \<le> a \<and> a < ?hi then Some (cell_of e) else None)"
      by (rule gcd_lookup_const [OF upper]) (use cells(2) in auto)
    show ?thesis
      unfolding gcd_lookup_append_tiles [OF lower tail] gcd_lookup_append_tiles [OF e1(1) upper] l m u e
      using touch e1(2) by auto
  qed
  then have "gcd_related R (unat b) (unat b + unat l) [e] (lower @ [e1] @ upper)"
    unfolding gcd_related_def by (rule allI)
  moreover have "map cell_of lower = (if unat b \<le> ?lo then [] else [cell_of e])"
    using cells ends by (cases lower) auto
  moreover have "map cell_of upper = (if unat (EndAddress e) < unat b + unat l then [] else [cell_of e])"
    using cells ends by (cases upper) auto
  ultimately show ?thesis using that ins u e1 lower upper by blast
qed

lemma loop_tail:
  assumes "gcd_tiles lo hi es" "es \<noteq> []" and len: "l \<noteq> 0" "unat b + unat l \<le> 2 ^ 64"
    and "unat b \<le> lo" "unat (BaseAddress (last es)) < unat b + unat l" "unat b + unat l \<le> hi"
    and "ok acc" "run \<noteq> []"
  shows "\<exists>acc' new upper.
    gcd_convert_loop upd b l acc False bu bf run es = Some (acc', bf, run @ new, upper) \<and> ok acc' \<and>
    gcd_tiles lo (unat b + unat l) new \<and> gcd_tiles (unat b + unat l) hi upper \<and>
    gcd_related R (unat b) (unat b + unat l) es (new @ upper) \<and>
    map cell_of upper = (if unat b + unat l = hi then [] else [cell_of (last es)])"
  using assms(1,2,5-)
proof (induction es arbitrary: lo acc run bu)
  case (Cons e es)
  let ?en = "unat b + unat l"
  from Cons.prems(1) have lo: "unat (BaseAddress e) = lo" and ord: "BaseAddress e \<le> EndAddress e"
    and t: "gcd_tiles (Suc (unat (EndAddress e))) hi es" by auto
  have pos: "0 < unat l" using len(1) by (simp add: unat_gt_0)
  have "unat (BaseAddress e) \<le> unat (BaseAddress (last (e # es)))"
    using gcd_tiles_bounds [OF Cons.prems(1) last_in_set] lo by simp
  then have b: "unat b \<le> unat (EndAddress e)" "unat (BaseAddress e) < ?en"
    using Cons.prems(3,4) lo ord by (auto simp: word_le_nat_alt)
  obtain lower e' acc1 e1 upper where ins:
    "CoreInsertGcdMapEntry e b l False bu = Some (lower, e', upper, False \<or> upper \<noteq> [], bu \<or> lower \<noteq> [])"
    "upd acc e' = (acc1, e1)" "ok acc1"
    and e1: "gcd_tiles (max (unat b) (unat (BaseAddress e))) (min ?en (Suc (unat (EndAddress e)))) [e1]"
    and up: "gcd_tiles (min ?en (Suc (unat (EndAddress e)))) (Suc (unat (EndAddress e))) upper"
    and mapped: "gcd_related R (unat b) ?en [e] (lower @ [e1] @ upper)"
    and cells: "map cell_of lower = (if unat b \<le> unat (BaseAddress e) then [] else [cell_of e])"
    "map cell_of upper = (if unat (EndAddress e) < ?en then [] else [cell_of e])"
    by (rule loop_step [OF len ord b, of bu False acc]) (use lo Cons.prems in auto)
  have lower: "lower = []" using cells lo Cons.prems(3) by simp
  show ?case
  proof (cases "es = []")
    case True
    with t Cons.prems(5) have "hi = Suc (unat (EndAddress e))" "min ?en hi = ?en" by auto
    with True ins e1 up mapped cells lower lo Cons.prems show ?thesis
      by (auto simp: Let_def max_def)
  next
    case False
    then have lastb: "unat (BaseAddress (last es)) < ?en" using Cons.prems(4) by simp
    have "unat (EndAddress e) < unat (BaseAddress (last es))"
      using gcd_tiles_bounds [OF t, of "last es"] False by simp
    then have upn: "upper = []" and min: "min ?en (Suc (unat (EndAddress e))) = Suc (unat (EndAddress e))"
      using lastb cells by auto
    obtain acc' new upper' where IH:
      "gcd_convert_loop upd b l acc1 False bu bf (run @ [e1]) es = Some (acc', bf, (run @ [e1]) @ new, upper')"
      "ok acc'" "gcd_tiles (Suc (unat (EndAddress e))) ?en new" "gcd_tiles ?en hi upper'"
      "gcd_related R (unat b) ?en es (new @ upper')"
      "map cell_of upper' = (if ?en = hi then [] else [cell_of (last es)])"
      using Cons.IH [OF t False _ lastb Cons.prems(5) ins(3), of "run @ [e1]" bu] b by auto
    have "gcd_convert_loop upd b l acc False bu bf run (e # es) = Some (acc', bf, run @ e1 # new, upper')"
      using False ins lower upn IH(1) Cons.prems(7) by (simp add: Let_def)
    moreover have "gcd_tiles lo ?en (e1 # new)"
      using e1 IH(3) min lo Cons.prems(3) by (auto simp: max_def)
    moreover have "gcd_related R (unat b) ?en (e # es) ((e1 # new) @ upper')"
      using gcd_related_append [OF mapped IH(5)] lower upn by simp
    ultimately show ?thesis
      using False IH by (metis last_ConsR)
  qed
qed simp

lemma loop_full:
  assumes t: "gcd_tiles lo hi es" "es \<noteq> []" and len: "l \<noteq> 0" "unat b + unat l \<le> 2 ^ 64"
    and b: "gcd_covers (hd es) (unat b)"
    and en: "unat (BaseAddress (last es)) < unat b + unat l" "unat b + unat l \<le> hi"
    and ok: "ok acc"
  obtains acc' lower new upper where
    "gcd_convert_loop upd b l acc False False bf [] es = Some (acc', bf @ lower, new, upper)" "ok acc'"
    "new \<noteq> []" "gcd_tiles lo hi (lower @ new @ upper)"
    "gcd_related R (unat b) (unat b + unat l) es (lower @ new @ upper)"
    "map cell_of lower = (if unat b \<le> lo then [] else [cell_of (hd es)])"
    "map cell_of upper = (if unat b + unat l = hi then [] else [cell_of (last es)])"
proof -
  obtain e es' where es: "es = e # es'" using t(2) by (cases es) auto
  let ?en = "unat b + unat l" and ?hi = "Suc (unat (EndAddress e))"
  from t es have lo: "unat (BaseAddress e) = lo" and ord: "BaseAddress e \<le> EndAddress e"
    and t': "gcd_tiles ?hi hi es'" by auto
  have pos: "0 < unat l" using len(1) by (simp add: unat_gt_0)
  have e: "unat b \<le> unat (EndAddress e)" "unat (BaseAddress e) < ?en"
    using b es pos by (auto simp: gcd_covers_def)
  obtain lower e' acc1 e1 upper where ins:
    "CoreInsertGcdMapEntry e b l False False = Some (lower, e', upper, False \<or> upper \<noteq> [], False \<or> lower \<noteq> [])"
    "upd acc e' = (acc1, e1)" "ok acc1"
    and ti: "gcd_tiles (unat (BaseAddress e)) (max (unat b) (unat (BaseAddress e))) lower"
    "gcd_tiles (max (unat b) (unat (BaseAddress e))) (min ?en ?hi) [e1]" "gcd_tiles (min ?en ?hi) ?hi upper"
    and mapped: "gcd_related R (unat b) ?en [e] (lower @ [e1] @ upper)"
    and cells: "map cell_of lower = (if unat b \<le> unat (BaseAddress e) then [] else [cell_of e])"
    "map cell_of upper = (if unat (EndAddress e) < ?en then [] else [cell_of e])"
    by (rule loop_step [OF len ord e, of False False acc]) (use ok in auto)
  show ?thesis
  proof (cases "es' = []")
    case True
    with es t' en ins ti mapped cells lo show ?thesis
      by (intro that [of acc1 lower "[e1]" upper]) (auto simp: Let_def gcd_tiles_append)
  next
    case False
    then have lastb: "unat (BaseAddress (last es')) < ?en" using en es by simp
    have "unat (EndAddress e) < unat (BaseAddress (last es'))"
      using gcd_tiles_bounds [OF t' last_in_set [OF False]] by simp
    then have upn: "upper = []" and min: "min ?en ?hi = ?hi" using lastb cells by auto
    obtain acc' new upper' where tail:
      "gcd_convert_loop upd b l acc1 False (lower \<noteq> []) (bf @ lower) [e1] es' =
         Some (acc', bf @ lower, [e1] @ new, upper')"
      "ok acc'" "gcd_tiles ?hi ?en new" "gcd_tiles ?en hi upper'"
      "gcd_related R (unat b) ?en es' (new @ upper')"
      "map cell_of upper' = (if ?en = hi then [] else [cell_of (last es')])"
      using loop_tail [OF t' False len _ lastb en(2) ins(3), of "[e1]" "lower \<noteq> []" "bf @ lower"] e by auto
    have "gcd_tiles lo hi (lower @ (e1 # new) @ upper')"
      using ti tail min lo by (auto simp: gcd_tiles_append)
    then show ?thesis
      using that [of acc' lower "e1 # new" upper'] ins tail upn False es cells lo
        gcd_related_append [OF mapped tail(5)] by (simp add: Let_def)
  qed
qed

lemma update_range:
  assumes wf: "gcd_tiles lo hi m" "gcd_coalesced m"
    and s: "CoreSearchGcdMapEntry b l m = Some (i, j)"
    and len: "l \<noteq> 0" "unat b + unat l \<le> 2 ^ 64" and ok: "ok acc"
  obtains acc' m' where "gcd_update_range upd b l acc m i j = Some (acc', m')" "ok acc'"
    "gcd_tiles lo hi m'" "gcd_coalesced m'" "gcd_related R (unat b) (unat b + unat l) m m'"
proof -
  define bf seg af where d: "bf = take i m" "seg = take (Suc j - i) (drop i m)" "af = drop (Suc j) m"
  obtain p q where m: "m = bf @ seg @ af"
    and t: "gcd_tiles lo p bf" "gcd_tiles p q seg" "gcd_tiles q hi af"
    and seg: "seg \<noteq> []" "gcd_covers (hd seg) (unat b)" "unat (BaseAddress (last seg)) < unat b + unat l"
    and r: "p \<le> unat b" "unat b + unat l \<le> q"
    by (rule CoreSearchGcdMapEntry_split [OF wf(1) s len, folded d])
  obtain acc' lower new upper where c:
    "gcd_convert_loop upd b l acc False False bf [] seg = Some (acc', bf @ lower, new, upper)" "ok acc'"
    "new \<noteq> []" "gcd_tiles p q (lower @ new @ upper)"
    "gcd_related R (unat b) (unat b + unat l) seg (lower @ new @ upper)"
    "map cell_of lower = (if unat b \<le> p then [] else [cell_of (hd seg)])"
    "map cell_of upper = (if unat b + unat l = q then [] else [cell_of (last seg)])"
    by (rule loop_full [OF t(2) seg(1) len seg(2,3) r(2) ok])
  let ?m = "CoreCleanupGcdMapEntry (bf @ lower) new (upper @ af)"
  have tl: "gcd_tiles lo hi ((bf @ lower) @ new @ (upper @ af))"
    using t c(4) by (auto simp: gcd_tiles_append)
  have "gcd_related R (unat b) (unat b + unat l) (bf @ seg @ af) (bf @ (lower @ new @ upper) @ af)"
    using gcd_related_outside [OF t(1), of "unat b"] gcd_related_outside [OF t(3), of _ "unat b + unat l"] c(5) r
    by (intro gcd_related_append) simp_all
  then have "gcd_related R (unat b) (unat b + unat l) m ?m"
    using CoreCleanupGcdMapEntry_tiles(2) [OF tl] m by (simp add: gcd_related_def)
  moreover have "gcd_coalesced (bf @ lower)" "gcd_coalesced (upper @ af)"
    using gcd_coalesced_cut [OF wf(2) [unfolded m] seg(1)] c(6,7) by blast+
  then have "gcd_coalesced ?m" by (rule CoreCleanupGcdMapEntry_coalesced [OF c(3)])
  moreover have "gcd_update_range upd b l acc m i j = Some (acc', ?m)"
    using c(1) by (simp add: gcd_update_range_def d)
  ultimately show ?thesis
    using that CoreCleanupGcdMapEntry_tiles(1) [OF tl] c(2) by blast
qed

end

section \<open>The map is the normal form of what it says\<close>

text \<open>Two coalesced tilings of a range that agree on every address are the same list.\<close>

lemma gcd_entry_eqI:
  fixes x y :: EFI_GCD_MAP_ENTRY
  assumes "BaseAddress x = BaseAddress y" "EndAddress x = EndAddress y" "cell_of x = cell_of y"
  shows "x = y"
  using assms by (cases x; cases y) (simp add: cell_of_def)

lemma gcd_head_extent:
  assumes "gcd_tiles lo hi (x # xs)" "gcd_tiles lo hi (y # ys)" "gcd_coalesced (x # xs)"
    and "gcd_lookup (x # xs) = gcd_lookup (y # ys)"
  shows "unat (EndAddress y) \<le> unat (EndAddress x)"
proof (rule ccontr)
  assume "\<not> ?thesis"
  then have lt: "unat (EndAddress x) < unat (EndAddress y)" by simp
  let ?a = "Suc (unat (EndAddress x))"
  have b: "unat (BaseAddress x) = lo" "unat (BaseAddress y) = lo" "lo \<le> unat (EndAddress x)"
    using assms(1,2) by (auto simp: word_le_nat_alt)
  have "xs \<noteq> []"
  proof
    assume "xs = []"
    with assms(1) have "hi = ?a" by simp
    with gcd_tiles_bounds [OF assms(2), of y] lt show False by simp
  qed
  then obtain x' xs' where xs: "xs = x' # xs'" by (cases xs) auto
  then have "unat (BaseAddress x') = ?a" "unat (BaseAddress x') \<le> unat (EndAddress x')"
    using assms(1) by (auto simp: word_le_nat_alt)
  then have "gcd_lookup (x # xs) ?a = Some (cell_of x')"
    by (simp add: xs gcd_lookup_Cons gcd_covers_def)
  moreover have "gcd_lookup (y # ys) ?a = Some (cell_of y)" "gcd_lookup (y # ys) lo = Some (cell_of y)"
    using lt b by (simp_all add: gcd_lookup_Cons gcd_covers_def)
  moreover have "gcd_lookup (x # xs) lo = Some (cell_of x)"
    using b by (simp add: gcd_lookup_Cons gcd_covers_def)
  ultimately show False using assms(3,4) xs by (simp add: gcd_coalesced_def)
qed

lemma gcd_normal_form:
  assumes "gcd_tiles lo hi xs" "gcd_tiles lo hi ys" "gcd_coalesced xs" "gcd_coalesced ys"
    and "gcd_lookup xs = gcd_lookup ys"
  shows "xs = ys"
  using assms
proof (induction xs arbitrary: lo ys)
  case Nil
  have "lo = hi" using Nil.prems(1) by simp
  then show ?case
    using gcd_tiles_bounds [OF Nil.prems(2), of "hd ys"] by (cases ys) auto
next
  case (Cons x xs)
  have "lo < hi"
    using gcd_tiles_bounds [OF Cons.prems(1), of x] by simp
  with Cons.prems(2) obtain y ys' where ys: "ys = y # ys'" by (cases ys) auto
  have ends: "unat (EndAddress x) = unat (EndAddress y)"
    using gcd_head_extent [of lo hi x xs y ys'] gcd_head_extent [of lo hi y ys' x xs] Cons.prems ys
    by (simp add: le_antisym)
  have bases: "unat (BaseAddress x) = lo" "unat (BaseAddress y) = lo" "lo \<le> unat (EndAddress x)"
    using Cons.prems ys by (auto simp: word_le_nat_alt)
  have "gcd_lookup (x # xs) lo = gcd_lookup (y # ys') lo" using Cons.prems ys by simp
  then have "cell_of x = cell_of y"
    using bases ends by (simp add: gcd_lookup_Cons gcd_covers_def)
  then have xy: "x = y"
    using bases ends by (intro gcd_entry_eqI) (auto simp: word_unat_eq_iff)
  have "gcd_lookup xs a = gcd_lookup ys' a" for a
  proof (cases "gcd_covers y a")
    case True
    with Cons.prems ys xy gcd_lookup_outside [of _ hi xs a] gcd_lookup_outside [of _ hi ys' a]
    show ?thesis by (auto simp: gcd_covers_def)
  next
    case False
    with Cons.prems(5) ys xy show ?thesis by (metis gcd_lookup_Cons)
  qed
  moreover have "gcd_coalesced xs" "gcd_coalesced ys'"
    using Cons.prems(3,4) ys by (auto simp: gcd_coalesced_def distinct_adj_Cons)
  ultimately show ?case
    using Cons.IH Cons.prems ys xy by auto
qed

end
