(* ===== verification/Gcd_Convert.thy ===== *)
theory Gcd_Convert
  imports Gcd_Tiling
begin

text \<open>
  The state of the GCD services of \<^verbatim>\<open>Gcd.c\<close> and \<open>CoreConvertSpace\<close>, the worker all of them but the
  allocation share. The CPU architectural protocol (\<open>gCpu\<close>) is a parameter: \<open>None\<close> while it is
  not installed, else its \<open>SetMemoryAttributes\<close> as a function to its status. A function returns
  \<open>None\<close> where an \<open>ASSERT\<close> fails. The lemmas show that a conversion is all or nothing and that it
  acts on the abstract map (address to cell) as the operation says.
\<close>

section \<open>State\<close>

text \<open>The calls the services make into the memory map of \<^verbatim>\<open>Mem/Page.c\<close>, in order.\<close>

datatype memory_call =
    UpdateMemoryAttributes UINT64 UINT64 UINT64
  | AddMemoryDescriptor UINT32 UINT64 UINT64 UINT64

text \<open>\<open>pool k\<close> says whether the \<open>k\<close>-th pool allocation succeeds; \<open>pool_calls\<close> counts them.\<close>

record gcd_state =
  mGcdMemorySpaceMap :: "EFI_GCD_MAP_ENTRY list"
  mGcdIoSpaceMap :: "EFI_GCD_MAP_ENTRY list"
  pool :: "nat \<Rightarrow> bool"
  pool_calls :: nat
  memory_calls :: "memory_call list"
  gDxeCoreImageHandle :: EFI_HANDLE

type_synonym cpu_arch = "(UINT64 \<Rightarrow> UINT64 \<Rightarrow> UINT64 \<Rightarrow> EFI_STATUS) option"

section \<open>Operations\<close>

definition GCD_MEMORY_SPACE_OPERATION :: UINTN where "GCD_MEMORY_SPACE_OPERATION = 0x20"
definition GCD_IO_SPACE_OPERATION :: UINTN where "GCD_IO_SPACE_OPERATION = 0x40"

definition GCD_ADD_MEMORY_OPERATION :: UINTN where "GCD_ADD_MEMORY_OPERATION = 0x20"
definition GCD_ALLOCATE_MEMORY_OPERATION :: UINTN where "GCD_ALLOCATE_MEMORY_OPERATION = 0x21"
definition GCD_FREE_MEMORY_OPERATION :: UINTN where "GCD_FREE_MEMORY_OPERATION = 0x22"
definition GCD_REMOVE_MEMORY_OPERATION :: UINTN where "GCD_REMOVE_MEMORY_OPERATION = 0x23"
definition GCD_SET_ATTRIBUTES_MEMORY_OPERATION :: UINTN where "GCD_SET_ATTRIBUTES_MEMORY_OPERATION = 0x24"
definition GCD_SET_CAPABILITIES_MEMORY_OPERATION :: UINTN where "GCD_SET_CAPABILITIES_MEMORY_OPERATION = 0x25"
definition GCD_ADD_IO_OPERATION :: UINTN where "GCD_ADD_IO_OPERATION = 0x40"
definition GCD_ALLOCATE_IO_OPERATION :: UINTN where "GCD_ALLOCATE_IO_OPERATION = 0x41"
definition GCD_FREE_IO_OPERATION :: UINTN where "GCD_FREE_IO_OPERATION = 0x42"
definition GCD_REMOVE_IO_OPERATION :: UINTN where "GCD_REMOVE_IO_OPERATION = 0x43"

lemmas gcd_operation_defs =
  GCD_MEMORY_SPACE_OPERATION_def GCD_IO_SPACE_OPERATION_def GCD_ADD_MEMORY_OPERATION_def
  GCD_ALLOCATE_MEMORY_OPERATION_def GCD_FREE_MEMORY_OPERATION_def GCD_REMOVE_MEMORY_OPERATION_def
  GCD_SET_ATTRIBUTES_MEMORY_OPERATION_def GCD_SET_CAPABILITIES_MEMORY_OPERATION_def
  GCD_ADD_IO_OPERATION_def GCD_ALLOCATE_IO_OPERATION_def GCD_FREE_IO_OPERATION_def
  GCD_REMOVE_IO_OPERATION_def

text \<open>The memory attribute bits the services test.\<close>

definition EFI_MEMORY_UC :: UINT64 where "EFI_MEMORY_UC = 0x1"
definition EFI_MEMORY_WC :: UINT64 where "EFI_MEMORY_WC = 0x2"
definition EFI_MEMORY_WT :: UINT64 where "EFI_MEMORY_WT = 0x4"
definition EFI_MEMORY_WB :: UINT64 where "EFI_MEMORY_WB = 0x8"
definition EFI_MEMORY_UCE :: UINT64 where "EFI_MEMORY_UCE = 0x10"
definition EFI_MEMORY_WP :: UINT64 where "EFI_MEMORY_WP = 0x1000"
definition EFI_MEMORY_RP :: UINT64 where "EFI_MEMORY_RP = 0x2000"
definition EFI_MEMORY_XP :: UINT64 where "EFI_MEMORY_XP = 0x4000"
definition EFI_MEMORY_RO :: UINT64 where "EFI_MEMORY_RO = 0x20000"
definition EFI_MEMORY_RUNTIME :: UINT64 where "EFI_MEMORY_RUNTIME = 0x8000000000000000"
definition EFI_MEMORY_PORT_IO :: UINT64 where "EFI_MEMORY_PORT_IO = 0x4000000000000000"

definition EFI_CACHE_ATTRIBUTE_MASK :: UINT64 where
  "EFI_CACHE_ATTRIBUTE_MASK =
     EFI_MEMORY_UC OR EFI_MEMORY_WC OR EFI_MEMORY_WT OR EFI_MEMORY_WB OR EFI_MEMORY_UCE OR EFI_MEMORY_WP"

definition EFI_MEMORY_ACCESS_MASK :: UINT64 where
  "EFI_MEMORY_ACCESS_MASK = EFI_MEMORY_RP OR EFI_MEMORY_XP OR EFI_MEMORY_RO"

lemmas efi_memory_defs =
  EFI_MEMORY_UC_def EFI_MEMORY_WC_def EFI_MEMORY_WT_def EFI_MEMORY_WB_def EFI_MEMORY_UCE_def
  EFI_MEMORY_WP_def EFI_MEMORY_RP_def EFI_MEMORY_XP_def EFI_MEMORY_RO_def EFI_MEMORY_RUNTIME_def
  EFI_MEMORY_PORT_IO_def EFI_CACHE_ATTRIBUTE_MASK_def EFI_MEMORY_ACCESS_MASK_def

definition ConverToCpuArchAttributes :: "UINT64 \<Rightarrow> UINT64" where
  "ConverToCpuArchAttributes Attrs =
     (let CpuArchAttributes = Attrs AND EFI_MEMORY_ACCESS_MASK
      in if Attrs AND EFI_MEMORY_UC = EFI_MEMORY_UC then CpuArchAttributes OR EFI_MEMORY_UC
         else if Attrs AND EFI_MEMORY_WC = EFI_MEMORY_WC then CpuArchAttributes OR EFI_MEMORY_WC
         else if Attrs AND EFI_MEMORY_WT = EFI_MEMORY_WT then CpuArchAttributes OR EFI_MEMORY_WT
         else if Attrs AND EFI_MEMORY_WB = EFI_MEMORY_WB then CpuArchAttributes OR EFI_MEMORY_WB
         else if Attrs AND EFI_MEMORY_UCE = EFI_MEMORY_UCE then CpuArchAttributes OR EFI_MEMORY_UCE
         else if Attrs AND EFI_MEMORY_WP = EFI_MEMORY_WP then CpuArchAttributes OR EFI_MEMORY_WP
         else CpuArchAttributes)"

section \<open>Spare entries\<close>

definition AllocateZeroPool :: "gcd_state \<Rightarrow> bool \<times> gcd_state" where
  "AllocateZeroPool s = (pool s (pool_calls s), s\<lparr>pool_calls := Suc (pool_calls s)\<rparr>)"

definition CoreAllocateGcdMapEntry :: "gcd_state \<Rightarrow> EFI_STATUS \<times> gcd_state" where
  "CoreAllocateGcdMapEntry s =
     (let (TopEntry, s) = AllocateZeroPool s
      in if \<not> TopEntry then (EFI_OUT_OF_RESOURCES, s)
         else (let (BottomEntry, s) = AllocateZeroPool s
               in if \<not> BottomEntry then (EFI_OUT_OF_RESOURCES, s) else (EFI_SUCCESS, s)))"

section \<open>CoreConvertSpace\<close>

text \<open>The map an operation works on.\<close>

definition gcd_space :: "UINTN \<Rightarrow> gcd_state \<Rightarrow> EFI_GCD_MAP_ENTRY list option" where
  "gcd_space Operation s =
     (if Operation AND GCD_MEMORY_SPACE_OPERATION \<noteq> 0 then Some (mGcdMemorySpaceMap s)
      else if Operation AND GCD_IO_SPACE_OPERATION \<noteq> 0 then Some (mGcdIoSpaceMap s)
      else None)"

definition gcd_set_space :: "UINTN \<Rightarrow> EFI_GCD_MAP_ENTRY list \<Rightarrow> gcd_state \<Rightarrow> gcd_state" where
  "gcd_set_space Operation Map s =
     (if Operation AND GCD_MEMORY_SPACE_OPERATION \<noteq> 0 then s\<lparr>mGcdMemorySpaceMap := Map\<rparr>
      else s\<lparr>mGcdIoSpaceMap := Map\<rparr>)"

text \<open>The check of one descriptor before anything is changed.\<close>

definition gcd_check_entry ::
  "UINTN \<Rightarrow> UINT64 \<Rightarrow> UINT64 \<Rightarrow> UINT64 \<Rightarrow> UINT64 \<Rightarrow> EFI_GCD_MAP_ENTRY \<Rightarrow> EFI_STATUS" where
  "gcd_check_entry Operation Base Length Caps Attrs Entry =
     (if Operation = GCD_ADD_MEMORY_OPERATION then
        (if GcdMemoryType Entry \<noteq> EfiGcdMemoryTypeNonExistent \<or> ImageHandle Entry \<noteq> NULL
         then EFI_ACCESS_DENIED else EFI_SUCCESS)
      else if Operation = GCD_ADD_IO_OPERATION then
        (if GcdIoType Entry \<noteq> EfiGcdIoTypeNonExistent \<or> ImageHandle Entry \<noteq> NULL
         then EFI_ACCESS_DENIED else EFI_SUCCESS)
      else if Operation = GCD_FREE_MEMORY_OPERATION \<or> Operation = GCD_FREE_IO_OPERATION then
        (if ImageHandle Entry = NULL then EFI_NOT_FOUND else EFI_SUCCESS)
      else if Operation = GCD_REMOVE_MEMORY_OPERATION then
        (if GcdMemoryType Entry = EfiGcdMemoryTypeNonExistent then EFI_NOT_FOUND
         else if ImageHandle Entry \<noteq> NULL then EFI_ACCESS_DENIED else EFI_SUCCESS)
      else if Operation = GCD_REMOVE_IO_OPERATION then
        (if GcdIoType Entry = EfiGcdIoTypeNonExistent then EFI_NOT_FOUND
         else if ImageHandle Entry \<noteq> NULL then EFI_ACCESS_DENIED else EFI_SUCCESS)
      else if Operation = GCD_SET_ATTRIBUTES_MEMORY_OPERATION then
        (if Attrs AND EFI_MEMORY_RUNTIME \<noteq> 0 \<and> (Base AND EFI_PAGE_MASK \<noteq> 0 \<or> Length AND EFI_PAGE_MASK \<noteq> 0)
         then EFI_INVALID_PARAMETER
         else if Capabilities Entry AND Attrs \<noteq> Attrs then EFI_UNSUPPORTED else EFI_SUCCESS)
      else if Operation = GCD_SET_CAPABILITIES_MEMORY_OPERATION then
        (if Base AND EFI_PAGE_MASK \<noteq> 0 \<or> Length AND EFI_PAGE_MASK \<noteq> 0 then EFI_INVALID_PARAMETER
         else if Caps AND Attributes Entry \<noteq> Attributes Entry then EFI_UNSUPPORTED else EFI_SUCCESS)
      else EFI_SUCCESS)"

text \<open>The status of the first descriptor that fails a check.\<close>

fun gcd_first_error :: "(EFI_GCD_MAP_ENTRY \<Rightarrow> EFI_STATUS) \<Rightarrow> EFI_GCD_MAP_ENTRY list \<Rightarrow> EFI_STATUS" where
  "gcd_first_error check [] = EFI_SUCCESS"
| "gcd_first_error check (Entry # Links) =
     (if check Entry \<noteq> EFI_SUCCESS then check Entry else gcd_first_error check Links)"

text \<open>
  The change of one descriptor, after it was cut to the range. The loop carries \<open>Attributes\<close>
  from one descriptor to the next and, here, the calls into the memory map.
\<close>

definition gcd_convert_entry ::
  "UINTN \<Rightarrow> UINT32 \<Rightarrow> UINT32 \<Rightarrow> UINT64 \<Rightarrow> UINT64 \<Rightarrow> UINT64 \<Rightarrow> UINT64 \<Rightarrow>
   UINT64 \<times> memory_call list \<Rightarrow> EFI_GCD_MAP_ENTRY \<Rightarrow> (UINT64 \<times> memory_call list) \<times> EFI_GCD_MAP_ENTRY"
where
  "gcd_convert_entry Operation MemoryType IoType Base Length Caps CpuArchAttributes acc Entry =
     (case acc of (Attrs, calls) \<Rightarrow>
      if Operation = GCD_ADD_MEMORY_OPERATION then
        (acc, Entry\<lparr>GcdMemoryType := MemoryType,
           Capabilities :=
             (if MemoryType = EfiGcdMemoryTypeMemoryMappedIo
              then Caps OR EFI_MEMORY_RUNTIME OR EFI_MEMORY_PORT_IO
              else Caps OR EFI_MEMORY_RUNTIME)\<rparr>)
      else if Operation = GCD_ADD_IO_OPERATION then
        (acc, Entry\<lparr>GcdIoType := IoType\<rparr>)
      else if Operation = GCD_FREE_MEMORY_OPERATION \<or> Operation = GCD_FREE_IO_OPERATION then
        (acc, Entry\<lparr>ImageHandle := NULL, DeviceHandle := NULL\<rparr>)
      else if Operation = GCD_REMOVE_MEMORY_OPERATION then
        (acc, Entry\<lparr>GcdMemoryType := EfiGcdMemoryTypeNonExistent, Capabilities := 0\<rparr>)
      else if Operation = GCD_REMOVE_IO_OPERATION then
        (acc, Entry\<lparr>GcdIoType := EfiGcdIoTypeNonExistent\<rparr>)
      else if Operation = GCD_SET_ATTRIBUTES_MEMORY_OPERATION then
        (let Attrs = (if CpuArchAttributes = 0 \<and> Attrs \<noteq> 0
                      then Attrs OR (Attributes Entry AND (EFI_CACHE_ATTRIBUTE_MASK OR EFI_MEMORY_ACCESS_MASK))
                      else Attrs)
         in ((Attrs, calls), Entry\<lparr>Attributes := Attrs\<rparr>))
      else if Operation = GCD_SET_CAPABILITIES_MEMORY_OPERATION then
        ((Attrs,
          if GcdMemoryType Entry = EfiGcdMemoryTypeSystemMemory \<or> GcdMemoryType Entry = EfiGcdMemoryTypeMoreReliable
          then calls @ [UpdateMemoryAttributes Base (drop_bit EFI_PAGE_SHIFT Length) (Caps AND NOT EFI_MEMORY_RUNTIME)]
          else calls),
         Entry\<lparr>Capabilities := Caps\<rparr>)
      else (acc, Entry))"

definition CoreConvertSpace ::
  "cpu_arch \<Rightarrow> gcd_state \<Rightarrow> UINTN \<Rightarrow> UINT32 \<Rightarrow> UINT32 \<Rightarrow> UINT64 \<Rightarrow> UINT64 \<Rightarrow> UINT64 \<Rightarrow> UINT64 \<Rightarrow>
   (EFI_STATUS \<times> gcd_state) option"
where
  "CoreConvertSpace cpu s Operation MemoryType IoType Base Length Caps Attrs =
     (if Length = 0 then Some (EFI_INVALID_PARAMETER, s)
      else case gcd_space Operation s of
        None \<Rightarrow> None
      | Some Map \<Rightarrow>
        (case CoreSearchGcdMapEntry Base Length Map of
           None \<Rightarrow> Some (EFI_UNSUPPORTED, s)
         | Some (StartLink, EndLink) \<Rightarrow>
           (let Status = gcd_first_error (gcd_check_entry Operation Base Length Caps Attrs)
                           (take (Suc EndLink - StartLink) (drop StartLink Map))
            in if Status \<noteq> EFI_SUCCESS then Some (Status, s)
            else (let (Status, s) = CoreAllocateGcdMapEntry s
            in if EFI_ERROR Status then Some (EFI_OUT_OF_RESOURCES, s)
            else (let CpuArchAttributes =
                        (if Operation = GCD_SET_ATTRIBUTES_MEMORY_OPERATION
                         then ConverToCpuArchAttributes Attrs else 0);
                      Status =
                        (if CpuArchAttributes \<noteq> 0
                         then (case cpu of None \<Rightarrow> EFI_NOT_AVAILABLE_YET
                               | Some SetMemoryAttributes \<Rightarrow> SetMemoryAttributes Base Length CpuArchAttributes)
                         else EFI_SUCCESS)
            in if EFI_ERROR Status then Some (Status, s)
            else (case gcd_update_range
                         (gcd_convert_entry Operation MemoryType IoType Base Length Caps CpuArchAttributes)
                         Base Length (Attrs, memory_calls s) Map StartLink EndLink of
                    None \<Rightarrow> None
                  | Some ((_, calls), Map) \<Rightarrow>
                      Some (EFI_SUCCESS, gcd_set_space Operation Map (s\<lparr>memory_calls := calls\<rparr>))))))))"

section \<open>What a conversion promises\<close>

text \<open>The same check and the same change, on what is known of one address.\<close>

definition gcd_check_cell ::
  "UINTN \<Rightarrow> UINT64 \<Rightarrow> UINT64 \<Rightarrow> UINT64 \<Rightarrow> UINT64 \<Rightarrow> gcd_cell \<Rightarrow> bool" where
  "gcd_check_cell Operation Base Length Caps Attrs c \<longleftrightarrow>
     (Operation = GCD_ADD_MEMORY_OPERATION \<longrightarrow> cell_MemoryType c = EfiGcdMemoryTypeNonExistent \<and> cell_ImageHandle c = NULL) \<and>
     (Operation = GCD_ADD_IO_OPERATION \<longrightarrow> cell_IoType c = EfiGcdIoTypeNonExistent \<and> cell_ImageHandle c = NULL) \<and>
     (Operation = GCD_FREE_MEMORY_OPERATION \<or> Operation = GCD_FREE_IO_OPERATION \<longrightarrow> cell_ImageHandle c \<noteq> NULL) \<and>
     (Operation = GCD_REMOVE_MEMORY_OPERATION \<longrightarrow> cell_MemoryType c \<noteq> EfiGcdMemoryTypeNonExistent \<and> cell_ImageHandle c = NULL) \<and>
     (Operation = GCD_REMOVE_IO_OPERATION \<longrightarrow> cell_IoType c \<noteq> EfiGcdIoTypeNonExistent \<and> cell_ImageHandle c = NULL) \<and>
     (Operation = GCD_SET_ATTRIBUTES_MEMORY_OPERATION \<longrightarrow>
        (Attrs AND EFI_MEMORY_RUNTIME \<noteq> 0 \<longrightarrow> Base AND EFI_PAGE_MASK = 0 \<and> Length AND EFI_PAGE_MASK = 0) \<and>
        cell_Capabilities c AND Attrs = Attrs) \<and>
     (Operation = GCD_SET_CAPABILITIES_MEMORY_OPERATION \<longrightarrow>
        Base AND EFI_PAGE_MASK = 0 \<and> Length AND EFI_PAGE_MASK = 0 \<and> Caps AND cell_Attributes c = cell_Attributes c)"

definition gcd_convert_cell :: "UINTN \<Rightarrow> UINT32 \<Rightarrow> UINT32 \<Rightarrow> UINT64 \<Rightarrow> UINT64 \<Rightarrow> gcd_cell \<Rightarrow> gcd_cell" where
  "gcd_convert_cell Operation MemoryType IoType Caps Attrs c =
     (if Operation = GCD_ADD_MEMORY_OPERATION then
        c\<lparr>cell_MemoryType := MemoryType,
          cell_Capabilities := Caps OR EFI_MEMORY_RUNTIME OR
            (if MemoryType = EfiGcdMemoryTypeMemoryMappedIo then EFI_MEMORY_PORT_IO else 0)\<rparr>
      else if Operation = GCD_ADD_IO_OPERATION then c\<lparr>cell_IoType := IoType\<rparr>
      else if Operation = GCD_FREE_MEMORY_OPERATION \<or> Operation = GCD_FREE_IO_OPERATION then
        c\<lparr>cell_ImageHandle := NULL, cell_DeviceHandle := NULL\<rparr>
      else if Operation = GCD_REMOVE_MEMORY_OPERATION then
        c\<lparr>cell_MemoryType := EfiGcdMemoryTypeNonExistent, cell_Capabilities := 0\<rparr>
      else if Operation = GCD_REMOVE_IO_OPERATION then c\<lparr>cell_IoType := EfiGcdIoTypeNonExistent\<rparr>
      else if Operation = GCD_SET_ATTRIBUTES_MEMORY_OPERATION then c\<lparr>cell_Attributes := Attrs\<rparr>
      else if Operation = GCD_SET_CAPABILITIES_MEMORY_OPERATION then c\<lparr>cell_Capabilities := Caps\<rparr>
      else c)"

lemma gcd_check_entry_cell:
  "gcd_check_entry op b l caps attrs e = EFI_SUCCESS \<longleftrightarrow> gcd_check_cell op b l caps attrs (cell_of e)"
  by (auto simp: gcd_check_entry_def gcd_check_cell_def cell_of_def gcd_operation_defs)

lemma gcd_first_error_iff:
  "gcd_first_error check es = EFI_SUCCESS \<longleftrightarrow> (\<forall>e \<in> set es. check e = EFI_SUCCESS)"
  by (induction es) auto

text \<open>
  Setting attributes carries \<open>Attributes\<close> along the loop and adds to it when there are only non-CPU
  bits to set: then an address keeps at least its own cache and access attributes. In every other
  case the new cell is a function of the old one.
\<close>

definition gcd_carries :: "UINTN \<Rightarrow> UINT64 \<Rightarrow> bool" where
  "gcd_carries Operation Attrs \<longleftrightarrow>
     Operation = GCD_SET_ATTRIBUTES_MEMORY_OPERATION \<and> ConverToCpuArchAttributes Attrs = 0 \<and> Attrs \<noteq> 0"

definition gcd_convert_rel ::
  "UINTN \<Rightarrow> UINT32 \<Rightarrow> UINT32 \<Rightarrow> UINT64 \<Rightarrow> UINT64 \<Rightarrow> gcd_cell \<Rightarrow> gcd_cell \<Rightarrow> bool" where
  "gcd_convert_rel Operation MemoryType IoType Caps Attrs c d \<longleftrightarrow>
     (if gcd_carries Operation Attrs
      then d = c\<lparr>cell_Attributes := cell_Attributes d\<rparr> \<and> cell_Attributes d AND Attrs = Attrs \<and>
        (let Kept = cell_Attributes c AND (EFI_CACHE_ATTRIBUTE_MASK OR EFI_MEMORY_ACCESS_MASK)
         in cell_Attributes d AND Kept = Kept)
      else d = gcd_convert_cell Operation MemoryType IoType Caps Attrs c)"

definition gcd_cpu_attributes :: "UINTN \<Rightarrow> UINT64 \<Rightarrow> UINT64" where
  "gcd_cpu_attributes Operation Attrs =
     (if Operation = GCD_SET_ATTRIBUTES_MEMORY_OPERATION then ConverToCpuArchAttributes Attrs else 0)"

definition gcd_attributes_ok :: "UINTN \<Rightarrow> UINT64 \<Rightarrow> UINT64 \<times> memory_call list \<Rightarrow> bool" where
  "gcd_attributes_ok Operation Attrs acc \<longleftrightarrow>
     (if gcd_carries Operation Attrs then fst acc AND Attrs = Attrs
      else Operation = GCD_SET_ATTRIBUTES_MEMORY_OPERATION \<longrightarrow> fst acc = Attrs)"

interpretation conv: gcd_update
  "gcd_convert_entry op mt iot b l caps (gcd_cpu_attributes op attrs)" "gcd_attributes_ok op attrs"
  "gcd_convert_rel op mt iot caps attrs"
  for op mt iot b l caps attrs
proof unfold_locales
  fix acc :: "UINT64 \<times> memory_call list" and e :: EFI_GCD_MAP_ENTRY
  let ?u = "gcd_convert_entry op mt iot b l caps (gcd_cpu_attributes op attrs) acc e"
  obtain as cs where acc: "acc = (as, cs)" by (cases acc)
  show "BaseAddress (snd ?u) = BaseAddress e" "EndAddress (snd ?u) = EndAddress e"
    by (simp_all add: acc gcd_convert_entry_def Let_def)
  assume ok: "gcd_attributes_ok op attrs acc"
  show "gcd_convert_rel op mt iot caps attrs (cell_of e) (cell_of (snd ?u))"
    "gcd_attributes_ok op attrs (fst ?u)"
  proof (atomize(full), cases "op = GCD_SET_ATTRIBUTES_MEMORY_OPERATION")
    case True
    with ok show "gcd_convert_rel op mt iot caps attrs (cell_of e) (cell_of (snd ?u)) \<and> gcd_attributes_ok op attrs (fst ?u)"
      by (auto simp: acc gcd_convert_entry_def gcd_convert_cell_def gcd_convert_rel_def gcd_attributes_ok_def
        gcd_carries_def gcd_cpu_attributes_def cell_of_def Let_def and_or_absorb gcd_operation_defs split: if_splits)
  next
    case False
    then show "gcd_convert_rel op mt iot caps attrs (cell_of e) (cell_of (snd ?u)) \<and> gcd_attributes_ok op attrs (fst ?u)"
      by (simp add: acc gcd_convert_entry_def gcd_convert_cell_def gcd_convert_rel_def gcd_attributes_ok_def
        gcd_carries_def cell_of_def Let_def or.assoc)
  qed
qed

text \<open>The CPU takes the attributes, or there are none for it.\<close>

definition gcd_cpu_accepts :: "cpu_arch \<Rightarrow> UINTN \<Rightarrow> UINT64 \<Rightarrow> UINT64 \<Rightarrow> UINT64 \<Rightarrow> bool" where
  "gcd_cpu_accepts cpu Operation Base Length Attrs \<longleftrightarrow>
     (Operation = GCD_SET_ATTRIBUTES_MEMORY_OPERATION \<and> ConverToCpuArchAttributes Attrs \<noteq> 0 \<longrightarrow>
        (case cpu of None \<Rightarrow> False
         | Some f \<Rightarrow> \<not> EFI_ERROR (f Base Length (ConverToCpuArchAttributes Attrs))))"

definition gcd_pool_ready :: "gcd_state \<Rightarrow> bool" where
  "gcd_pool_ready s \<longleftrightarrow> pool s (pool_calls s) \<and> pool s (Suc (pool_calls s))"

text \<open>Two states with the same maps outside the space of an operation.\<close>

definition gcd_other_space_same :: "UINTN \<Rightarrow> gcd_state \<Rightarrow> gcd_state \<Rightarrow> bool" where
  "gcd_other_space_same Operation s s' \<longleftrightarrow>
     (if Operation AND GCD_MEMORY_SPACE_OPERATION \<noteq> 0 then mGcdIoSpaceMap s' = mGcdIoSpaceMap s
      else mGcdMemorySpaceMap s' = mGcdMemorySpaceMap s)"

lemma gcd_space_simps [gcd_simps]:
  "gcd_space op (gcd_set_space op m s) = (if gcd_space op s = None then None else Some m)"
  "gcd_space op (s\<lparr>pool_calls := n\<rparr>) = gcd_space op s"
  "gcd_space op (s\<lparr>memory_calls := cs\<rparr>) = gcd_space op s"
  "gcd_other_space_same op s s"
  "gcd_other_space_same op s (s\<lparr>pool_calls := n\<rparr>)"
  "gcd_other_space_same op s (gcd_set_space op m (s\<lparr>pool_calls := n\<rparr>))"
  "gcd_other_space_same op s (gcd_set_space op m (s\<lparr>pool_calls := n, memory_calls := cs\<rparr>))"
  by (auto simp: gcd_space_def gcd_set_space_def gcd_other_space_same_def)

lemma CoreAllocateGcdMapEntry_cases:
  obtains "gcd_pool_ready s" "CoreAllocateGcdMapEntry s = (EFI_SUCCESS, s\<lparr>pool_calls := Suc (Suc (pool_calls s))\<rparr>)"
  | n where "\<not> gcd_pool_ready s" "CoreAllocateGcdMapEntry s = (EFI_OUT_OF_RESOURCES, s\<lparr>pool_calls := n\<rparr>)"
  by (cases "pool s (pool_calls s)"; cases "pool s (Suc (pool_calls s))")
    (auto simp: CoreAllocateGcdMapEntry_def AllocateZeroPool_def gcd_pool_ready_def)

lemma CoreConvertSpace_search:
  assumes sp: "gcd_space op s = Some m" and wf: "gcd_wf hi m" and len: "l \<noteq> 0" "unat b + unat l \<le> 2 ^ 64"
    and s: "CoreSearchGcdMapEntry b l m = Some (i, j)"
  shows "\<exists>st s' m'. CoreConvertSpace cpu s op mt iot b l caps attrs = Some (st, s') \<and>
    gcd_space op s' = Some m' \<and> gcd_wf hi m' \<and> gcd_other_space_same op s s' \<and>
    (if (\<forall>a \<in> {unat b..<unat b + unat l}. gcd_check_cell op b l caps attrs (the (gcd_lookup m a))) \<and>
        gcd_pool_ready s \<and> gcd_cpu_accepts cpu op b l attrs
     then st = EFI_SUCCESS \<and> gcd_related (gcd_convert_rel op mt iot caps attrs) (unat b) (unat b + unat l) m m'
     else st \<noteq> EFI_SUCCESS \<and> m' = m)"
proof -
  let ?seg = "take (Suc j - i) (drop i m)"
  define checks where "checks \<longleftrightarrow>
    (\<forall>a \<in> {unat b..<unat b + unat l}. gcd_check_cell op b l caps attrs (the (gcd_lookup m a)))"
  have t: "gcd_tiles 0 hi m" "gcd_coalesced m" using wf by (auto simp: gcd_wf_def)
  let ?cpu = "gcd_cpu_attributes op attrs"
  have fixed: "gcd_attributes_ok op attrs (attrs, memory_calls s)"
    by (simp add: gcd_attributes_ok_def)
  obtain acc' m' where u:
    "gcd_update_range (gcd_convert_entry op mt iot b l caps ?cpu) b l (attrs, memory_calls s) m i j =
       Some (acc', m')"
    "gcd_tiles 0 hi m'" "gcd_coalesced m'"
    "gcd_related (gcd_convert_rel op mt iot caps attrs) (unat b) (unat b + unat l) m m'"
    by (rule conv.update_range [OF t s len fixed])
  have "gcd_first_error (gcd_check_entry op b l caps attrs) ?seg = EFI_SUCCESS \<longleftrightarrow>
      (\<forall>c \<in> gcd_lookup m ` {unat b..<unat b + unat l}. gcd_check_cell op b l caps attrs (the c))"
    unfolding gcd_first_error_iff gcd_check_entry_cell CoreSearchGcdMapEntry_cells [OF t(1) s len] by simp
  then have chk: "gcd_first_error (gcd_check_entry op b l caps attrs) ?seg = EFI_SUCCESS \<longleftrightarrow> checks"
    by (simp add: checks_def)
  have cpu_iff: "EFI_ERROR (if ?cpu \<noteq> 0 then (case cpu of None \<Rightarrow> EFI_NOT_AVAILABLE_YET | Some f \<Rightarrow> f b l ?cpu)
        else EFI_SUCCESS) \<longleftrightarrow> \<not> gcd_cpu_accepts cpu op b l attrs"
    by (auto simp: gcd_cpu_accepts_def gcd_cpu_attributes_def split: option.splits)
  let ?st = "if ?cpu \<noteq> 0 then (case cpu of None \<Rightarrow> EFI_NOT_AVAILABLE_YET | Some f \<Rightarrow> f b l ?cpu)
    else EFI_SUCCESS"
  note unf = CoreConvertSpace_def sp s len(1) gcd_cpu_attributes_def [symmetric] checks_def [symmetric] chk Let_def gcd_simps wf
  consider (check) "\<not> checks" | (pool) "checks" "\<not> gcd_pool_ready s"
    | (cpu) "checks" "gcd_pool_ready s" "EFI_ERROR ?st" | (ok) "checks" "gcd_pool_ready s" "\<not> EFI_ERROR ?st"
    by blast
  then show ?thesis
  proof cases
    case check
    then show ?thesis using chk by (simp add: unf)
  next
    case pool
    then show ?thesis
      by (cases rule: CoreAllocateGcdMapEntry_cases [of s]) (simp_all add: unf)
  next
    case cpu
    then have "?st \<noteq> EFI_SUCCESS" by auto
    with cpu cpu_iff show ?thesis
      by (cases rule: CoreAllocateGcdMapEntry_cases [of s]) (simp_all add: unf)
  next
    case ok
    with chk cpu_iff u show ?thesis
      by (cases rule: CoreAllocateGcdMapEntry_cases [of s]) (simp_all add: unf gcd_wf_def split: prod.splits)
  qed
qed

text \<open>The conversion on every branch; \<open>hi\<close> is the size of the space.\<close>

lemma CoreConvertSpace_spec:
  assumes sp: "gcd_space op s = Some m" and wf: "gcd_wf hi m" and len: "unat b + unat l \<le> 2 ^ 64"
  shows "\<exists>st s' m'. CoreConvertSpace cpu s op mt iot b l caps attrs = Some (st, s') \<and>
    gcd_space op s' = Some m' \<and> gcd_wf hi m' \<and> gcd_other_space_same op s s' \<and>
    (if l \<noteq> 0 \<and> unat b + unat l \<le> hi \<and>
        (\<forall>a \<in> {unat b..<unat b + unat l}. gcd_check_cell op b l caps attrs (the (gcd_lookup m a))) \<and>
        gcd_pool_ready s \<and> gcd_cpu_accepts cpu op b l attrs
     then st = EFI_SUCCESS \<and> gcd_related (gcd_convert_rel op mt iot caps attrs) (unat b) (unat b + unat l) m m'
     else st \<noteq> EFI_SUCCESS \<and> m' = m)"
proof (cases "l \<noteq> 0 \<and> (\<exists>i j. CoreSearchGcdMapEntry b l m = Some (i, j))")
  case True
  then obtain i j where l: "l \<noteq> 0" and s: "CoreSearchGcdMapEntry b l m = Some (i, j)" by blast
  have "unat b + unat l \<le> hi"
    using CoreSearchGcdMapEntry_tiles [of 0 hi m l b] wf l len s by (auto simp: gcd_wf_def)
  with l show ?thesis
    using CoreConvertSpace_search [OF sp wf l len s] by simp
next
  case False
  then have "l = 0 \<or> l \<noteq> 0 \<and> CoreSearchGcdMapEntry b l m = None"
    by (cases "CoreSearchGcdMapEntry b l m") auto
  then have "\<not> (l \<noteq> 0 \<and> unat b + unat l \<le> hi)"
    and "CoreConvertSpace cpu s op mt iot b l caps attrs = Some (if l = 0 then EFI_INVALID_PARAMETER else EFI_UNSUPPORTED, s)"
    using CoreSearchGcdMapEntry_tiles [of 0 hi m l b] wf len sp
    by (auto simp: gcd_wf_def CoreConvertSpace_def)
  then show ?thesis using sp wf by (simp add: gcd_simps) blast
qed

end
