(* ===== verification/Gcd_Allocate.thy ===== *)
theory Gcd_Allocate
  imports Gcd_Convert
begin

text \<open>
  \<open>CoreAllocateSpace\<close> of \<^verbatim>\<open>Gcd.c\<close>: allocation of a range of a space at a fixed address or by a
  search from the bottom or from the top of the map. The search loop runs on fuel; one round per
  descriptor is enough, because every round moves on in its direction. The lemmas show that what
  is allocated was free, aligned and within the limit, and that the search from the bottom finds
  the lowest address there is.
\<close>

section \<open>Definitions\<close>

abbreviation (input) EfiGcdAllocateAnySearchBottomUp :: UINT32 where "EfiGcdAllocateAnySearchBottomUp \<equiv> 0"
abbreviation (input) EfiGcdAllocateMaxAddressSearchBottomUp :: UINT32 where "EfiGcdAllocateMaxAddressSearchBottomUp \<equiv> 1"
abbreviation (input) EfiGcdAllocateAddress :: UINT32 where "EfiGcdAllocateAddress \<equiv> 2"
abbreviation (input) EfiGcdAllocateAnySearchTopDown :: UINT32 where "EfiGcdAllocateAnySearchTopDown \<equiv> 3"
abbreviation (input) EfiGcdAllocateMaxAddressSearchTopDown :: UINT32 where "EfiGcdAllocateMaxAddressSearchTopDown \<equiv> 4"
abbreviation (input) EfiGcdMaxAllocateType :: UINT32 where "EfiGcdMaxAllocateType \<equiv> 5"

definition CoreAllocateSpaceCheckEntry ::
  "UINTN \<Rightarrow> EFI_GCD_MAP_ENTRY \<Rightarrow> UINT32 \<Rightarrow> UINT32 \<Rightarrow> EFI_STATUS" where
  "CoreAllocateSpaceCheckEntry Operation Entry MemoryType IoType =
     (if ImageHandle Entry \<noteq> NULL then EFI_NOT_FOUND
      else if Operation = GCD_ALLOCATE_MEMORY_OPERATION then
        (if GcdMemoryType Entry \<noteq> MemoryType then EFI_NOT_FOUND else EFI_SUCCESS)
      else if Operation = GCD_ALLOCATE_IO_OPERATION then
        (if GcdIoType Entry \<noteq> IoType then EFI_NOT_FOUND else EFI_SUCCESS)
      else EFI_UNSUPPORTED)"

text \<open>The first link from \<open>StartLink\<close> to \<open>EndLink\<close> whose descriptor cannot be used.\<close>

definition gcd_first_unusable ::
  "UINTN \<Rightarrow> UINT32 \<Rightarrow> UINT32 \<Rightarrow> EFI_GCD_MAP_ENTRY list \<Rightarrow> nat \<Rightarrow> nat \<Rightarrow> nat option" where
  "gcd_first_unusable Operation MemoryType IoType Map StartLink EndLink =
     find (\<lambda>SubLink. EFI_ERROR (CoreAllocateSpaceCheckEntry Operation (Map ! SubLink) MemoryType IoType))
       [StartLink ..< Suc EndLink]"

definition gcd_top_down :: "UINT32 \<Rightarrow> bool" where
  "gcd_top_down AllocateType \<longleftrightarrow>
     AllocateType = EfiGcdAllocateMaxAddressSearchTopDown \<or> AllocateType = EfiGcdAllocateAnySearchTopDown"

text \<open>The link after \<open>Link\<close> in the direction of the search; \<open>None\<close> is the list head.\<close>

definition gcd_next_link :: "UINT32 \<Rightarrow> EFI_GCD_MAP_ENTRY list \<Rightarrow> nat \<Rightarrow> nat option" where
  "gcd_next_link AllocateType Map Link =
     (if gcd_top_down AllocateType then (if Link = 0 then None else Some (Link - 1))
      else (if Suc Link < length Map then Some (Suc Link) else None))"

text \<open>
  The search loop, from \<open>Link\<close> on. \<open>Base\<close> is \<open>*BaseAddress\<close>, which the loop overwrites. The result
  is \<open>*BaseAddress\<close> with the found \<open>StartLink\<close> and \<open>EndLink\<close>, or with \<open>None\<close> for \<open>EFI_NOT_FOUND\<close>.
\<close>

fun gcd_allocate_loop ::
  "nat \<Rightarrow> UINTN \<Rightarrow> UINT32 \<Rightarrow> UINT32 \<Rightarrow> UINT32 \<Rightarrow> UINT64 \<Rightarrow> UINT64 \<Rightarrow> UINT64 \<Rightarrow>
   EFI_GCD_MAP_ENTRY list \<Rightarrow> nat option \<Rightarrow> UINT64 \<Rightarrow> (UINT64 \<times> (nat \<times> nat) option) option"
where
  "gcd_allocate_loop 0 Operation AllocateType MemoryType IoType AlignmentMask Length MaxAddress Map Link Base = None"
| "gcd_allocate_loop (Suc fuel) Operation AllocateType MemoryType IoType AlignmentMask Length MaxAddress Map None Base =
     Some (Base, None)"
| "gcd_allocate_loop (Suc fuel) Operation AllocateType MemoryType IoType AlignmentMask Length MaxAddress Map (Some k) Base =
     (let Entry = Map ! k;
          Link = gcd_next_link AllocateType Map k;
          continue = gcd_allocate_loop fuel Operation AllocateType MemoryType IoType AlignmentMask Length MaxAddress Map
      in if EFI_ERROR (CoreAllocateSpaceCheckEntry Operation Entry MemoryType IoType) then continue Link Base
         else if gcd_top_down AllocateType \<and> BaseAddress Entry + Length > MaxAddress then continue Link Base
         else if gcd_top_down AllocateType \<and> Length > EndAddress Entry + 1 then Some (Base, None)
         else
           (let Base = (if gcd_top_down AllocateType
                        then ((if EndAddress Entry > MaxAddress then MaxAddress else EndAddress Entry)
                               + 1 - Length) AND (NOT AlignmentMask)
                        else (BaseAddress Entry + AlignmentMask) AND (NOT AlignmentMask))
            in if \<not> gcd_top_down AllocateType \<and> Base + Length - 1 > MaxAddress then Some (Base, None)
               else (case CoreSearchGcdMapEntry Base Length Map of
                       None \<Rightarrow> Some (Base, None)
                     | Some (StartLink, EndLink) \<Rightarrow>
                         (case gcd_first_unusable Operation MemoryType IoType Map StartLink EndLink of
                            None \<Rightarrow> Some (Base, Some (StartLink, EndLink))
                          | Some SubLink \<Rightarrow> continue (Some SubLink) Base))))"

text \<open>The search of a range, for each allocate type: the status, \<open>*BaseAddress\<close> and the links.\<close>

definition gcd_allocate_search ::
  "UINTN \<Rightarrow> UINT32 \<Rightarrow> UINT32 \<Rightarrow> UINT32 \<Rightarrow> UINT64 \<Rightarrow> UINT64 \<Rightarrow> EFI_GCD_MAP_ENTRY list \<Rightarrow> UINT64 \<Rightarrow>
   (EFI_STATUS \<times> UINT64 \<times> nat \<times> nat) option"
where
  "gcd_allocate_search Operation AllocateType MemoryType IoType AlignmentMask Length Map Base =
     (if AllocateType = EfiGcdAllocateAddress then
        (if Base AND AlignmentMask \<noteq> 0 then Some (EFI_NOT_FOUND, Base, 0, 0)
         else (case CoreSearchGcdMapEntry Base Length Map of
                 None \<Rightarrow> Some (EFI_NOT_FOUND, Base, 0, 0)
               | Some (StartLink, EndLink) \<Rightarrow>
                   Some (gcd_first_error (\<lambda>Entry. CoreAllocateSpaceCheckEntry Operation Entry MemoryType IoType)
                           (take (Suc EndLink - StartLink) (drop StartLink Map)),
                         Base, StartLink, EndLink)))
      else if Map = [] then None
      else
        (let MaxAddress = (if AllocateType = EfiGcdAllocateMaxAddressSearchBottomUp \<or>
                              AllocateType = EfiGcdAllocateMaxAddressSearchTopDown
                           then Base else EndAddress (last Map));
             Link = (if gcd_top_down AllocateType then length Map - 1 else 0)
         in case gcd_allocate_loop (Suc (length Map)) Operation AllocateType MemoryType IoType
                   AlignmentMask Length MaxAddress Map (Some Link) Base of
              None \<Rightarrow> None
            | Some (Base, None) \<Rightarrow> Some (EFI_NOT_FOUND, Base, 0, 0)
            | Some (Base, Some (StartLink, EndLink)) \<Rightarrow> Some (EFI_SUCCESS, Base, StartLink, EndLink)))"

definition gcd_allocate_entry ::
  "EFI_HANDLE \<Rightarrow> EFI_HANDLE \<Rightarrow> unit \<Rightarrow> EFI_GCD_MAP_ENTRY \<Rightarrow> unit \<times> EFI_GCD_MAP_ENTRY" where
  "gcd_allocate_entry Img Dev u Entry = (u, Entry\<lparr>ImageHandle := Img, DeviceHandle := Dev\<rparr>)"

text \<open>\<open>Base\<close> is the pointer \<open>BaseAddress\<close>: \<open>None\<close> when it is \<open>NULL\<close>, else what it points to.\<close>

definition CoreAllocateSpace ::
  "gcd_state \<Rightarrow> UINTN \<Rightarrow> UINT32 \<Rightarrow> UINT32 \<Rightarrow> UINT32 \<Rightarrow> UINTN \<Rightarrow> UINT64 \<Rightarrow> UINT64 option \<Rightarrow>
   EFI_HANDLE \<Rightarrow> EFI_HANDLE \<Rightarrow> (EFI_STATUS \<times> UINT64 option \<times> gcd_state) option"
where
  "CoreAllocateSpace s Operation AllocateType MemoryType IoType Alignment Length Base Img Dev =
     (if AllocateType \<ge> EfiGcdMaxAllocateType then Some (EFI_INVALID_PARAMETER, Base, s)
      else if MemoryType \<ge> EfiGcdMemoryTypeMaximum then Some (EFI_INVALID_PARAMETER, Base, s)
      else if IoType \<ge> EfiGcdIoTypeMaximum then Some (EFI_INVALID_PARAMETER, Base, s)
      else if Base = None then Some (EFI_INVALID_PARAMETER, Base, s)
      else if Img = NULL then Some (EFI_INVALID_PARAMETER, Base, s)
      else if Alignment \<ge> 64 then Some (EFI_NOT_FOUND, Base, s)
      else if Length = 0 then Some (EFI_INVALID_PARAMETER, Base, s)
      else (case gcd_space Operation s of
        None \<Rightarrow> None
      | Some Map \<Rightarrow>
        (case gcd_allocate_search Operation AllocateType MemoryType IoType
                (LShiftU64 1 (unat Alignment) - 1) Length Map (the Base) of
           None \<Rightarrow> None
         | Some (Status, Base, StartLink, EndLink) \<Rightarrow>
           (if EFI_ERROR Status then Some (Status, Some Base, s)
            else (let (Status, s) = CoreAllocateGcdMapEntry s
            in if EFI_ERROR Status then Some (EFI_OUT_OF_RESOURCES, Some Base, s)
            else (case gcd_update_range (gcd_allocate_entry Img Dev) Base Length () Map StartLink EndLink of
                    None \<Rightarrow> None
                  | Some (_, Map) \<Rightarrow> Some (EFI_SUCCESS, Some Base, gcd_set_space Operation Map s)))))))"

section \<open>Ranges that can be allocated\<close>

definition gcd_usable :: "UINTN \<Rightarrow> UINT32 \<Rightarrow> UINT32 \<Rightarrow> gcd_cell \<Rightarrow> bool" where
  "gcd_usable Operation MemoryType IoType c \<longleftrightarrow>
     cell_ImageHandle c = NULL \<and>
     (Operation = GCD_ALLOCATE_MEMORY_OPERATION \<and> cell_MemoryType c = MemoryType \<or>
      Operation = GCD_ALLOCATE_IO_OPERATION \<and> cell_IoType c = IoType)"

text \<open>Every address of the range is in the map and free for the request.\<close>

definition gcd_free ::
  "UINTN \<Rightarrow> UINT32 \<Rightarrow> UINT32 \<Rightarrow> EFI_GCD_MAP_ENTRY list \<Rightarrow> nat \<Rightarrow> nat \<Rightarrow> bool" where
  "gcd_free Operation MemoryType IoType Map x y \<longleftrightarrow>
     (\<forall>a \<in> {x..<y}. case gcd_lookup Map a of None \<Rightarrow> False | Some c \<Rightarrow> gcd_usable Operation MemoryType IoType c)"

text \<open>An aligned free range of the length that ends at or below the limit.\<close>

definition gcd_fits ::
  "UINTN \<Rightarrow> UINT32 \<Rightarrow> UINT32 \<Rightarrow> EFI_GCD_MAP_ENTRY list \<Rightarrow> nat \<Rightarrow> UINT64 \<Rightarrow> UINT64 \<Rightarrow> nat \<Rightarrow> bool" where
  "gcd_fits Operation MemoryType IoType Map n Length MaxAddress x \<longleftrightarrow>
     2 ^ n dvd x \<and> gcd_free Operation MemoryType IoType Map x (x + unat Length) \<and>
     x + unat Length \<le> Suc (unat MaxAddress)"

lemma alignment_mask: "LShiftU64 1 n - 1 = mask n"
  by (simp add: LShiftU64_def mask_eq_exp_minus_1 push_bit_of_1)

lemma CoreAllocateSpaceCheckEntry_cell:
  "EFI_ERROR (CoreAllocateSpaceCheckEntry op e mt iot) \<longleftrightarrow> \<not> gcd_usable op mt iot (cell_of e)"
  "CoreAllocateSpaceCheckEntry op e mt iot = EFI_SUCCESS \<longleftrightarrow> gcd_usable op mt iot (cell_of e)"
  by (auto simp: CoreAllocateSpaceCheckEntry_def gcd_usable_def cell_of_def gcd_operation_defs)

lemma CoreSearchGcdMapEntry_touch:
  assumes t: "gcd_tiles lo hi m" and s: "CoreSearchGcdMapEntry b l m = Some (i, j)"
    and len: "l \<noteq> 0" "unat b + unat l \<le> 2 ^ 64" and f: "i \<le> f" "f \<le> j"
  obtains a where "gcd_covers (m ! f) a" "unat b \<le> a" "a < unat b + unat l"
    "gcd_lookup m a = Some (cell_of (m ! f))"
proof -
  note s' = CoreSearchGcdMapEntry_Some [OF s]
  let ?a = "max (unat b) (unat (BaseAddress (m ! f)))"
  have in_m: "f < length m" "m ! f \<in> set m" using f s' by auto
  have ord: "unat (BaseAddress (m ! f)) \<le> unat (EndAddress (m ! f))"
    using gcd_tiles_bounds [OF t in_m(2)] by simp
  have lo: "unat b \<le> unat (EndAddress (m ! f))"
  proof (cases "f = i")
    case False
    with gcd_tiles_sorted [OF t, of i f] f in_m s'(3) ord show ?thesis by (simp add: gcd_covers_def)
  qed (use s'(3) in \<open>simp add: gcd_covers_def\<close>)
  have up: "unat (BaseAddress (m ! f)) \<le> unat (b + l - 1)"
  proof (cases "f = j")
    case False
    with gcd_tiles_sorted [OF t, of f j] f s'(2,4) ord show ?thesis by (simp add: gcd_covers_def)
  qed (use s'(4) in \<open>simp add: gcd_covers_def\<close>)
  have a: "gcd_covers (m ! f) ?a" "?a < unat b + unat l"
    using lo up ord unat_range_last [OF len] len(1) by (auto simp: gcd_covers_def unat_gt_0 [symmetric])
  then show ?thesis using that [of ?a] gcd_lookup_covers [OF t in_m(2) a(1)] by simp
qed

text \<open>The links of a found range are usable when the range is free.\<close>

lemma gcd_links_usable:
  assumes t: "gcd_tiles lo hi m" and s: "CoreSearchGcdMapEntry b l m = Some (i, j)"
    and len: "l \<noteq> 0" "unat b + unat l \<le> 2 ^ 64"
  shows "(\<forall>e \<in> set (take (Suc j - i) (drop i m)). gcd_usable op mt iot (cell_of e)) \<longleftrightarrow>
    gcd_free op mt iot m (unat b) (unat b + unat l)" (is "?L \<longleftrightarrow> ?R")
proof -
  have "?R \<longleftrightarrow> (\<forall>c \<in> gcd_lookup m ` {unat b..<unat b + unat l}.
      case c of None \<Rightarrow> False | Some c \<Rightarrow> gcd_usable op mt iot c)"
    by (simp add: gcd_free_def)
  also have "\<dots> \<longleftrightarrow> ?L" unfolding CoreSearchGcdMapEntry_cells [OF t s len] by simp
  finally show ?thesis by simp
qed

lemma set_links:
  assumes "i \<le> j" "j < length m"
  shows "set (take (Suc j - i) (drop i m)) = (!) m ` set [i..<Suc j]"
proof -
  have "take (Suc j - i) (drop i m) = map ((!) m) [i..<Suc j]"
    using assms by (intro nth_equalityI) (auto simp del: upt_Suc)
  then show ?thesis by (metis list.set_map)
qed

lemma gcd_first_unusable_None:
  assumes "gcd_tiles lo hi m" and s: "CoreSearchGcdMapEntry b l m = Some (i, j)"
    and "l \<noteq> 0" "unat b + unat l \<le> 2 ^ 64"
  shows "gcd_first_unusable op mt iot m i j = None \<longleftrightarrow> gcd_free op mt iot m (unat b) (unat b + unat l)"
  using gcd_links_usable [OF assms, of op mt iot] CoreSearchGcdMapEntry_Some(1,2) [OF s]
  by (auto simp: gcd_first_unusable_def find_None_iff CoreAllocateSpaceCheckEntry_cell set_links simp del: upt_Suc)

lemma gcd_first_unusable_Some:
  assumes "gcd_first_unusable op mt iot m i j = Some f"
  shows "i \<le> f" "f \<le> j" "\<not> gcd_usable op mt iot (cell_of (m ! f))"
proof -
  have "f \<in> set [i..<Suc j] \<and> \<not> gcd_usable op mt iot (cell_of (m ! f))"
    using assms unfolding gcd_first_unusable_def find_Some_iff CoreAllocateSpaceCheckEntry_cell
    by (metis nth_mem)
  then show "i \<le> f" "f \<le> j" "\<not> gcd_usable op mt iot (cell_of (m ! f))" by auto
qed

section \<open>The search from the bottom\<close>

lemma gcd_covers_unique:
  assumes "gcd_tiles lo hi m" "i < length m" "j < length m" "gcd_covers (m ! i) x" "gcd_covers (m ! j) x"
  shows "i = j"
  using gcd_tiles_index_mono [of lo hi m i j x x] gcd_tiles_index_mono [of lo hi m j i x x] assms by simp

lemma gcd_fitsD:
  assumes t: "gcd_tiles 0 hi m" and f: "gcd_fits op mt iot m n l mx x" and l: "l \<noteq> 0"
  shows "x + unat l \<le> hi" "2 ^ n dvd x" "x + unat l \<le> Suc (unat mx)"
    and "\<And>i a. i < length m \<Longrightarrow> gcd_covers (m ! i) a \<Longrightarrow> x \<le> a \<Longrightarrow> a < x + unat l \<Longrightarrow> gcd_usable op mt iot (cell_of (m ! i))"
proof -
  have pos: "0 < unat l" using l by (simp add: unat_gt_0)
  have free: "gcd_free op mt iot m x (x + unat l)" using f by (simp add: gcd_fits_def)
  then have "gcd_lookup m (x + unat l - 1) \<noteq> None"
    using pos by (auto simp: gcd_free_def split: option.splits)
  with gcd_lookup_outside [OF t, of "x + unat l - 1"] show "x + unat l \<le> hi" by fastforce
  show "gcd_usable op mt iot (cell_of (m ! i))"
    if "i < length m" "gcd_covers (m ! i) a" "x \<le> a" "a < x + unat l" for i a
    using free that gcd_lookup_covers [OF t nth_mem [OF that(1)] that(2)]
    by (auto simp: gcd_free_def split: option.splits)
qed (use f in \<open>simp_all add: gcd_fits_def\<close>)

text \<open>Every fitting range starts in a descriptor from \<open>k\<close> on.\<close>

definition gcd_fits_from ::
  "UINTN \<Rightarrow> UINT32 \<Rightarrow> UINT32 \<Rightarrow> EFI_GCD_MAP_ENTRY list \<Rightarrow> nat \<Rightarrow> UINT64 \<Rightarrow> UINT64 \<Rightarrow> nat \<Rightarrow> bool" where
  "gcd_fits_from op mt iot m n l mx k \<longleftrightarrow>
     (\<forall>x i. gcd_fits op mt iot m n l mx x \<and> i < length m \<and> gcd_covers (m ! i) x \<longrightarrow> k \<le> i)"

lemma gcd_fits_from_end:
  assumes t: "gcd_tiles 0 hi m" and l: "l \<noteq> 0" and fr: "gcd_fits_from op mt iot m n l mx k" and k: "length m \<le> k"
  shows "\<not> gcd_fits op mt iot m n l mx x"
proof
  assume f: "gcd_fits op mt iot m n l mx x"
  have "x < hi" using gcd_fitsD(1) [OF t f l] l by (simp add: unat_gt_0 [symmetric])
  then obtain i where "i < length m" "gcd_covers (m ! i) x"
    using gcd_tiles_index [OF t, of x] by auto
  with fr f k show False by (fastforce simp: gcd_fits_from_def)
qed

lemma gcd_fits_from_skip:
  assumes t: "gcd_tiles 0 hi m" and l: "l \<noteq> 0" and fr: "gcd_fits_from op mt iot m n l mx k"
    and k: "\<not> gcd_usable op mt iot (cell_of (m ! k))"
  shows "gcd_fits_from op mt iot m n l mx (Suc k)"
proof -
  have "k \<noteq> i" if "gcd_fits op mt iot m n l mx x" "i < length m" "gcd_covers (m ! i) x" for x i
    using gcd_fitsD(4) [OF t that(1) l that(2,3)] k l by (auto simp: unat_gt_0 [symmetric])
  with fr show ?thesis by (fastforce simp: gcd_fits_from_def Suc_le_eq le_less)
qed

lemma gcd_fits_from_base:
  assumes t: "gcd_tiles 0 hi m" and l: "l \<noteq> 0" and fr: "gcd_fits_from op mt iot m n l mx k"
    and k: "k < length m" and n: "n < 64" and hi: "hi \<le> 2 ^ 63"
    and f: "gcd_fits op mt iot m n l mx x"
  shows "unat ((BaseAddress (m ! k) + mask n) AND NOT (mask n)) \<le> x"
proof (rule align_up(4) [OF n])
  have "x < hi" using gcd_fitsD(1) [OF t f l] l by (simp add: unat_gt_0 [symmetric])
  then obtain i where i: "i < length m" "gcd_covers (m ! i) x"
    using gcd_tiles_index [OF t, of x] by auto
  then have "k \<le> i" using fr f by (auto simp: gcd_fits_from_def)
  with gcd_tiles_sorted [OF t, of k i] gcd_tiles_bounds [OF t nth_mem [OF k]] i
  show "unat (BaseAddress (m ! k)) \<le> x" by (cases "k = i") (auto simp: gcd_covers_def)
  show "2 ^ n dvd x" using gcd_fitsD(2) [OF t f l] .
  have "(2::nat) ^ n \<le> 2 ^ 63" using n by (intro power_increasing) auto
  then show "unat (BaseAddress (m ! k)) + 2 ^ n \<le> 2 ^ 64"
    using gcd_tiles_bounds [OF t nth_mem [OF k]] hi by simp
qed

text \<open>A jump to the first descriptor in the way of the lowest candidate loses nothing.\<close>

lemma gcd_fits_from_jump:
  assumes t: "gcd_tiles 0 hi m" and len: "l \<noteq> 0" "unat b + unat l \<le> 2 ^ 64"
    and s: "CoreSearchGcdMapEntry b l m = Some (i, j)" and f: "gcd_first_unusable op mt iot m i j = Some f"
    and least: "\<And>x. gcd_fits op mt iot m n l mx x \<Longrightarrow> unat b \<le> x"
  shows "gcd_fits_from op mt iot m n l mx f"
proof -
  note ff = gcd_first_unusable_Some [OF f]
  have fl: "f < length m" using CoreSearchGcdMapEntry_Some(2) [OF s] ff(2) by simp
  obtain a where a: "gcd_covers (m ! f) a" "unat b \<le> a" "a < unat b + unat l"
    by (rule CoreSearchGcdMapEntry_touch [OF t s len ff(1,2)]) blast
  have "f \<le> i'" if fit: "gcd_fits op mt iot m n l mx x" and i: "i' < length m" "gcd_covers (m ! i') x" for x i'
  proof -
    have "a < x" using gcd_fitsD(4) [OF t fit len(1) fl a(1)] least [OF fit] a(3) ff(3) by fastforce
    then show ?thesis using gcd_tiles_index_mono [OF t fl i(1) a(1) i(2)] by simp
  qed
  then show ?thesis by (auto simp: gcd_fits_from_def)
qed

definition gcd_lowest_fit ::
  "UINTN \<Rightarrow> UINT32 \<Rightarrow> UINT32 \<Rightarrow> EFI_GCD_MAP_ENTRY list \<Rightarrow> nat \<Rightarrow> UINT64 \<Rightarrow> UINT64 \<Rightarrow>
   UINT64 \<times> (nat \<times> nat) option \<Rightarrow> bool"
where
  "gcd_lowest_fit op mt iot m n l mx r \<longleftrightarrow>
     (case r of
        (b, None) \<Rightarrow> \<forall>x. \<not> gcd_fits op mt iot m n l mx x
      | (b, Some (i, j)) \<Rightarrow>
          CoreSearchGcdMapEntry b l m = Some (i, j) \<and> unat b + unat l \<le> 2 ^ 64 \<and>
          gcd_fits op mt iot m n l mx (unat b) \<and>
          (\<forall>x. gcd_fits op mt iot m n l mx x \<longrightarrow> unat b \<le> x))"

text \<open>What one round does with a usable descriptor \<open>k\<close>: it decides, or it moves on to some \<open>f > k\<close>.\<close>

lemma gcd_bottom_up_candidate:
  assumes t: "gcd_tiles 0 hi m" and hi: "hi \<le> 2 ^ 63" and l: "l \<noteq> 0" "unat l \<le> 2 ^ 63" and n: "n < 64"
    and fr: "gcd_fits_from op mt iot m n l mx k" and k: "k < length m" "gcd_usable op mt iot (cell_of (m ! k))"
    and b: "b = (BaseAddress (m ! k) + mask n) AND NOT (mask n)"
  shows "mx < b + l - 1 \<Longrightarrow> gcd_lowest_fit op mt iot m n l mx (b, None)"
    and "CoreSearchGcdMapEntry b l m = None \<Longrightarrow> gcd_lowest_fit op mt iot m n l mx (b, None)"
    and "\<not> mx < b + l - 1 \<Longrightarrow> CoreSearchGcdMapEntry b l m = Some (i, j) \<Longrightarrow>
      gcd_first_unusable op mt iot m i j = None \<Longrightarrow> gcd_lowest_fit op mt iot m n l mx (b, Some (i, j))"
    and "CoreSearchGcdMapEntry b l m = Some (i, j) \<Longrightarrow> gcd_first_unusable op mt iot m i j = Some f \<Longrightarrow>
      k < f \<and> f < length m \<and> gcd_fits_from op mt iot m n l mx f"
proof -
  have base: "unat (BaseAddress (m ! k)) \<le> 2 ^ 63" "unat (BaseAddress (m ! k)) + 2 ^ n \<le> 2 ^ 64"
    using gcd_tiles_bounds [OF t nth_mem [OF k(1)]] hi power_increasing [of n 63 "2 :: nat"] n by simp_all
  note up = align_up [OF n base(2), folded b]
  have "unat b \<le> 2 ^ 63" using up(4) [of "2 ^ 63"] base(1) n le_imp_power_dvd [of n 63 "2 :: nat"] by simp
  with l(2) have len: "unat b + unat l \<le> 2 ^ 64" by simp
  have least: "unat b \<le> x" if "gcd_fits op mt iot m n l mx x" for x
    unfolding b using gcd_fits_from_base [OF t l(1) fr k(1) n hi that] .
  have last: "mx < b + l - 1 \<longleftrightarrow> \<not> unat b + unat l \<le> Suc (unat mx)"
    using unat_range_last [OF l(1) len] l(1) by (auto simp: word_less_nat_alt unat_gt_0 [symmetric])
  show "gcd_lowest_fit op mt iot m n l mx (b, None)" if "mx < b + l - 1"
    using least gcd_fitsD(3) [OF t _ l(1)] that last by (fastforce simp: gcd_lowest_fit_def)
  show "gcd_lowest_fit op mt iot m n l mx (b, None)" if "CoreSearchGcdMapEntry b l m = None"
    using least gcd_fitsD(1) [OF t _ l(1)] that CoreSearchGcdMapEntry_tiles [OF t l(1) len]
    by (fastforce simp: gcd_lowest_fit_def)
  show "gcd_lowest_fit op mt iot m n l mx (b, Some (i, j))"
    if "\<not> mx < b + l - 1" and s: "CoreSearchGcdMapEntry b l m = Some (i, j)" "gcd_first_unusable op mt iot m i j = None"
    using that last least len up(1) gcd_first_unusable_None [OF t s(1) l(1) len]
    by (simp add: gcd_lowest_fit_def gcd_fits_def)
  show "k < f \<and> f < length m \<and> gcd_fits_from op mt iot m n l mx f"
    if s: "CoreSearchGcdMapEntry b l m = Some (i, j)" and f: "gcd_first_unusable op mt iot m i j = Some f"
  proof -
    note ff = gcd_first_unusable_Some [OF f] and ss = CoreSearchGcdMapEntry_Some [OF s]
    have "gcd_covers (m ! k) (unat (BaseAddress (m ! k)))"
      using gcd_tiles_bounds [OF t nth_mem [OF k(1)]] by (simp add: gcd_covers_def)
    then have "k \<le> i" using gcd_tiles_index_mono [OF t k(1) _ _ ss(3)] ss(1,2) up(2) by simp
    with ff k(2) have "k < f" by (metis le_neq_implies_less le_trans)
    with gcd_fits_from_jump [OF t l(1) len s f least] ff(2) ss(2) show ?thesis by simp
  qed
qed

lemma gcd_allocate_loop_bottom_up:
  assumes t: "gcd_tiles 0 hi m" and hi: "hi \<le> 2 ^ 63" and l: "l \<noteq> 0" "unat l \<le> 2 ^ 63" and n: "n < 64"
    and bu: "\<not> gcd_top_down at"
  shows "length m < fuel + k \<Longrightarrow> k \<le> length m \<Longrightarrow> gcd_fits_from op mt iot m n l mx k \<Longrightarrow>
    \<exists>r. gcd_allocate_loop fuel op at mt iot (mask n) l mx m (if k < length m then Some k else None) b0 = Some r \<and>
      gcd_lowest_fit op mt iot m n l mx r"
proof (induction fuel arbitrary: k b0)
  case (Suc fuel)
  show ?case
  proof (cases "k < length m")
    case False
    with gcd_fits_from_end [OF t l(1) Suc.prems(3)] show ?thesis by (simp add: gcd_lowest_fit_def)
  next
    case k: True
    have next_link: "gcd_next_link at m k = (if Suc k < length m then Some (Suc k) else None)"
      using bu by (simp add: gcd_next_link_def)
    show ?thesis
    proof (cases "gcd_usable op mt iot (cell_of (m ! k))")
      case False
      from Suc.IH [OF _ _ gcd_fits_from_skip [OF t l(1) Suc.prems(3) False], of b0] Suc.prems k False
      show ?thesis by (simp add: CoreAllocateSpaceCheckEntry_cell next_link Let_def)
    next
      case True
      define b where "b = (BaseAddress (m ! k) + mask n) AND NOT (mask n)"
      note c = gcd_bottom_up_candidate [OF t hi l n Suc.prems(3) k True b_def]
      have jump: "\<exists>r. gcd_allocate_loop fuel op at mt iot (mask n) l mx m (Some f) b = Some r \<and>
          gcd_lowest_fit op mt iot m n l mx r"
        if "CoreSearchGcdMapEntry b l m = Some (i, j)" "gcd_first_unusable op mt iot m i j = Some f" for i j f
        using Suc.IH [of f b] c(4) [OF that] Suc.prems(1) by simp
      show ?thesis
        using k True bu c(1-3) jump
        by (auto simp: CoreAllocateSpaceCheckEntry_cell Let_def simp flip: b_def split: option.splits)
    qed
  qed
qed simp

section \<open>The search from the top\<close>

text \<open>
  The descriptor \<open>w\<close> alone has room for the range, and its base plus the length does not pass the
  limit (the test the code makes before it considers a descriptor).
\<close>

definition gcd_holds ::
  "UINTN \<Rightarrow> UINT32 \<Rightarrow> UINT32 \<Rightarrow> EFI_GCD_MAP_ENTRY list \<Rightarrow> nat \<Rightarrow> UINT64 \<Rightarrow> UINT64 \<Rightarrow> nat \<Rightarrow> bool" where
  "gcd_holds op mt iot m n l mx w \<longleftrightarrow>
     w < length m \<and> gcd_usable op mt iot (cell_of (m ! w)) \<and>
     unat (BaseAddress (m ! w)) + unat l \<le> unat mx \<and>
     (\<exists>x. 2 ^ n dvd x \<and> unat (BaseAddress (m ! w)) \<le> x \<and>
          x + unat l \<le> Suc (min (unat (EndAddress (m ! w))) (unat mx)))"

definition gcd_top_fit ::
  "UINTN \<Rightarrow> UINT32 \<Rightarrow> UINT32 \<Rightarrow> EFI_GCD_MAP_ENTRY list \<Rightarrow> nat \<Rightarrow> UINT64 \<Rightarrow> UINT64 \<Rightarrow>
   UINT64 \<times> (nat \<times> nat) option \<Rightarrow> bool"
where
  "gcd_top_fit op mt iot m n l mx r \<longleftrightarrow>
     (case r of
        (b, None) \<Rightarrow> \<forall>w. \<not> gcd_holds op mt iot m n l mx w
      | (b, Some (i, j)) \<Rightarrow>
          CoreSearchGcdMapEntry b l m = Some (i, j) \<and> unat b + unat l \<le> 2 ^ 64 \<and>
          gcd_fits op mt iot m n l mx (unat b))"

lemma gcd_top_down_base:
  assumes t: "gcd_tiles 0 hi m" and hi: "hi \<le> 2 ^ 63" and l: "l \<noteq> 0" "unat l \<le> 2 ^ 63"
    and k: "k < length m" "\<not> mx < BaseAddress (m ! k) + l" "\<not> EndAddress (m ! k) + 1 < l"
    and b: "b = ((if mx < EndAddress (m ! k) then mx else EndAddress (m ! k)) + 1 - l) AND NOT (mask n)"
  shows "2 ^ n dvd unat b" "unat b + unat l \<le> Suc (min (unat (EndAddress (m ! k))) (unat mx))"
    "2 ^ n dvd x \<Longrightarrow> x + unat l \<le> Suc (min (unat (EndAddress (m ! k))) (unat mx)) \<Longrightarrow> x \<le> unat b"
proof -
  let ?c = "if mx < EndAddress (m ! k) then mx else EndAddress (m ! k)"
  note bd = gcd_tiles_bounds [OF t nth_mem [OF k(1)]]
  have c: "unat ?c = min (unat (EndAddress (m ! k))) (unat mx)"
    by (simp add: word_less_nat_alt)
  have "unat (BaseAddress (m ! k) + l) = unat (BaseAddress (m ! k)) + unat l"
    using bd hi l(2) by (intro unat_range_end) simp
  with k(2) have mx: "unat l \<le> unat mx" by (simp add: word_less_nat_alt)
  have "unat (EndAddress (m ! k) + 1) = Suc (unat (EndAddress (m ! k)))" "unat (?c + 1) = Suc (unat ?c)"
    using bd hi c unat_range_end [of "EndAddress (m ! k)" 1] unat_range_end [of ?c 1] by auto
  with k(3) mx c have "l \<le> ?c + 1" "unat (?c + 1) = Suc (unat ?c)"
    by (auto simp: word_less_nat_alt word_le_nat_alt)
  then have d: "unat (?c + 1 - l) = Suc (unat ?c) - unat l" "unat l \<le> Suc (unat ?c)"
    by (auto simp: unat_sub word_le_nat_alt)
  show "2 ^ n dvd unat b" "unat b + unat l \<le> Suc (min (unat (EndAddress (m ! k))) (unat mx))"
    using align_down(1,2) [where n = n and x = "?c + 1 - l"] d c unfolding b by simp_all
  show "x \<le> unat b" if "2 ^ n dvd x" "x + unat l \<le> Suc (min (unat (EndAddress (m ! k))) (unat mx))"
    using align_down(3) [OF that(1), where x = "?c + 1 - l"] that(2) d c unfolding b by simp
qed

lemma gcd_top_down_candidate:
  assumes t: "gcd_tiles 0 hi m" and hi: "hi \<le> 2 ^ 63" and l: "l \<noteq> 0" "unat l \<le> 2 ^ 63"
    and below: "\<And>w. gcd_holds op mt iot m n l mx w \<Longrightarrow> w \<le> k"
    and k: "k < length m" "\<not> mx < BaseAddress (m ! k) + l" "\<not> EndAddress (m ! k) + 1 < l"
    and us: "gcd_usable op mt iot (cell_of (m ! k))"
    and b: "b = ((if mx < EndAddress (m ! k) then mx else EndAddress (m ! k)) + 1 - l) AND NOT (mask n)"
  obtains i j where "CoreSearchGcdMapEntry b l m = Some (i, j)"
    and "gcd_first_unusable op mt iot m i j = None \<Longrightarrow> gcd_top_fit op mt iot m n l mx (b, Some (i, j))"
    and "\<And>f. gcd_first_unusable op mt iot m i j = Some f \<Longrightarrow>
      f < k \<and> (\<forall>w. gcd_holds op mt iot m n l mx w \<longrightarrow> w \<le> f)"
proof -
  note base = gcd_top_down_base [OF t hi l k b] and bd = gcd_tiles_bounds [OF t nth_mem [OF k(1)]]
  have len: "unat b + unat l \<le> 2 ^ 64" using base(2) bd hi
    by (auto simp: min_def split: if_splits)
  obtain i j where s: "CoreSearchGcdMapEntry b l m = Some (i, j)"
    using CoreSearchGcdMapEntry_tiles [OF t l(1) len] base(2) bd by auto
  note ss = CoreSearchGcdMapEntry_Some [OF s]
  have "gcd_top_fit op mt iot m n l mx (b, Some (i, j))" if "gcd_first_unusable op mt iot m i j = None"
    using that s len base(1,2) gcd_first_unusable_None [OF t s l(1) len]
    by (simp add: gcd_top_fit_def gcd_fits_def)
  moreover have "f < k \<and> (\<forall>w. gcd_holds op mt iot m n l mx w \<longrightarrow> w \<le> f)"
    if f: "gcd_first_unusable op mt iot m i j = Some f" for f
  proof -
    note ff = gcd_first_unusable_Some [OF f]
    have fl: "f < length m" using ff(2) ss(2) by simp
    obtain a where a: "gcd_covers (m ! f) a" "unat b \<le> a" "a < unat b + unat l"
      by (rule CoreSearchGcdMapEntry_touch [OF t s l(1) len ff(1,2)]) blast
    have "gcd_covers (m ! k) (unat (EndAddress (m ! k)))" using bd by (simp add: gcd_covers_def)
    then have "f \<le> k" using gcd_tiles_index_mono [OF t fl k(1) a(1)] a(3) base(2) by simp
    then have "f < k" using ff(3) us by (metis le_neq_implies_less)
    moreover have "w \<le> f" if w: "gcd_holds op mt iot m n l mx w" for w
    proof (rule ccontr)
      assume "\<not> w \<le> f"
      obtain x where x: "w < length m" "2 ^ n dvd x" "unat (BaseAddress (m ! w)) \<le> x"
        "x + unat l \<le> Suc (min (unat (EndAddress (m ! w))) (unat mx))"
        using w by (auto simp: gcd_holds_def)
      have "unat (EndAddress (m ! w)) \<le> unat (EndAddress (m ! k))"
        using below [OF w] gcd_tiles_sorted [OF t, of w k] k(1) bd by (cases "w = k") auto
      then have "x \<le> unat b" using base(3) [OF x(2)] x(4) by simp
      moreover have "a < x"
        using gcd_tiles_sorted [OF t, of f w] \<open>\<not> w \<le> f\<close> x(1,3) a(1) by (simp add: gcd_covers_def)
      ultimately show False using a(2) by simp
    qed
    ultimately show ?thesis by blast
  qed
  ultimately show ?thesis by (rule that [OF s])
qed

text \<open>A descriptor that ends below the length ends the search: no lower one has the room.\<close>

lemma gcd_top_down_stop:
  assumes t: "gcd_tiles 0 hi m" and hi: "hi \<le> 2 ^ 63" and q: "q < length m" "EndAddress (m ! q) + 1 < l"
    and w: "w \<le> q"
  shows "\<not> gcd_holds op mt iot m n l mx w"
proof
  assume "gcd_holds op mt iot m n l mx w"
  then have "unat l \<le> Suc (unat (EndAddress (m ! w)))" by (auto simp: gcd_holds_def)
  moreover have "unat (EndAddress (m ! w)) \<le> unat (EndAddress (m ! q))"
    using w gcd_tiles_sorted [OF t, of w q] q(1) gcd_tiles_bounds [OF t nth_mem [OF q(1)]] by (cases "w = q") auto
  moreover have "unat (EndAddress (m ! q) + 1) = Suc (unat (EndAddress (m ! q)))"
    using gcd_tiles_bounds [OF t nth_mem [OF q(1)]] hi unat_range_end [of "EndAddress (m ! q)" 1] by simp
  ultimately show False using q(2) by (simp add: word_less_nat_alt)
qed

lemma gcd_allocate_loop_top_down:
  assumes t: "gcd_tiles 0 hi m" and hi: "hi \<le> 2 ^ 63" and l: "l \<noteq> 0" "unat l \<le> 2 ^ 63"
    and td: "gcd_top_down at"
  shows "k < fuel \<Longrightarrow> k \<le> length m \<Longrightarrow> (\<And>w. gcd_holds op mt iot m n l mx w \<Longrightarrow> w < k) \<Longrightarrow>
    \<exists>r. gcd_allocate_loop fuel op at mt iot (mask n) l mx m (if k = 0 then None else Some (k - 1)) b0 = Some r \<and>
      gcd_top_fit op mt iot m n l mx r"
proof (induction fuel arbitrary: k b0)
  case (Suc fuel)
  show ?case
  proof (cases k)
    case 0
    with Suc.prems(3) show ?thesis by (auto simp: gcd_top_fit_def)
  next
    case k: (Suc q)
    note bd = gcd_tiles_bounds [OF t nth_mem [of q m]]
    let ?skip = "\<not> gcd_usable op mt iot (cell_of (m ! q)) \<or> mx < BaseAddress (m ! q) + l"
    have next_link: "gcd_next_link at m q = (if q = 0 then None else Some (q - 1))"
      using td by (simp add: gcd_next_link_def)
    have sum: "unat (BaseAddress (m ! q) + l) = unat (BaseAddress (m ! q)) + unat l"
      using bd hi l(2) Suc.prems(2) k by (intro unat_range_end) simp
    consider (skip) ?skip | (stop) "\<not> ?skip" "EndAddress (m ! q) + 1 < l" | (attempt) "\<not> ?skip" "\<not> EndAddress (m ! q) + 1 < l"
      by blast
    then show ?thesis
    proof cases
      case skip
      have "w < q" if "gcd_holds op mt iot m n l mx w" for w
        using Suc.prems(3) [OF that] that skip k sum
        by (cases "w = q") (auto simp: gcd_holds_def word_less_nat_alt)
      from Suc.IH [OF _ _ this, of b0] Suc.prems k skip td next_link
      show ?thesis by (auto simp: CoreAllocateSpaceCheckEntry_cell Let_def)
    next
      case stop
      have "\<not> gcd_holds op mt iot m n l mx w" for w
        using gcd_top_down_stop [OF t hi _ stop(2), of w op mt iot n mx] Suc.prems(2) Suc.prems(3) [of w] k
        by (auto simp: less_Suc_eq_le)
      with stop k td show ?thesis by (simp add: CoreAllocateSpaceCheckEntry_cell Let_def gcd_top_fit_def)
    next
      case attempt
      define b where "b = ((if mx < EndAddress (m ! q) then mx else EndAddress (m ! q)) + 1 - l) AND NOT (mask n)"
      have below: "w \<le> q" if "gcd_holds op mt iot m n l mx w" for w
        using Suc.prems(3) [OF that] k by simp
      obtain i j where s: "CoreSearchGcdMapEntry b l m = Some (i, j)"
        and found: "gcd_first_unusable op mt iot m i j = None \<Longrightarrow> gcd_top_fit op mt iot m n l mx (b, Some (i, j))"
        and jump: "\<And>f. gcd_first_unusable op mt iot m i j = Some f \<Longrightarrow>
          f < q \<and> (\<forall>w. gcd_holds op mt iot m n l mx w \<longrightarrow> w \<le> f)"
        by (rule gcd_top_down_candidate [OF t hi l below _ _ attempt(2) _ b_def, of op mt iot])
          (use attempt Suc.prems(2) k in auto)
      have "\<exists>r. gcd_allocate_loop fuel op at mt iot (mask n) l mx m (Some f) b = Some r \<and>
          gcd_top_fit op mt iot m n l mx r" if "gcd_first_unusable op mt iot m i j = Some f" for f
        using Suc.IH [of "Suc f" b] jump [OF that] Suc.prems(1,2) k by (simp add: less_Suc_eq_le)
      with found s attempt td k show ?thesis
        by (auto simp: CoreAllocateSpaceCheckEntry_cell Let_def simp flip: b_def split: option.splits)
    qed
  qed
qed simp

section \<open>What an allocation promises\<close>

definition gcd_limit :: "UINT32 \<Rightarrow> EFI_GCD_MAP_ENTRY list \<Rightarrow> UINT64 \<Rightarrow> UINT64" where
  "gcd_limit at m b =
     (if at = EfiGcdAllocateMaxAddressSearchBottomUp \<or> at = EfiGcdAllocateMaxAddressSearchTopDown
      then b else EndAddress (last m))"

text \<open>The address \<open>x\<close> is what the allocate type asks for, given the caller's \<open>b\<close>.\<close>

definition gcd_choice ::
  "UINTN \<Rightarrow> UINT32 \<Rightarrow> UINT32 \<Rightarrow> UINT32 \<Rightarrow> EFI_GCD_MAP_ENTRY list \<Rightarrow> nat \<Rightarrow> UINT64 \<Rightarrow> UINT64 \<Rightarrow> nat \<Rightarrow> bool" where
  "gcd_choice op at mt iot m n l b x \<longleftrightarrow>
     (if at = EfiGcdAllocateAddress
      then x = unat b \<and> 2 ^ n dvd x \<and> gcd_free op mt iot m x (x + unat l)
      else gcd_fits op mt iot m n l (gcd_limit at m b) x \<and>
        (gcd_top_down at \<or> (\<forall>y. gcd_fits op mt iot m n l (gcd_limit at m b) y \<longrightarrow> x \<le> y)))"

text \<open>There is room: for the search from the top, in a single descriptor.\<close>

definition gcd_room ::
  "UINTN \<Rightarrow> UINT32 \<Rightarrow> UINT32 \<Rightarrow> UINT32 \<Rightarrow> EFI_GCD_MAP_ENTRY list \<Rightarrow> nat \<Rightarrow> UINT64 \<Rightarrow> UINT64 \<Rightarrow> bool" where
  "gcd_room op at mt iot m n l b \<longleftrightarrow>
     (if gcd_top_down at then \<exists>w. gcd_holds op mt iot m n l (gcd_limit at m b) w
      else \<exists>x. gcd_choice op at mt iot m n l b x)"

definition gcd_search_ok ::
  "UINTN \<Rightarrow> UINT32 \<Rightarrow> UINT32 \<Rightarrow> UINT32 \<Rightarrow> EFI_GCD_MAP_ENTRY list \<Rightarrow> nat \<Rightarrow> UINT64 \<Rightarrow> UINT64 \<Rightarrow>
   EFI_STATUS \<times> UINT64 \<times> nat \<times> nat \<Rightarrow> bool"
where
  "gcd_search_ok op at mt iot m n l b r \<longleftrightarrow>
     (case r of (st, b', i, j) \<Rightarrow>
        if EFI_ERROR st then \<not> gcd_room op at mt iot m n l b
        else st = EFI_SUCCESS \<and> CoreSearchGcdMapEntry b' l m = Some (i, j) \<and> unat b' + unat l \<le> 2 ^ 64 \<and>
          gcd_choice op at mt iot m n l b (unat b'))"

lemma gcd_allocate_search_address:
  assumes t: "gcd_tiles 0 hi m" and hi: "hi \<le> 2 ^ 63" and l: "l \<noteq> 0" "unat l \<le> 2 ^ 63"
    and at: "at = EfiGcdAllocateAddress"
  shows "\<exists>r. gcd_allocate_search op at mt iot (mask n) l m b = Some r \<and> gcd_search_ok op at mt iot m n l b r"
proof (cases "CoreSearchGcdMapEntry b l m")
  case None
  have "\<not> gcd_free op mt iot m (unat b) (unat b + unat l)"
  proof
    assume "gcd_free op mt iot m (unat b) (unat b + unat l)"
    then have "gcd_fits op mt iot m 0 l 0xFFFFFFFFFFFFFFFF (unat b) \<or> \<not> unat b + unat l \<le> 2 ^ 64"
      by (auto simp: gcd_fits_def)
    with gcd_fitsD(1) [OF t _ l(1)] hi have "unat b + unat l \<le> hi \<or> \<not> unat b + unat l \<le> 2 ^ 64" by blast
    moreover have "unat b < hi"
      using bspec [OF \<open>gcd_free _ _ _ _ _ _\<close> [unfolded gcd_free_def], of "unat b"] l(1)
        gcd_lookup_outside [OF t, of "unat b"] by (force simp: unat_gt_0 [symmetric])
    ultimately show False using CoreSearchGcdMapEntry_tiles [OF t l(1), of b] None hi l(2) by auto
  qed
  then show ?thesis using None at
    by (auto simp: gcd_allocate_search_def gcd_search_ok_def gcd_choice_def gcd_room_def gcd_top_down_def)
next
  case (Some ij)
  obtain i j where ij: "ij = (i, j)" by (cases ij)
  with Some have s: "CoreSearchGcdMapEntry b l m = Some (i, j)" by simp
  have "m ! i \<in> set m" using CoreSearchGcdMapEntry_Some [OF s] by simp
  then have "unat b < hi" using CoreSearchGcdMapEntry_Some(3) [OF s] gcd_tiles_bounds [OF t, of "m ! i"]
    by (simp add: gcd_covers_def)
  then have len: "unat b + unat l \<le> 2 ^ 64" using hi l(2) by simp
  let ?st = "gcd_first_error (\<lambda>Entry. CoreAllocateSpaceCheckEntry op Entry mt iot) (take (Suc j - i) (drop i m))"
  have ok: "?st = EFI_SUCCESS \<longleftrightarrow> gcd_free op mt iot m (unat b) (unat b + unat l)"
    using gcd_links_usable [OF t s l(1) len, of op mt iot]
    by (simp add: gcd_first_error_iff CoreAllocateSpaceCheckEntry_cell)
  have "EFI_ERROR (gcd_first_error (\<lambda>Entry. CoreAllocateSpaceCheckEntry op Entry mt iot) es) \<longleftrightarrow>
      gcd_first_error (\<lambda>Entry. CoreAllocateSpaceCheckEntry op Entry mt iot) es \<noteq> EFI_SUCCESS" for es
    by (induction es) (auto simp: CoreAllocateSpaceCheckEntry_def)
  with s at len ok show ?thesis
    by (auto simp: gcd_allocate_search_def gcd_search_ok_def gcd_choice_def gcd_room_def gcd_top_down_def and_mask_eq_0)
qed

definition gcd_search_result :: "UINT64 \<times> (nat \<times> nat) option \<Rightarrow> EFI_STATUS \<times> UINT64 \<times> nat \<times> nat" where
  "gcd_search_result r =
     (case r of (b, None) \<Rightarrow> (EFI_NOT_FOUND, b, 0, 0) | (b, Some (i, j)) \<Rightarrow> (EFI_SUCCESS, b, i, j))"

lemma gcd_allocate_search_spec:
  assumes t: "gcd_tiles 0 hi m" and m: "m \<noteq> []" and hi: "hi \<le> 2 ^ 63" and l: "l \<noteq> 0" "unat l \<le> 2 ^ 63"
    and n: "n < 64"
  shows "\<exists>r. gcd_allocate_search op at mt iot (mask n) l m b = Some r \<and> gcd_search_ok op at mt iot m n l b r"
proof -
  consider (address) "at = EfiGcdAllocateAddress" | (down) "gcd_top_down at" "at \<noteq> EfiGcdAllocateAddress"
    | (up) "\<not> gcd_top_down at" "at \<noteq> EfiGcdAllocateAddress" by blast
  then show ?thesis
  proof cases
    case address
    then show ?thesis using gcd_allocate_search_address [OF t hi l address, of op mt iot n b] by blast
  next
    case down
    obtain r where "gcd_allocate_loop (Suc (length m)) op at mt iot (mask n) l (gcd_limit at m b) m
        (Some (length m - 1)) b = Some r" "gcd_top_fit op mt iot m n l (gcd_limit at m b) r"
      using gcd_allocate_loop_top_down [OF t hi l down(1), of "length m" "Suc (length m)" op mt iot n "gcd_limit at m b" b] m
      by (auto simp: gcd_holds_def simp del: gcd_allocate_loop.simps)
    with down m have "gcd_allocate_search op at mt iot (mask n) l m b = Some (gcd_search_result r)"
      by (simp add: gcd_allocate_search_def gcd_search_result_def gcd_limit_def [symmetric] Let_def
        split: prod.splits option.splits del: gcd_allocate_loop.simps)
    moreover have "gcd_search_ok op at mt iot m n l b (gcd_search_result r)"
      using \<open>gcd_top_fit _ _ _ _ _ _ _ r\<close> down
      by (auto simp: gcd_search_result_def gcd_search_ok_def gcd_choice_def gcd_room_def gcd_top_fit_def
        split: prod.splits option.splits)
    ultimately show ?thesis by blast
  next
    case up
    obtain r where "gcd_allocate_loop (Suc (length m)) op at mt iot (mask n) l (gcd_limit at m b) m
        (Some 0) b = Some r" "gcd_lowest_fit op mt iot m n l (gcd_limit at m b) r"
      using gcd_allocate_loop_bottom_up [OF t hi l n up(1), of "Suc (length m)" 0 op mt iot "gcd_limit at m b" b] m
      by (auto simp: gcd_fits_from_def simp del: gcd_allocate_loop.simps)
    with up m have "gcd_allocate_search op at mt iot (mask n) l m b = Some (gcd_search_result r)"
      by (simp add: gcd_allocate_search_def gcd_search_result_def gcd_limit_def [symmetric] Let_def
        split: prod.splits option.splits del: gcd_allocate_loop.simps)
    moreover have "gcd_search_ok op at mt iot m n l b (gcd_search_result r)"
      using \<open>gcd_lowest_fit _ _ _ _ _ _ _ r\<close> up
      by (auto simp: gcd_search_result_def gcd_search_ok_def gcd_choice_def gcd_room_def gcd_lowest_fit_def
        split: prod.splits option.splits)
    ultimately show ?thesis by blast
  qed
qed

definition gcd_allocate_cell :: "EFI_HANDLE \<Rightarrow> EFI_HANDLE \<Rightarrow> gcd_cell \<Rightarrow> gcd_cell" where
  "gcd_allocate_cell img dev c = c\<lparr>cell_ImageHandle := img, cell_DeviceHandle := dev\<rparr>"

interpretation alloc: gcd_update "gcd_allocate_entry img dev" "\<lambda>_. True" "\<lambda>c d. d = gcd_allocate_cell img dev c"
  for img dev
  by unfold_locales (simp_all add: gcd_allocate_entry_def gcd_allocate_cell_def cell_of_def)

text \<open>The parameters pass the checks at the start.\<close>

definition gcd_request_valid :: "UINT32 \<Rightarrow> UINT32 \<Rightarrow> UINT32 \<Rightarrow> UINTN \<Rightarrow> UINT64 \<Rightarrow> UINT64 option \<Rightarrow> EFI_HANDLE \<Rightarrow> bool" where
  "gcd_request_valid at mt iot al l base img \<longleftrightarrow>
     at < EfiGcdMaxAllocateType \<and> mt < EfiGcdMemoryTypeMaximum \<and> iot < EfiGcdIoTypeMaximum \<and>
     base \<noteq> None \<and> img \<noteq> NULL \<and> al < 64 \<and> l \<noteq> 0"

text \<open>The outcome of a valid request for the space map \<open>m\<close>, which becomes \<open>m'\<close>.\<close>

definition gcd_allocated ::
  "UINTN \<Rightarrow> UINT32 \<Rightarrow> UINT32 \<Rightarrow> UINT32 \<Rightarrow> UINTN \<Rightarrow> UINT64 \<Rightarrow> UINT64 \<Rightarrow> EFI_HANDLE \<Rightarrow> EFI_HANDLE \<Rightarrow>
   EFI_GCD_MAP_ENTRY list \<Rightarrow> EFI_GCD_MAP_ENTRY list \<Rightarrow> UINT64 option \<Rightarrow> bool"
where
  "gcd_allocated op at mt iot al l b img dev m m' base' \<longleftrightarrow>
     (\<exists>x. base' = Some x \<and> gcd_choice op at mt iot m (unat al) l b (unat x) \<and>
        gcd_mapped (gcd_allocate_cell img dev) (unat x) (unat x + unat l) m m')"

lemma CoreAllocateSpace_valid:
  assumes sp: "gcd_space op s = Some m" and wf: "gcd_wf hi m" and hi: "0 < hi" "hi \<le> 2 ^ 63"
    and l: "unat l \<le> 2 ^ 63" and v: "gcd_request_valid at mt iot al l (Some b) img"
  shows "\<exists>st base' s' m'. CoreAllocateSpace s op at mt iot al l (Some b) img dev = Some (st, base', s') \<and>
    gcd_space op s' = Some m' \<and> gcd_wf hi m' \<and> gcd_other_space_same op s s' \<and>
    (if st = EFI_SUCCESS then gcd_pool_ready s \<and> gcd_allocated op at mt iot al l b img dev m m' base'
     else m' = m \<and> EFI_ERROR st \<and> (gcd_room op at mt iot m (unat al) l b \<longrightarrow> \<not> gcd_pool_ready s))"
proof -
  have t: "gcd_tiles 0 hi m" "gcd_coalesced m" using wf by (auto simp: gcd_wf_def)
  then have m: "m \<noteq> []" using hi(1) by auto
  have al: "unat al < 64" and l0: "l \<noteq> 0"
    using v by (auto simp: gcd_request_valid_def word_less_nat_alt)
  obtain r where search: "gcd_allocate_search op at mt iot (mask (unat al)) l m b = Some r"
    and ok: "gcd_search_ok op at mt iot m (unat al) l b r"
    using gcd_allocate_search_spec [OF t(1) m hi(2) l0 l al] by blast
  obtain st b' i j where r: "r = (st, b', i, j)" by (cases r)
  have unf: "CoreAllocateSpace s op at mt iot al l (Some b) img dev =
    (if EFI_ERROR st then Some (st, Some b', s)
     else (let (Status, s) = CoreAllocateGcdMapEntry s
       in if EFI_ERROR Status then Some (EFI_OUT_OF_RESOURCES, Some b', s)
       else (case gcd_update_range (gcd_allocate_entry img dev) b' l () m i j of
               None \<Rightarrow> None
             | Some (_, Map) \<Rightarrow> Some (EFI_SUCCESS, Some b', gcd_set_space op Map s))))"
    using v sp search r unfolding gcd_request_valid_def not_le [symmetric]
    by (simp add: CoreAllocateSpace_def alignment_mask)
  show ?thesis
  proof (cases "EFI_ERROR st")
    case True
    with ok r sp wf show ?thesis by (auto simp: unf gcd_search_ok_def gcd_simps)
  next
    case False
    with ok r have s: "CoreSearchGcdMapEntry b' l m = Some (i, j)" and len: "unat b' + unat l \<le> 2 ^ 64"
      and ch: "gcd_choice op at mt iot m (unat al) l b (unat b')" by (auto simp: gcd_search_ok_def)
    obtain acc' m' where u: "gcd_update_range (gcd_allocate_entry img dev) b' l () m i j = Some (acc', m')"
      "gcd_tiles 0 hi m'" "gcd_coalesced m'" "gcd_mapped (gcd_allocate_cell img dev) (unat b') (unat b' + unat l) m m'"
      by (rule alloc.update_range [OF t s l0 len, unfolded gcd_related_mapped]) auto
    show ?thesis using False u ch sp wf
      by (cases rule: CoreAllocateGcdMapEntry_cases [of s])
        (simp_all add: unf gcd_simps gcd_allocated_def gcd_wf_def)
  qed
qed

end
