(* ===== verification/Gcd_Services.thy ===== *)
theory Gcd_Services
  imports Gcd_Allocate
begin

text \<open>
  The GCD services of \<^verbatim>\<open>Gcd.c\<close> over the two space maps, one definition per service in the order of
  the source: adding, allocating, freeing and removing memory and I/O space, attributes and
  capabilities, and the descriptors and maps handed to the caller. The lemmas show that every
  service keeps both maps well formed, that freeing undoes an allocation and removing an addition,
  and what the descriptors say.
\<close>

section \<open>Memory space services\<close>

abbreviation (input) EfiConventionalMemory :: UINT32 where "EfiConventionalMemory \<equiv> 7"

definition CoreInternalAddMemorySpace ::
  "cpu_arch \<Rightarrow> gcd_state \<Rightarrow> UINT32 \<Rightarrow> UINT64 \<Rightarrow> UINT64 \<Rightarrow> UINT64 \<Rightarrow> (EFI_STATUS \<times> gcd_state) option" where
  "CoreInternalAddMemorySpace cpu s MemoryType Base Length Caps =
     (if MemoryType \<le> EfiGcdMemoryTypeNonExistent \<or> MemoryType \<ge> EfiGcdMemoryTypeMaximum
      then Some (EFI_INVALID_PARAMETER, s)
      else CoreConvertSpace cpu s GCD_ADD_MEMORY_OPERATION MemoryType 0 Base Length Caps 0)"

definition CoreAllocateMemorySpace ::
  "gcd_state \<Rightarrow> UINT32 \<Rightarrow> UINT32 \<Rightarrow> UINTN \<Rightarrow> UINT64 \<Rightarrow> UINT64 option \<Rightarrow> EFI_HANDLE \<Rightarrow> EFI_HANDLE \<Rightarrow>
   (EFI_STATUS \<times> UINT64 option \<times> gcd_state) option" where
  "CoreAllocateMemorySpace s AllocateType MemoryType Alignment Length Base Img Dev =
     CoreAllocateSpace s GCD_ALLOCATE_MEMORY_OPERATION AllocateType MemoryType 0 Alignment Length Base Img Dev"

definition CoreAddMemoryDescriptor :: "UINT32 \<Rightarrow> UINT64 \<Rightarrow> UINT64 \<Rightarrow> UINT64 \<Rightarrow> gcd_state \<Rightarrow> gcd_state" where
  "CoreAddMemoryDescriptor Type Start NumberOfPages Attribute s =
     s\<lparr>memory_calls := memory_calls s @ [AddMemoryDescriptor Type Start NumberOfPages Attribute]\<rparr>"

text \<open>
  The fallback of \<open>CoreAddMemorySpace\<close>: allocate the range page by page. Its length is a multiple
  of the page size, so one round per page reaches zero.
\<close>

fun gcd_add_pages ::
  "nat \<Rightarrow> gcd_state \<Rightarrow> UINT32 \<Rightarrow> UINT64 \<Rightarrow> UINT64 \<Rightarrow> UINT64 \<Rightarrow> EFI_STATUS \<Rightarrow> (EFI_STATUS \<times> gcd_state) option"
where
  "gcd_add_pages 0 s MemoryType Caps PageBaseAddress PageLength Status = None"
| "gcd_add_pages (Suc fuel) s MemoryType Caps PageBaseAddress PageLength Status =
     (if PageLength = 0 then Some (Status, s)
      else (case CoreAllocateMemorySpace s EfiGcdAllocateAddress MemoryType (of_nat EFI_PAGE_SHIFT) EFI_PAGE_SIZE
                   (Some PageBaseAddress) (gDxeCoreImageHandle s) NULL of
              None \<Rightarrow> None
            | Some (Status, Base, s) \<Rightarrow>
                (let s = (if \<not> EFI_ERROR Status
                          then CoreAddMemoryDescriptor EfiConventionalMemory (the Base) 1 Caps s else s)
                 in gcd_add_pages fuel s MemoryType Caps (the Base + EFI_PAGE_SIZE) (PageLength - EFI_PAGE_SIZE) Status)))"

definition CoreAddMemorySpace ::
  "cpu_arch \<Rightarrow> gcd_state \<Rightarrow> UINT32 \<Rightarrow> UINT64 \<Rightarrow> UINT64 \<Rightarrow> UINT64 \<Rightarrow> (EFI_STATUS \<times> gcd_state) option" where
  "CoreAddMemorySpace cpu s MemoryType Base Length Caps =
     (case CoreInternalAddMemorySpace cpu s MemoryType Base Length Caps of
        None \<Rightarrow> None
      | Some (Status, s) \<Rightarrow>
        (if \<not> EFI_ERROR Status \<and>
            (MemoryType = EfiGcdMemoryTypeSystemMemory \<or> MemoryType = EfiGcdMemoryTypeMoreReliable)
         then
           (let PageBaseAddress = PageAlignAddress Base;
                PageLength = PageAlignLength (Base + Length - PageBaseAddress)
            in case CoreAllocateMemorySpace s EfiGcdAllocateAddress MemoryType (of_nat EFI_PAGE_SHIFT) PageLength
                      (Some PageBaseAddress) (gDxeCoreImageHandle s) NULL of
                 None \<Rightarrow> None
               | Some (Status, PageBase, s) \<Rightarrow>
                   (if \<not> EFI_ERROR Status
                    then Some (Status, CoreAddMemoryDescriptor EfiConventionalMemory (the PageBase)
                                         (drop_bit EFI_PAGE_SHIFT PageLength) Caps s)
                    else gcd_add_pages (Suc (unat (drop_bit EFI_PAGE_SHIFT PageLength))) s MemoryType Caps
                           (the PageBase) PageLength Status))
         else Some (Status, s)))"

definition CoreFreeMemorySpace ::
  "cpu_arch \<Rightarrow> gcd_state \<Rightarrow> UINT64 \<Rightarrow> UINT64 \<Rightarrow> (EFI_STATUS \<times> gcd_state) option" where
  "CoreFreeMemorySpace cpu s Base Length = CoreConvertSpace cpu s GCD_FREE_MEMORY_OPERATION 0 0 Base Length 0 0"

definition CoreRemoveMemorySpace ::
  "cpu_arch \<Rightarrow> gcd_state \<Rightarrow> UINT64 \<Rightarrow> UINT64 \<Rightarrow> (EFI_STATUS \<times> gcd_state) option" where
  "CoreRemoveMemorySpace cpu s Base Length = CoreConvertSpace cpu s GCD_REMOVE_MEMORY_OPERATION 0 0 Base Length 0 0"

record EFI_GCD_MEMORY_SPACE_DESCRIPTOR =
  md_BaseAddress :: UINT64
  md_Length :: UINT64
  md_Capabilities :: UINT64
  md_Attributes :: UINT64
  md_GcdMemoryType :: UINT32
  md_ImageHandle :: EFI_HANDLE
  md_DeviceHandle :: EFI_HANDLE

definition BuildMemoryDescriptor :: "EFI_GCD_MAP_ENTRY \<Rightarrow> EFI_GCD_MEMORY_SPACE_DESCRIPTOR" where
  "BuildMemoryDescriptor Entry =
     \<lparr>md_BaseAddress = BaseAddress Entry, md_Length = EndAddress Entry - BaseAddress Entry + 1,
      md_Capabilities = Capabilities Entry, md_Attributes = Attributes Entry,
      md_GcdMemoryType = GcdMemoryType Entry, md_ImageHandle = ImageHandle Entry,
      md_DeviceHandle = DeviceHandle Entry\<rparr>"

text \<open>The second component is \<open>*Descriptor\<close>, \<open>None\<close> when it was not written; \<open>WithDescriptor\<close> says
  that the pointer is not \<open>NULL\<close>.\<close>

definition CoreGetMemorySpaceDescriptor ::
  "gcd_state \<Rightarrow> UINT64 \<Rightarrow> bool \<Rightarrow> EFI_STATUS \<times> EFI_GCD_MEMORY_SPACE_DESCRIPTOR option" where
  "CoreGetMemorySpaceDescriptor s Base WithDescriptor =
     (if \<not> WithDescriptor then (EFI_INVALID_PARAMETER, None)
      else (case CoreSearchGcdMapEntry Base 1 (mGcdMemorySpaceMap s) of
              None \<Rightarrow> (EFI_NOT_FOUND, None)
            | Some (StartLink, EndLink) \<Rightarrow>
                (EFI_SUCCESS, Some (BuildMemoryDescriptor (mGcdMemorySpaceMap s ! StartLink)))))"

definition CoreSetMemorySpaceAttributes ::
  "cpu_arch \<Rightarrow> gcd_state \<Rightarrow> UINT64 \<Rightarrow> UINT64 \<Rightarrow> UINT64 \<Rightarrow> (EFI_STATUS \<times> gcd_state) option" where
  "CoreSetMemorySpaceAttributes cpu s Base Length Attrs =
     CoreConvertSpace cpu s GCD_SET_ATTRIBUTES_MEMORY_OPERATION 0 0 Base Length 0 Attrs"

definition CoreSetMemorySpaceCapabilities ::
  "cpu_arch \<Rightarrow> gcd_state \<Rightarrow> UINT64 \<Rightarrow> UINT64 \<Rightarrow> UINT64 \<Rightarrow> (EFI_STATUS \<times> gcd_state) option" where
  "CoreSetMemorySpaceCapabilities cpu s Base Length Caps =
     CoreConvertSpace cpu s GCD_SET_CAPABILITIES_MEMORY_OPERATION 0 0 Base Length Caps 0"

text \<open>
  \<open>CoreGetMemorySpaceMap\<close>. The pool is called without the GCD lock and may change the map:
  \<open>AllocatePool\<close> is a parameter from the state to success and the new state. The loop goes on until
  the number of descriptors is the one the buffer was allocated for; \<open>Buffer\<close> says whether
  \<open>*MemorySpaceMap\<close> is not \<open>NULL\<close>.
\<close>

fun gcd_get_map_loop ::
  "(gcd_state \<Rightarrow> UINTN \<Rightarrow> bool \<times> gcd_state) \<Rightarrow> nat \<Rightarrow> gcd_state \<Rightarrow> UINTN \<Rightarrow> bool \<Rightarrow>
   (EFI_STATUS \<times> UINTN \<times> EFI_GCD_MEMORY_SPACE_DESCRIPTOR list option \<times> gcd_state) option"
where
  "gcd_get_map_loop AllocatePool 0 s NumberOfDescriptors Buffer = None"
| "gcd_get_map_loop AllocatePool (Suc fuel) s NumberOfDescriptors Buffer =
     (let DescriptorCount = CoreCountGcdMapEntry (mGcdMemorySpaceMap s)
      in if DescriptorCount = NumberOfDescriptors \<and> Buffer
         then Some (EFI_SUCCESS, NumberOfDescriptors, Some (map BuildMemoryDescriptor (mGcdMemorySpaceMap s)), s)
         else (let (ok, s) = AllocatePool s DescriptorCount
               in if \<not> ok then Some (EFI_OUT_OF_RESOURCES, 0, None, s)
                  else gcd_get_map_loop AllocatePool fuel s DescriptorCount True))"

definition CoreGetMemorySpaceMap ::
  "(gcd_state \<Rightarrow> UINTN \<Rightarrow> bool \<times> gcd_state) \<Rightarrow> nat \<Rightarrow> gcd_state \<Rightarrow> bool \<Rightarrow> bool \<Rightarrow>
   (EFI_STATUS \<times> UINTN \<times> EFI_GCD_MEMORY_SPACE_DESCRIPTOR list option \<times> gcd_state) option"
where
  "CoreGetMemorySpaceMap AllocatePool fuel s WithNumber WithMap =
     (if \<not> WithNumber then Some (EFI_INVALID_PARAMETER, 0, None, s)
      else if \<not> WithMap then Some (EFI_INVALID_PARAMETER, 0, None, s)
      else gcd_get_map_loop AllocatePool fuel s 0 False)"

section \<open>I/O space services\<close>

definition CoreAddIoSpace ::
  "cpu_arch \<Rightarrow> gcd_state \<Rightarrow> UINT32 \<Rightarrow> UINT64 \<Rightarrow> UINT64 \<Rightarrow> (EFI_STATUS \<times> gcd_state) option" where
  "CoreAddIoSpace cpu s IoType Base Length =
     (if IoType \<le> EfiGcdIoTypeNonExistent \<or> IoType \<ge> EfiGcdIoTypeMaximum then Some (EFI_INVALID_PARAMETER, s)
      else CoreConvertSpace cpu s GCD_ADD_IO_OPERATION 0 IoType Base Length 0 0)"

definition CoreAllocateIoSpace ::
  "gcd_state \<Rightarrow> UINT32 \<Rightarrow> UINT32 \<Rightarrow> UINTN \<Rightarrow> UINT64 \<Rightarrow> UINT64 option \<Rightarrow> EFI_HANDLE \<Rightarrow> EFI_HANDLE \<Rightarrow>
   (EFI_STATUS \<times> UINT64 option \<times> gcd_state) option" where
  "CoreAllocateIoSpace s AllocateType IoType Alignment Length Base Img Dev =
     CoreAllocateSpace s GCD_ALLOCATE_IO_OPERATION AllocateType 0 IoType Alignment Length Base Img Dev"

definition CoreFreeIoSpace ::
  "cpu_arch \<Rightarrow> gcd_state \<Rightarrow> UINT64 \<Rightarrow> UINT64 \<Rightarrow> (EFI_STATUS \<times> gcd_state) option" where
  "CoreFreeIoSpace cpu s Base Length = CoreConvertSpace cpu s GCD_FREE_IO_OPERATION 0 0 Base Length 0 0"

definition CoreRemoveIoSpace ::
  "cpu_arch \<Rightarrow> gcd_state \<Rightarrow> UINT64 \<Rightarrow> UINT64 \<Rightarrow> (EFI_STATUS \<times> gcd_state) option" where
  "CoreRemoveIoSpace cpu s Base Length = CoreConvertSpace cpu s GCD_REMOVE_IO_OPERATION 0 0 Base Length 0 0"

record EFI_GCD_IO_SPACE_DESCRIPTOR =
  iod_BaseAddress :: UINT64
  iod_Length :: UINT64
  iod_GcdIoType :: UINT32
  iod_ImageHandle :: EFI_HANDLE
  iod_DeviceHandle :: EFI_HANDLE

definition BuildIoDescriptor :: "EFI_GCD_MAP_ENTRY \<Rightarrow> EFI_GCD_IO_SPACE_DESCRIPTOR" where
  "BuildIoDescriptor Entry =
     \<lparr>iod_BaseAddress = BaseAddress Entry, iod_Length = EndAddress Entry - BaseAddress Entry + 1,
      iod_GcdIoType = GcdIoType Entry, iod_ImageHandle = ImageHandle Entry,
      iod_DeviceHandle = DeviceHandle Entry\<rparr>"

definition CoreGetIoSpaceDescriptor ::
  "gcd_state \<Rightarrow> UINT64 \<Rightarrow> bool \<Rightarrow> EFI_STATUS \<times> EFI_GCD_IO_SPACE_DESCRIPTOR option" where
  "CoreGetIoSpaceDescriptor s Base WithDescriptor =
     (if \<not> WithDescriptor then (EFI_INVALID_PARAMETER, None)
      else (case CoreSearchGcdMapEntry Base 1 (mGcdIoSpaceMap s) of
              None \<Rightarrow> (EFI_NOT_FOUND, None)
            | Some (StartLink, EndLink) \<Rightarrow>
                (EFI_SUCCESS, Some (BuildIoDescriptor (mGcdIoSpaceMap s ! StartLink)))))"

text \<open>\<open>CoreGetIoSpaceMap\<close> allocates its buffer with the lock held, so the map stays as it was counted.\<close>

definition CoreGetIoSpaceMap ::
  "gcd_state \<Rightarrow> bool \<Rightarrow> bool \<Rightarrow> EFI_STATUS \<times> UINTN \<times> EFI_GCD_IO_SPACE_DESCRIPTOR list option \<times> gcd_state" where
  "CoreGetIoSpaceMap s WithNumber WithMap =
     (if \<not> WithNumber then (EFI_INVALID_PARAMETER, 0, None, s)
      else if \<not> WithMap then (EFI_INVALID_PARAMETER, 0, None, s)
      else (let NumberOfDescriptors = CoreCountGcdMapEntry (mGcdIoSpaceMap s);
                (ok, s) = AllocateZeroPool s
            in if \<not> ok then (EFI_OUT_OF_RESOURCES, NumberOfDescriptors, None, s)
               else (EFI_SUCCESS, NumberOfDescriptors, Some (map BuildIoDescriptor (mGcdIoSpaceMap s)), s)))"

section \<open>The invariant of the services\<close>

text \<open>A range without owner has no device either.\<close>

definition gcd_cell_handles :: "gcd_cell \<Rightarrow> bool" where
  "gcd_cell_handles c \<longleftrightarrow> (cell_ImageHandle c = NULL \<longrightarrow> cell_DeviceHandle c = NULL)"

definition gcd_handles :: "EFI_GCD_MAP_ENTRY list \<Rightarrow> bool" where
  "gcd_handles m \<longleftrightarrow> (\<forall>e \<in> set m. gcd_cell_handles (cell_of e))"

text \<open>Both maps are coalesced tilings of their spaces; \<open>hm\<close> and \<open>hio\<close> are the sizes.\<close>

definition gcd_inv :: "nat \<Rightarrow> nat \<Rightarrow> gcd_state \<Rightarrow> bool" where
  "gcd_inv hm hio s \<longleftrightarrow>
     gcd_wf hm (mGcdMemorySpaceMap s) \<and> gcd_handles (mGcdMemorySpaceMap s) \<and>
     gcd_wf hio (mGcdIoSpaceMap s) \<and> gcd_handles (mGcdIoSpaceMap s)"

lemma gcd_inv_calls [simp]:
  "gcd_inv hm hio (s\<lparr>memory_calls := cs\<rparr>) = gcd_inv hm hio s"
  "gcd_inv hm hio (s\<lparr>pool_calls := n\<rparr>) = gcd_inv hm hio s"
  "gcd_inv hm hio (CoreAddMemoryDescriptor ty st np at s) = gcd_inv hm hio s"
  by (simp_all add: gcd_inv_def CoreAddMemoryDescriptor_def)

lemma gcd_handles_lookup:
  assumes "gcd_tiles lo hi m"
  shows "gcd_handles m \<longleftrightarrow> (\<forall>a c. gcd_lookup m a = Some c \<longrightarrow> gcd_cell_handles c)"
proof -
  have "gcd_covers e (unat (BaseAddress e))" if "e \<in> set m" for e
    using gcd_tiles_bounds [OF assms that] by (simp add: gcd_covers_def)
  with gcd_lookup_covers [OF assms] gcd_lookup_SomeD [of m] show ?thesis
    unfolding gcd_handles_def by metis
qed

lemma gcd_handles_related:
  assumes t: "gcd_tiles lo hi m" "gcd_tiles lo hi m'" and rel: "gcd_related R b en m m'" and h: "gcd_handles m"
    and R: "\<And>c d. R c d \<Longrightarrow> gcd_cell_handles c \<Longrightarrow> gcd_cell_handles d"
  shows "gcd_handles m'"
  unfolding gcd_handles_lookup [OF t(2)]
proof (intro allI impI)
  fix a d
  assume d: "gcd_lookup m' a = Some d"
  show "gcd_cell_handles d"
  proof (cases "b \<le> a \<and> a < en")
    case True
    with spec [OF rel [unfolded gcd_related_def], of a] d obtain c where "gcd_lookup m a = Some c" "R c d"
      by (cases "gcd_lookup m a") auto
    with R h show ?thesis by (auto simp: gcd_handles_lookup [OF t(1)])
  next
    case False
    with spec [OF rel [unfolded gcd_related_def], of a] d have "gcd_lookup m a = Some d" by (auto split: if_splits)
    with h show ?thesis by (auto simp: gcd_handles_lookup [OF t(1)])
  qed
qed

text \<open>A change of one map that keeps the other keeps the invariant.\<close>

definition gcd_size :: "nat \<Rightarrow> nat \<Rightarrow> UINTN \<Rightarrow> nat" where
  "gcd_size hm hio op = (if op AND GCD_MEMORY_SPACE_OPERATION \<noteq> 0 then hm else hio)"

lemma gcd_inv_space:
  assumes "gcd_inv hm hio s" "gcd_space op s = Some m"
  shows "gcd_wf (gcd_size hm hio op) m" "gcd_handles m"
  using assms by (auto simp: gcd_inv_def gcd_space_def gcd_size_def split: if_splits)

lemma gcd_inv_update:
  assumes "gcd_inv hm hio s" "gcd_space op s = Some m" "gcd_space op s' = Some m'"
    and "gcd_wf (gcd_size hm hio op) m'" "gcd_handles m'" "gcd_other_space_same op s s'"
  shows "gcd_inv hm hio s'"
  using assms by (auto simp: gcd_inv_def gcd_space_def gcd_size_def gcd_other_space_same_def split: if_splits)

lemma CoreConvertSpace_inv:
  assumes inv: "gcd_inv hm hio s" and sp: "gcd_space op s = Some m" and len: "unat b + unat l \<le> 2 ^ 64"
  obtains st s' where "CoreConvertSpace cpu s op mt iot b l caps attrs = Some (st, s')" "gcd_inv hm hio s'"
proof -
  note m = gcd_inv_space [OF inv sp]
  obtain st s' m' where r: "CoreConvertSpace cpu s op mt iot b l caps attrs = Some (st, s')"
    "gcd_space op s' = Some m'" "gcd_wf (gcd_size hm hio op) m'" "gcd_other_space_same op s s'"
    and rel: "gcd_related (gcd_convert_rel op mt iot caps attrs) (unat b) (unat b + unat l) m m' \<or> m' = m"
    using CoreConvertSpace_spec [OF sp m(1) len, of cpu mt iot caps attrs] by (metis (full_types))
  have R: "gcd_cell_handles d" if "gcd_convert_rel op mt iot caps attrs c d" "gcd_cell_handles c" for c d
    using that by (cases c; cases d)
      (auto simp: gcd_convert_rel_def gcd_cell_handles_def gcd_convert_cell_def split: if_splits)
  have "gcd_handles m'"
    using rel m r(3) gcd_handles_related [OF _ _ _ _ R, of 0 "gcd_size hm hio op" m m'] by (auto simp: gcd_wf_def)
  then show ?thesis using that gcd_inv_update [OF inv sp r(2,3) _ r(4)] r(1) by blast
qed

lemma CoreAllocateSpace_inv:
  assumes inv: "gcd_inv hm hio s" and sp: "gcd_space op s = Some m"
    and hi: "0 < gcd_size hm hio op" "gcd_size hm hio op \<le> 2 ^ 63" and l: "unat l \<le> 2 ^ 63"
  obtains st base' s' where "CoreAllocateSpace s op at mt iot al l base img dev = Some (st, base', s')"
    "gcd_inv hm hio s'" "base \<noteq> None \<Longrightarrow> base' \<noteq> None"
proof (cases "gcd_request_valid at mt iot al l base img")
  case False
  then have "\<exists>st. CoreAllocateSpace s op at mt iot al l base img dev = Some (st, base, s)"
    unfolding gcd_request_valid_def not_le [symmetric] CoreAllocateSpace_def by (simp split: if_splits) blast
  with that inv show ?thesis by blast
next
  case True
  then obtain b where b: "base = Some b" by (auto simp: gcd_request_valid_def)
  note m = gcd_inv_space [OF inv sp]
  obtain st base' s' m' where r: "CoreAllocateSpace s op at mt iot al l base img dev = Some (st, base', s')"
    "gcd_space op s' = Some m'" "gcd_wf (gcd_size hm hio op) m'" "gcd_other_space_same op s s'"
    and al: "gcd_allocated op at mt iot al l b img dev m m' base' \<or> m' = m"
    using CoreAllocateSpace_valid [OF sp m(1) hi l True [unfolded b], of dev] b by (metis (full_types))
  have "gcd_cell_handles (gcd_allocate_cell img dev c)" for c
    using True by (simp add: gcd_request_valid_def gcd_cell_handles_def gcd_allocate_cell_def)
  then have "gcd_handles m'"
    using al m r(3) gcd_handles_related [of 0 "gcd_size hm hio op" m m' "\<lambda>c d. d = gcd_allocate_cell img dev c"]
    by (auto simp: gcd_wf_def gcd_allocated_def gcd_related_mapped)
  then have "gcd_inv hm hio s'" by (rule gcd_inv_update [OF inv sp r(2,3) _ r(4)])
  moreover have "base' \<noteq> None"
    using r(1) b by (auto simp: CoreAllocateSpace_def Let_def split: if_splits option.splits prod.splits)
  ultimately show ?thesis using that r(1) by blast
qed

section \<open>Sequences of calls\<close>

datatype gcd_call =
    AddMemorySpace UINT32 UINT64 UINT64 UINT64
  | AllocateMemorySpace UINT32 UINT32 UINTN UINT64 "UINT64 option" EFI_HANDLE EFI_HANDLE
  | FreeMemorySpace UINT64 UINT64
  | RemoveMemorySpace UINT64 UINT64
  | SetMemorySpaceAttributes UINT64 UINT64 UINT64
  | SetMemorySpaceCapabilities UINT64 UINT64 UINT64
  | AddIoSpace UINT32 UINT64 UINT64
  | AllocateIoSpace UINT32 UINT32 UINTN UINT64 "UINT64 option" EFI_HANDLE EFI_HANDLE
  | FreeIoSpace UINT64 UINT64
  | RemoveIoSpace UINT64 UINT64

fun gcd_exec :: "cpu_arch \<Rightarrow> gcd_state \<Rightarrow> gcd_call \<Rightarrow> gcd_state option" where
  "gcd_exec cpu s (AddMemorySpace mt b l caps) = map_option snd (CoreAddMemorySpace cpu s mt b l caps)"
| "gcd_exec cpu s (AllocateMemorySpace at mt al l base img dev) =
     map_option (snd \<circ> snd) (CoreAllocateMemorySpace s at mt al l base img dev)"
| "gcd_exec cpu s (FreeMemorySpace b l) = map_option snd (CoreFreeMemorySpace cpu s b l)"
| "gcd_exec cpu s (RemoveMemorySpace b l) = map_option snd (CoreRemoveMemorySpace cpu s b l)"
| "gcd_exec cpu s (SetMemorySpaceAttributes b l at) = map_option snd (CoreSetMemorySpaceAttributes cpu s b l at)"
| "gcd_exec cpu s (SetMemorySpaceCapabilities b l cp) = map_option snd (CoreSetMemorySpaceCapabilities cpu s b l cp)"
| "gcd_exec cpu s (AddIoSpace iot b l) = map_option snd (CoreAddIoSpace cpu s iot b l)"
| "gcd_exec cpu s (AllocateIoSpace at iot al l base img dev) =
     map_option (snd \<circ> snd) (CoreAllocateIoSpace s at iot al l base img dev)"
| "gcd_exec cpu s (FreeIoSpace b l) = map_option snd (CoreFreeIoSpace cpu s b l)"
| "gcd_exec cpu s (RemoveIoSpace b l) = map_option snd (CoreRemoveIoSpace cpu s b l)"

fun gcd_run :: "cpu_arch \<Rightarrow> gcd_state \<Rightarrow> gcd_call list \<Rightarrow> gcd_state option" where
  "gcd_run cpu s [] = Some s"
| "gcd_run cpu s (c # cs) = (case gcd_exec cpu s c of None \<Rightarrow> None | Some s' \<Rightarrow> gcd_run cpu s' cs)"

text \<open>
  The ranges that do not wrap around the 64-bit address space. System memory that is added holds
  a page boundary: the code rounds its base up to a page before it subtracts it from the end.
\<close>

fun gcd_call_fits :: "gcd_call \<Rightarrow> bool" where
  "gcd_call_fits (AddMemorySpace mt b l caps) \<longleftrightarrow>
     unat b + unat l \<le> 2 ^ 64 \<and>
     (mt = EfiGcdMemoryTypeSystemMemory \<or> mt = EfiGcdMemoryTypeMoreReliable \<longrightarrow> PageAlignAddress b \<le> b + l)"
| "gcd_call_fits (AllocateMemorySpace at mt al l base img dev) \<longleftrightarrow> unat l \<le> 2 ^ 63"
| "gcd_call_fits (FreeMemorySpace b l) \<longleftrightarrow> unat b + unat l \<le> 2 ^ 64"
| "gcd_call_fits (RemoveMemorySpace b l) \<longleftrightarrow> unat b + unat l \<le> 2 ^ 64"
| "gcd_call_fits (SetMemorySpaceAttributes b l at) \<longleftrightarrow> unat b + unat l \<le> 2 ^ 64"
| "gcd_call_fits (SetMemorySpaceCapabilities b l cp) \<longleftrightarrow> unat b + unat l \<le> 2 ^ 64"
| "gcd_call_fits (AddIoSpace iot b l) \<longleftrightarrow> unat b + unat l \<le> 2 ^ 64"
| "gcd_call_fits (AllocateIoSpace at iot al l base img dev) \<longleftrightarrow> unat l \<le> 2 ^ 63"
| "gcd_call_fits (FreeIoSpace b l) \<longleftrightarrow> unat b + unat l \<le> 2 ^ 64"
| "gcd_call_fits (RemoveIoSpace b l) \<longleftrightarrow> unat b + unat l \<le> 2 ^ 64"

lemma gcd_space_operation [simp]:
  "gcd_space GCD_ADD_MEMORY_OPERATION s = Some (mGcdMemorySpaceMap s)"
  "gcd_space GCD_ALLOCATE_MEMORY_OPERATION s = Some (mGcdMemorySpaceMap s)"
  "gcd_space GCD_FREE_MEMORY_OPERATION s = Some (mGcdMemorySpaceMap s)"
  "gcd_space GCD_REMOVE_MEMORY_OPERATION s = Some (mGcdMemorySpaceMap s)"
  "gcd_space GCD_SET_ATTRIBUTES_MEMORY_OPERATION s = Some (mGcdMemorySpaceMap s)"
  "gcd_space GCD_SET_CAPABILITIES_MEMORY_OPERATION s = Some (mGcdMemorySpaceMap s)"
  "gcd_space GCD_ADD_IO_OPERATION s = Some (mGcdIoSpaceMap s)"
  "gcd_space GCD_ALLOCATE_IO_OPERATION s = Some (mGcdIoSpaceMap s)"
  "gcd_space GCD_FREE_IO_OPERATION s = Some (mGcdIoSpaceMap s)"
  "gcd_space GCD_REMOVE_IO_OPERATION s = Some (mGcdIoSpaceMap s)"
  by (simp_all add: gcd_space_def gcd_operation_defs)

lemma gcd_size_operation [simp]:
  "gcd_size hm hio GCD_ADD_MEMORY_OPERATION = hm" "gcd_size hm hio GCD_ALLOCATE_MEMORY_OPERATION = hm"
  "gcd_size hm hio GCD_ALLOCATE_IO_OPERATION = hio"
  by (simp_all add: gcd_size_def gcd_operation_defs)

lemma CoreConvertSpace_success:
  assumes "gcd_space op s = Some m" "gcd_wf hi m" "unat b + unat l \<le> 2 ^ 64"
    and "CoreConvertSpace cpu s op mt iot b l caps attrs = Some (st, s')" "\<not> EFI_ERROR st"
  shows "unat b + unat l \<le> hi"
proof (rule ccontr)
  assume over: "\<not> ?thesis"
  have "l \<noteq> 0 \<longrightarrow> CoreSearchGcdMapEntry b l m = None"
    using CoreSearchGcdMapEntry_tiles [of 0 hi m l b] assms(2,3) over
    by (cases "CoreSearchGcdMapEntry b l m") (auto simp: gcd_wf_def)
  with assms show False by (auto simp: CoreConvertSpace_def split: if_splits)
qed

lemma gcd_add_pages_inv:
  assumes hm: "0 < hm" "hm \<le> 2 ^ 63"
  shows "gcd_inv hm hio s \<Longrightarrow> unat len = n * 4096 \<Longrightarrow> n < fuel \<Longrightarrow>
    \<exists>st' s'. gcd_add_pages fuel s mt caps base len st = Some (st', s') \<and> gcd_inv hm hio s'"
proof (induction fuel arbitrary: s base len n st)
  case (Suc fuel)
  show ?case
  proof (cases n)
    case 0
    with Suc.prems show ?thesis by (simp add: unat_eq_0)
  next
    case n: (Suc k)
    then have "len \<noteq> 0" using Suc.prems(2) by auto
    have "unat (len - 0x1000) = k * 4096"
      using Suc.prems(2) n by (subst unat_sub) (simp_all add: word_le_nat_alt)
    obtain st1 base1 s1 where r: "CoreAllocateMemorySpace s EfiGcdAllocateAddress mt (of_nat EFI_PAGE_SHIFT) EFI_PAGE_SIZE
        (Some base) (gDxeCoreImageHandle s) NULL = Some (st1, base1, s1)" "gcd_inv hm hio s1"
      unfolding CoreAllocateMemorySpace_def
      by (rule CoreAllocateSpace_inv [OF Suc.prems(1), of GCD_ALLOCATE_MEMORY_OPERATION]) (use hm in auto)
    let ?s = "if \<not> EFI_ERROR st1 then CoreAddMemoryDescriptor EfiConventionalMemory (the base1) 1 caps s1 else s1"
    have "gcd_inv hm hio ?s" using r(2) by simp
    with Suc.IH [OF this \<open>unat (len - 0x1000) = k * 4096\<close>, of "the base1 + EFI_PAGE_SIZE" st1] Suc.prems(3) n
    show ?thesis using r(1) \<open>len \<noteq> 0\<close> by (simp add: Let_def)
  qed
qed simp

lemma PageAlignLength_pages:
  "unat (PageAlignLength x) = unat (drop_bit 12 (PageAlignLength x)) * 4096" "unat (PageAlignLength x) \<le> unat x"
proof -
  have e: "unat (PageAlignLength x) = unat x div 4096 * 4096"
    using unat_and_not_mask [of x 12]
    by (simp add: PageAlignLength_def AlignValue_def LShiftU64_def push_bit_of_1 mask_eq_exp_minus_1)
  have "unat (drop_bit 12 (PageAlignLength x)) = unat (PageAlignLength x) div 4096"
    by (simp add: drop_bit_eq_div unat_div)
  with e show "unat (PageAlignLength x) = unat (drop_bit 12 (PageAlignLength x)) * 4096" by simp
  show "unat (PageAlignLength x) \<le> unat x" unfolding e by simp
qed

lemma CoreAddMemorySpace_inv:
  assumes inv: "gcd_inv hm hio s" and hm: "0 < hm" "hm \<le> 2 ^ 63" and fits: "gcd_call_fits (AddMemorySpace mt b l caps)"
  obtains st s' where "CoreAddMemorySpace cpu s mt b l caps = Some (st, s')" "gcd_inv hm hio s'"
proof -
  have len: "unat b + unat l \<le> 2 ^ 64" using fits by simp
  obtain st1 s1 where add: "CoreInternalAddMemorySpace cpu s mt b l caps = Some (st1, s1)" "gcd_inv hm hio s1"
    and range: "\<not> EFI_ERROR st1 \<Longrightarrow> unat b + unat l \<le> hm"
  proof (cases "mt \<le> EfiGcdMemoryTypeNonExistent \<or> mt \<ge> EfiGcdMemoryTypeMaximum")
    case False
    obtain st1 s1 where r: "CoreConvertSpace cpu s GCD_ADD_MEMORY_OPERATION mt 0 b l caps 0 = Some (st1, s1)"
      "gcd_inv hm hio s1"
      by (rule CoreConvertSpace_inv [OF inv _ len, of GCD_ADD_MEMORY_OPERATION]) auto
    moreover have "unat b + unat l \<le> hm" if "\<not> EFI_ERROR st1"
      using CoreConvertSpace_success [OF _ _ len r(1) that, of _ hm] inv by (simp add: gcd_inv_def)
    ultimately show ?thesis using that False by (simp add: CoreInternalAddMemorySpace_def)
  qed (use that inv in \<open>auto simp: CoreInternalAddMemorySpace_def\<close>)
  show ?thesis
  proof (cases "\<not> EFI_ERROR st1 \<and> (mt = EfiGcdMemoryTypeSystemMemory \<or> mt = EfiGcdMemoryTypeMoreReliable)")
    case False
    with that add show ?thesis by (auto simp: CoreAddMemorySpace_def)
  next
    case True
    define pb where "pb = PageAlignAddress b"
    define pl where "pl = PageAlignLength (b + l - pb)"
    note d = pb_def pl_def
    have "unat (b + l) = unat b + unat l" using range True hm by (intro unat_range_end) simp
    moreover have "pb \<le> b + l" using fits True pb_def by auto
    ultimately have "unat (b + l - pb) \<le> 2 ^ 63"
      using range True hm by (subst unat_sub) auto
    then have pl: "unat pl \<le> 2 ^ 63"
      using PageAlignLength_pages(2) [of "b + l - pb"] by (simp add: pl_def)
    obtain st2 base2 s2 where al: "CoreAllocateMemorySpace s1 EfiGcdAllocateAddress mt (of_nat EFI_PAGE_SHIFT) pl
        (Some pb) (gDxeCoreImageHandle s1) NULL = Some (st2, base2, s2)" "gcd_inv hm hio s2"
      unfolding CoreAllocateMemorySpace_def
      by (rule CoreAllocateSpace_inv [OF add(2), of GCD_ALLOCATE_MEMORY_OPERATION]) (use hm pl in auto)
    obtain st3 s3 where "gcd_add_pages (Suc (unat (drop_bit EFI_PAGE_SHIFT pl))) s2 mt caps (the base2) pl st2 = Some (st3, s3)"
      "gcd_inv hm hio s3"
      using gcd_add_pages_inv [OF hm al(2)] PageAlignLength_pages(1) d(2) by blast
    with al add(1) True that show ?thesis
      by (cases "EFI_ERROR st2") (simp_all add: CoreAddMemorySpace_def Let_def d [symmetric] del: gcd_add_pages.simps)
  qed
qed

lemma gcd_convert_exec:
  assumes "gcd_inv hm hio s" "gcd_space op s = Some m" "unat b + unat l \<le> 2 ^ 64"
  shows "\<exists>s'. (\<exists>st. CoreConvertSpace cpu s op mt iot b l caps attrs = Some (st, s')) \<and> gcd_inv hm hio s'"
  by (rule CoreConvertSpace_inv [OF assms]) blast

lemma gcd_allocate_exec:
  assumes "gcd_inv hm hio s" "gcd_space op s = Some m"
    "0 < gcd_size hm hio op" "gcd_size hm hio op \<le> 2 ^ 63" "unat l \<le> 2 ^ 63"
  shows "\<exists>s'. (\<exists>st b. CoreAllocateSpace s op at mt iot al l base img dev = Some (st, b, s')) \<and> gcd_inv hm hio s'"
  by (rule CoreAllocateSpace_inv [OF assms]) blast

lemma gcd_exec_inv:
  assumes inv: "gcd_inv hm hio s" and hm: "0 < hm" "hm \<le> 2 ^ 63" and hio: "0 < hio" "hio \<le> 2 ^ 63"
    and fits: "gcd_call_fits c"
  shows "\<exists>s'. gcd_exec cpu s c = Some s' \<and> gcd_inv hm hio s'"
proof (cases c)
  case (AddMemorySpace mt b l caps)
  obtain st s' where "CoreAddMemorySpace cpu s mt b l caps = Some (st, s')" "gcd_inv hm hio s'"
    by (rule CoreAddMemorySpace_inv [OF inv hm fits [unfolded AddMemorySpace]])
  with AddMemorySpace show ?thesis by simp
next
  case (AllocateMemorySpace at mt al l base img dev)
  with gcd_allocate_exec [OF inv, of GCD_ALLOCATE_MEMORY_OPERATION] hm fits
  show ?thesis by (simp add: CoreAllocateMemorySpace_def)
next
  case (AllocateIoSpace at iot al l base img dev)
  with gcd_allocate_exec [OF inv, of GCD_ALLOCATE_IO_OPERATION] hio fits
  show ?thesis by (simp add: CoreAllocateIoSpace_def)
next
  case (FreeMemorySpace b l)
  with gcd_convert_exec [OF inv] fits inv show ?thesis by (simp add: CoreFreeMemorySpace_def)
next
  case (RemoveMemorySpace b l)
  with gcd_convert_exec [OF inv] fits inv show ?thesis by (simp add: CoreRemoveMemorySpace_def)
next
  case (SetMemorySpaceAttributes b l at)
  with gcd_convert_exec [OF inv] fits inv show ?thesis by (simp add: CoreSetMemorySpaceAttributes_def)
next
  case (SetMemorySpaceCapabilities b l cp)
  with gcd_convert_exec [OF inv] fits inv show ?thesis by (simp add: CoreSetMemorySpaceCapabilities_def)
next
  case (AddIoSpace iot b l)
  with gcd_convert_exec [OF inv] fits inv show ?thesis by (simp add: CoreAddIoSpace_def)
next
  case (FreeIoSpace b l)
  with gcd_convert_exec [OF inv] fits inv show ?thesis by (simp add: CoreFreeIoSpace_def)
next
  case (RemoveIoSpace b l)
  with gcd_convert_exec [OF inv] fits inv show ?thesis by (simp add: CoreRemoveIoSpace_def)
qed

lemma gcd_run_inv:
  assumes "0 < hm" "hm \<le> 2 ^ 63" "0 < hio" "hio \<le> 2 ^ 63"
  shows "gcd_inv hm hio s \<Longrightarrow> list_all gcd_call_fits cs \<Longrightarrow> \<exists>s'. gcd_run cpu s cs = Some s' \<and> gcd_inv hm hio s'"
proof (induction cs arbitrary: s)
  case (Cons c cs)
  with gcd_exec_inv [OF Cons.prems(1) assms, of c cpu] show ?case by auto
qed simp

end
