(* ===== verification/Gcd_Properties.thy ===== *)
theory Gcd_Properties
  imports Gcd_Services
begin

text \<open>
  What the GCD services guarantee their callers, over any well-formed pair of space maps: every
  sequence of calls keeps the maps well formed, conversion and allocation meet their contracts,
  freeing undoes allocation, and the descriptors say what the map says. The last section shows on
  concrete maps where the code departs from these contracts.
\<close>

section \<open>Undoing a change\<close>

lemma gcd_undo:
  assumes "gcd_wf hi m" "gcd_wf hi m2" "gcd_mapped f b en m m1" "gcd_mapped g b en m1 m2"
    and "\<And>a c. b \<le> a \<Longrightarrow> a < en \<Longrightarrow> gcd_lookup m a = Some c \<Longrightarrow> g (f c) = c"
  shows "m2 = m"
proof -
  have "gcd_lookup m2 a = gcd_lookup m a" for a
    using assms(3-5) by (cases "gcd_lookup m a") (auto simp: gcd_mapped_def)
  then show ?thesis
    using assms(1,2) gcd_normal_form [of 0 hi m2 m] by (auto simp: gcd_wf_def)
qed

lemma gcd_free_inside:
  assumes "gcd_tiles 0 hi m" "gcd_free op mt iot m x (x + unat l)" "l \<noteq> 0"
  shows "x + unat l \<le> hi"
proof (rule ccontr)
  assume "\<not> ?thesis"
  then have "gcd_lookup m (x + unat l - 1) = None"
    by (intro gcd_lookup_outside [OF assms(1)]) auto
  moreover have "0 < unat l" using assms(3) by (simp add: unat_gt_0)
  then have "x + unat l - 1 \<in> {x..<x + unat l}" by auto
  ultimately show False using assms(2) unfolding gcd_free_def by fastforce
qed

lemma gcd_choice_free: "gcd_choice op at mt iot m n l b x \<Longrightarrow> gcd_free op mt iot m x (x + unat l)"
  by (auto simp: gcd_choice_def gcd_fits_def split: if_splits)

text \<open>A change that always gives a function of the old cell.\<close>

lemma gcd_convert_mapped:
  "\<not> gcd_carries op attrs \<Longrightarrow> gcd_related (gcd_convert_rel op mt iot caps attrs) b en m m' \<longleftrightarrow>
   gcd_mapped (gcd_convert_cell op mt iot caps attrs) b en m m'"
proof -
  assume "\<not> gcd_carries op attrs"
  then have "gcd_convert_rel op mt iot caps attrs = (\<lambda>c d. d = gcd_convert_cell op mt iot caps attrs c)"
    by (intro ext) (simp add: gcd_convert_rel_def)
  then show ?thesis by (simp add: gcd_related_mapped)
qed

lemma gcd_check_cell_cases:
  "gcd_check_cell GCD_FREE_MEMORY_OPERATION b l caps attrs c \<longleftrightarrow> cell_ImageHandle c \<noteq> NULL"
  "gcd_check_cell GCD_ADD_MEMORY_OPERATION b l caps attrs c \<longleftrightarrow>
     cell_MemoryType c = EfiGcdMemoryTypeNonExistent \<and> cell_ImageHandle c = NULL"
  "gcd_check_cell GCD_REMOVE_MEMORY_OPERATION b l caps attrs c \<longleftrightarrow>
     cell_MemoryType c \<noteq> EfiGcdMemoryTypeNonExistent \<and> cell_ImageHandle c = NULL"
  by (auto simp: gcd_check_cell_def gcd_operation_defs)

lemma gcd_operation_not_attributes:
  "GCD_FREE_MEMORY_OPERATION \<noteq> GCD_SET_ATTRIBUTES_MEMORY_OPERATION"
  "GCD_ADD_MEMORY_OPERATION \<noteq> GCD_SET_ATTRIBUTES_MEMORY_OPERATION"
  "GCD_REMOVE_MEMORY_OPERATION \<noteq> GCD_SET_ATTRIBUTES_MEMORY_OPERATION"
  by (simp_all add: gcd_operation_defs)

lemma CoreConvertSpace_ok:
  assumes sp: "gcd_space op s = Some m" and wf: "gcd_wf hi m" and len: "l \<noteq> 0" "unat b + unat l \<le> hi" "hi \<le> 2 ^ 63"
    and chk: "\<And>a c. unat b \<le> a \<Longrightarrow> a < unat b + unat l \<Longrightarrow> gcd_lookup m a = Some c \<Longrightarrow> gcd_check_cell op b l caps attrs c"
    and op: "op \<noteq> GCD_SET_ATTRIBUTES_MEMORY_OPERATION" and pool: "gcd_pool_ready s"
  obtains s' m' where "CoreConvertSpace cpu s op mt iot b l caps attrs = Some (EFI_SUCCESS, s')"
    "gcd_space op s' = Some m'" "gcd_wf hi m'"
    "gcd_mapped (gcd_convert_cell op mt iot caps attrs) (unat b) (unat b + unat l) m m'"
proof -
  have "gcd_check_cell op b l caps attrs (the (gcd_lookup m a))" if "a \<in> {unat b..<unat b + unat l}" for a
    using chk [of a] gcd_lookup_inside [of 0 hi m a] that wf len by (auto simp: gcd_wf_def)
  moreover have "gcd_cpu_accepts cpu op b l attrs" "\<not> gcd_carries op attrs"
    using op by (auto simp: gcd_cpu_accepts_def gcd_carries_def)
  ultimately show ?thesis
    using CoreConvertSpace_spec [OF sp wf, of b l cpu mt iot caps attrs] len pool that
    by (auto simp: gcd_convert_mapped)
qed

lemma CoreAllocateSpace_ok:
  assumes inv: "gcd_inv hm hio s" and hm: "0 < hm" "hm \<le> 2 ^ 63" and l: "unat l \<le> 2 ^ 63"
    and r: "CoreAllocateMemorySpace s at mt al l base img dev = Some (EFI_SUCCESS, base', s')"
  obtains b x where "base = Some b" "base' = Some x" "l \<noteq> 0" "img \<noteq> NULL"
    "gcd_wf hm (mGcdMemorySpaceMap s')"
    "gcd_choice GCD_ALLOCATE_MEMORY_OPERATION at mt 0 (mGcdMemorySpaceMap s) (unat al) l b (unat x)"
    "gcd_mapped (gcd_allocate_cell img dev) (unat x) (unat x + unat l) (mGcdMemorySpaceMap s) (mGcdMemorySpaceMap s')"
proof -
  have v: "gcd_request_valid at mt 0 al l base img"
    using r unfolding CoreAllocateMemorySpace_def CoreAllocateSpace_def gcd_request_valid_def
    by (auto simp: not_le split: if_splits)
  then obtain b where b: "base = Some b" and lx: "l \<noteq> 0" "img \<noteq> NULL" by (auto simp: gcd_request_valid_def)
  have wf: "gcd_wf hm (mGcdMemorySpaceMap s)" using inv by (simp add: gcd_inv_def)
  show ?thesis
    using CoreAllocateSpace_valid [OF _ wf hm l v [unfolded b], of GCD_ALLOCATE_MEMORY_OPERATION s dev] r b lx that
    by (auto simp: CoreAllocateMemorySpace_def gcd_allocated_def)
qed

section \<open>A state to look at\<close>

text \<open>
  One megabyte of address space: tested memory below 640 KB, of which the first page is taken, and
  a hole above; 64 KB of I/O space.
\<close>

definition gcd_sample_entry :: "UINT64 \<Rightarrow> UINT64 \<Rightarrow> UINT64 \<Rightarrow> UINT64 \<Rightarrow> UINT32 \<Rightarrow> EFI_HANDLE \<Rightarrow> EFI_GCD_MAP_ENTRY" where
  "gcd_sample_entry b e caps attrs mt img =
     \<lparr>BaseAddress = b, EndAddress = e, Capabilities = caps, Attributes = attrs, GcdMemoryType = mt,
      GcdIoType = 0, ImageHandle = img, DeviceHandle = 0\<rparr>"

definition gcd_sample_map :: "EFI_GCD_MAP_ENTRY list" where
  "gcd_sample_map =
     [gcd_sample_entry 0 0xFFF 0xF 0 EfiGcdMemoryTypeSystemMemory 1,
      gcd_sample_entry 0x1000 0x9FFFF 0xF 0 EfiGcdMemoryTypeSystemMemory 0,
      gcd_sample_entry 0xA0000 0xFFFFF 0 0 EfiGcdMemoryTypeNonExistent 0]"

definition gcd_sample :: gcd_state where
  "gcd_sample = \<lparr>mGcdMemorySpaceMap = gcd_sample_map, mGcdIoSpaceMap = [gcd_sample_entry 0 0xFFFF 0 0 0 0],
     pool = (\<lambda>_. True), pool_calls = 0, memory_calls = [], gDxeCoreImageHandle = 1\<rparr>"

lemma gcd_sample_inv: "gcd_inv 0x100000 0x10000 gcd_sample"
  by (simp add: gcd_inv_def gcd_wf_def gcd_handles_def gcd_cell_handles_def gcd_sample_def gcd_sample_map_def
    gcd_sample_entry_def gcd_coalesced_def cell_of_def)


section \<open>The contracts\<close>

text \<open>
  (C1) Any sequence of GCD service calls on ranges that do not wrap around returns (no \<open>ASSERT\<close>
  fails and every loop ends), and leaves the memory map and the I/O map complete, ordered, free of
  overlaps and with no two neighbours that could be merged.
\<close>

theorem gcd_services_keep_maps:
  assumes "gcd_inv hm hio s" "0 < hm" "hm \<le> 2 ^ 63" "0 < hio" "hio \<le> 2 ^ 63" "list_all gcd_call_fits cs"
  shows "\<exists>s'. gcd_run cpu s cs = Some s' \<and> gcd_inv hm hio s'"
  using gcd_run_inv assms by blast

theorem gcd_services_keep_maps_witness:
  "\<exists>s'. gcd_run None gcd_sample
      [AddMemorySpace EfiGcdMemoryTypeMemoryMappedIo 0xA0000 0x10000 1,
       AllocateMemorySpace EfiGcdAllocateAnySearchBottomUp EfiGcdMemoryTypeSystemMemory 12 0x2000 (Some 0) 5 6,
       FreeMemorySpace 0 0x1000, RemoveMemorySpace 0xA0000 0x8000] = Some s' \<and>
    gcd_inv 0x100000 0x10000 s'"
  by (rule gcd_services_keep_maps [OF gcd_sample_inv]) simp_all

text \<open>
  (C2) \<open>CoreConvertSpace\<close> is all or nothing: it succeeds exactly when the range is not empty, lies in
  the space, every address of it passes the check of the operation, the pool has two entries to
  spare and the CPU takes the attributes; then it changes every address of the range as the
  operation says and no other. In every other case it returns an error and the map is as it was.
\<close>

theorem CoreConvertSpace_contract:
  assumes "gcd_space op s = Some m" "gcd_wf hi m" "unat b + unat l \<le> 2 ^ 64"
  shows "\<exists>st s' m'. CoreConvertSpace cpu s op mt iot b l caps attrs = Some (st, s') \<and>
    gcd_space op s' = Some m' \<and> gcd_wf hi m' \<and> gcd_other_space_same op s s' \<and>
    (if l \<noteq> 0 \<and> unat b + unat l \<le> hi \<and>
        (\<forall>a \<in> {unat b..<unat b + unat l}. gcd_check_cell op b l caps attrs (the (gcd_lookup m a))) \<and>
        gcd_pool_ready s \<and> gcd_cpu_accepts cpu op b l attrs
     then st = EFI_SUCCESS \<and> gcd_related (gcd_convert_rel op mt iot caps attrs) (unat b) (unat b + unat l) m m'
     else st \<noteq> EFI_SUCCESS \<and> m' = m)"
  by (rule CoreConvertSpace_spec [OF assms])

theorem CoreConvertSpace_contract_witness:
  "\<exists>st s' m'. CoreConvertSpace None gcd_sample GCD_FREE_MEMORY_OPERATION 0 0 0 0x1000 0 0 = Some (st, s') \<and>
    gcd_space GCD_FREE_MEMORY_OPERATION s' = Some m' \<and> gcd_wf 0x100000 m'"
  using CoreConvertSpace_contract [where op = GCD_FREE_MEMORY_OPERATION and s = gcd_sample and m = gcd_sample_map
      and hi = "0x100000" and b = 0 and l = "0x1000" and cpu = None and mt = 0 and iot = 0 and caps = 0 and attrs = 0]
    gcd_sample_inv by (auto simp: gcd_inv_def gcd_sample_def)



text \<open>
  (C4) Freeing what was just allocated gives back the very same memory map, entry by entry.
\<close>

theorem CoreAllocate_CoreFree_roundtrip:
  assumes inv: "gcd_inv hm hio s" and hm: "0 < hm" "hm \<le> 2 ^ 63" and l: "unat l \<le> 2 ^ 63"
    and r: "CoreAllocateMemorySpace s at mt al l base img dev = Some (EFI_SUCCESS, Some x, s')"
    and pool: "gcd_pool_ready s'"
  shows "\<exists>s''. CoreFreeMemorySpace cpu s' x l = Some (EFI_SUCCESS, s'') \<and>
    mGcdMemorySpaceMap s'' = mGcdMemorySpaceMap s"
proof -
  let ?m = "mGcdMemorySpaceMap s" and ?m' = "mGcdMemorySpaceMap s'"
  have wf: "gcd_wf hm ?m" and h: "gcd_handles ?m" using inv by (simp_all add: gcd_inv_def)
  obtain b where lx: "l \<noteq> 0" "img \<noteq> NULL" and wf': "gcd_wf hm ?m'"
    and ch: "gcd_choice GCD_ALLOCATE_MEMORY_OPERATION at mt 0 ?m (unat al) l b (unat x)"
    and mp: "gcd_mapped (gcd_allocate_cell img dev) (unat x) (unat x + unat l) ?m ?m'"
    by (rule CoreAllocateSpace_ok [OF inv hm l r]) simp
  note free = gcd_choice_free [OF ch]
  have inside: "unat x + unat l \<le> hm" using gcd_free_inside [OF _ free lx(1)] wf by (simp add: gcd_wf_def)
  obtain s'' m'' where c: "CoreConvertSpace cpu s' GCD_FREE_MEMORY_OPERATION 0 0 x l 0 0 = Some (EFI_SUCCESS, s'')"
    "gcd_space GCD_FREE_MEMORY_OPERATION s'' = Some m''" "gcd_wf hm m''"
    "gcd_mapped (gcd_convert_cell GCD_FREE_MEMORY_OPERATION 0 0 0 0) (unat x) (unat x + unat l) ?m' m''"
    by (rule CoreConvertSpace_ok [OF gcd_space_operation(3) wf' lx(1) inside hm(2), where caps = 0 and attrs = 0])
      (use pool mp lx in \<open>auto simp: gcd_mapped_def gcd_allocate_cell_def gcd_check_cell_cases gcd_operation_not_attributes\<close>)
  have "m'' = ?m"
  proof (rule gcd_undo [OF wf c(3) mp c(4)])
    fix a c
    assume a: "unat x \<le> a" "a < unat x + unat l" "gcd_lookup ?m a = Some c"
    then have "gcd_usable GCD_ALLOCATE_MEMORY_OPERATION mt 0 c"
      using bspec [OF free [unfolded gcd_free_def], of a] by simp
    moreover have "gcd_cell_handles c" using h a wf by (auto simp: gcd_handles_lookup gcd_wf_def)
    ultimately show "gcd_convert_cell GCD_FREE_MEMORY_OPERATION 0 0 0 0 (gcd_allocate_cell img dev c) = c"
      by (cases c) (simp add: gcd_usable_def gcd_cell_handles_def gcd_convert_cell_def gcd_allocate_cell_def gcd_operation_defs)
  qed
  with c show ?thesis by (simp add: CoreFreeMemorySpace_def)
qed

theorem CoreAllocate_CoreFree_roundtrip_witness:
  "\<exists>s' s''. CoreAllocateMemorySpace gcd_sample EfiGcdAllocateAnySearchBottomUp EfiGcdMemoryTypeSystemMemory 12 0x2000
      (Some 0) 5 6 = Some (EFI_SUCCESS, Some 0x1000, s') \<and>
    CoreFreeMemorySpace None s' 0x1000 0x2000 = Some (EFI_SUCCESS, s'') \<and> mGcdMemorySpaceMap s'' = gcd_sample_map"
proof -
  have "case CoreAllocateMemorySpace gcd_sample EfiGcdAllocateAnySearchBottomUp EfiGcdMemoryTypeSystemMemory 12 0x2000
      (Some 0) 5 6 of Some (st, Some x, s') \<Rightarrow> st = EFI_SUCCESS \<and> x = 0x1000 \<and> gcd_pool_ready s' | _ \<Rightarrow> False"
    by code_simp
  then obtain s' where "CoreAllocateMemorySpace gcd_sample EfiGcdAllocateAnySearchBottomUp EfiGcdMemoryTypeSystemMemory 12
      0x2000 (Some 0) 5 6 = Some (EFI_SUCCESS, Some 0x1000, s')" "gcd_pool_ready s'"
    by (auto split: option.splits)
  then show ?thesis
    using CoreAllocate_CoreFree_roundtrip [OF gcd_sample_inv, of "0x2000"] by (simp add: gcd_sample_def)
qed



text \<open>
  (C6) \<open>CoreGetMemorySpaceDescriptor\<close> finds a descriptor exactly for the addresses of the space. Its
  range holds the address, and it says of every address of its range what the map says.
\<close>

theorem CoreGetMemorySpaceDescriptor_contract:
  assumes inv: "gcd_inv hm hio s" and hm: "hm \<le> 2 ^ 63"
  shows "case CoreGetMemorySpaceDescriptor s b True of
      (st, None) \<Rightarrow> st = EFI_NOT_FOUND \<and> hm \<le> unat b
    | (st, Some d) \<Rightarrow> st = EFI_SUCCESS \<and> unat (md_BaseAddress d) \<le> unat b \<and>
        unat b < unat (md_BaseAddress d) + unat (md_Length d) \<and> unat (md_BaseAddress d) + unat (md_Length d) \<le> hm \<and>
        (\<forall>a \<in> {unat (md_BaseAddress d)..<unat (md_BaseAddress d) + unat (md_Length d)}.
           \<exists>c. gcd_lookup (mGcdMemorySpaceMap s) a = Some c \<and>
             md_Capabilities d = cell_Capabilities c \<and> md_Attributes d = cell_Attributes c \<and>
             md_GcdMemoryType d = cell_MemoryType c \<and> md_ImageHandle d = cell_ImageHandle c \<and>
             md_DeviceHandle d = cell_DeviceHandle c)"
proof -
  let ?m = "mGcdMemorySpaceMap s"
  have t: "gcd_tiles 0 hm ?m" using inv by (simp add: gcd_inv_def gcd_wf_def)
  have b1: "unat b + unat (1 :: UINT64) \<le> 2 ^ 64" using unat_UINT64 [of b] by (simp add: Suc_le_eq)
  show ?thesis
  proof (cases "CoreSearchGcdMapEntry b 1 ?m")
    case None
    then show ?thesis
      using CoreSearchGcdMapEntry_tiles [OF t _ b1] by (auto simp: CoreGetMemorySpaceDescriptor_def)
  next
    case (Some ij)
    obtain i j where s: "CoreSearchGcdMapEntry b 1 ?m = Some (i, j)" using Some by (cases ij) auto
    let ?e = "?m ! i"
    note ss = CoreSearchGcdMapEntry_Some [OF s]
    have e: "?e \<in> set ?m" using ss(1,2) by simp
    note bd = gcd_tiles_bounds [OF t e]
    have "unat (EndAddress ?e - BaseAddress ?e) = unat (EndAddress ?e) - unat (BaseAddress ?e)"
      using bd by (simp add: unat_sub word_le_nat_alt)
    moreover have "unat (EndAddress ?e) - unat (BaseAddress ?e) < 2 ^ 63" using bd hm by linarith
    ultimately have "unat (EndAddress ?e - BaseAddress ?e + 1) = unat (EndAddress ?e) - unat (BaseAddress ?e) + 1"
      by (subst unat_range_end) simp_all
    with bd have len: "unat (BaseAddress ?e) + unat (EndAddress ?e - BaseAddress ?e + 1) = Suc (unat (EndAddress ?e))"
      by simp
    have "gcd_lookup ?m a = Some (cell_of ?e)" if "unat (BaseAddress ?e) \<le> a" "a < Suc (unat (EndAddress ?e))" for a
      using that by (intro gcd_lookup_covers [OF t e]) (simp add: gcd_covers_def)
    then show ?thesis using s ss(3) bd
      by (simp add: CoreGetMemorySpaceDescriptor_def BuildMemoryDescriptor_def len gcd_covers_def cell_of_def)
  qed
qed

theorem CoreGetMemorySpaceDescriptor_contract_witness:
  "case CoreGetMemorySpaceDescriptor gcd_sample 0x2345 True of
     (st, None) \<Rightarrow> False
   | (st, Some d) \<Rightarrow> st = EFI_SUCCESS \<and> unat (md_BaseAddress d) \<le> 0x2345 \<and>
       0x2345 < unat (md_BaseAddress d) + unat (md_Length d)"
  using CoreGetMemorySpaceDescriptor_contract [OF gcd_sample_inv, of "0x2345"]
  by (auto split: prod.splits option.splits)

lemma CoreCountGcdMapEntry_length: "CoreCountGcdMapEntry m = of_nat (length m)"
  by (induction m) auto

lemma gcd_get_map_loop_returns:
  assumes ok: "\<And>s n. fst (pl s n)"
    and dec: "\<And>s n. mGcdMemorySpaceMap (snd (pl s n)) = mGcdMemorySpaceMap s \<or> f (snd (pl s n)) < f s"
    and le: "\<And>s n. f (snd (pl s n)) \<le> f s"
  shows "(f s + 1 < fuel \<or> f s < fuel \<and> buf \<and> n = CoreCountGcdMapEntry (mGcdMemorySpaceMap s)) \<Longrightarrow>
    \<exists>s'. gcd_get_map_loop pl fuel s n buf =
      Some (EFI_SUCCESS, of_nat (length (mGcdMemorySpaceMap s')), Some (map BuildMemoryDescriptor (mGcdMemorySpaceMap s')), s')"
proof (induction fuel arbitrary: s n buf)
  case (Suc fuel)
  let ?c = "CoreCountGcdMapEntry (mGcdMemorySpaceMap s)"
  show ?case
  proof (cases "?c = n \<and> buf")
    case True
    then show ?thesis by (auto simp: CoreCountGcdMapEntry_length Let_def)
  next
    case False
    then have fuel: "f s < fuel" using Suc.prems by auto
    have "f (snd (pl s ?c)) + 1 < fuel \<or>
        f (snd (pl s ?c)) < fuel \<and> True \<and> ?c = CoreCountGcdMapEntry (mGcdMemorySpaceMap (snd (pl s ?c)))"
      using dec [of s ?c] le [of s ?c] fuel by auto
    from Suc.IH [OF this] False ok [of s ?c] show ?thesis by (auto simp: Let_def split: prod.splits)
  qed
qed simp

text \<open>
  (C7) \<open>CoreGetMemorySpaceMap\<close> returns even though the pool it allocates from may change the map
  under it, as long as the pool does not run out and changes the map finitely often (every call
  that does lowers \<open>f\<close>); and what it returns is the whole map as it is at that moment.
\<close>

theorem CoreGetMemorySpaceMap_returns:
  assumes "\<And>s n. fst (pl s n)"
    and "\<And>s n. mGcdMemorySpaceMap (snd (pl s n)) = mGcdMemorySpaceMap s \<or> f (snd (pl s n)) < f s"
    and "\<And>s n. f (snd (pl s n)) \<le> f s" and "f s + 2 \<le> fuel"
  shows "\<exists>s'. CoreGetMemorySpaceMap pl fuel s True True =
    Some (EFI_SUCCESS, of_nat (length (mGcdMemorySpaceMap s')), Some (map BuildMemoryDescriptor (mGcdMemorySpaceMap s')), s')"
  using gcd_get_map_loop_returns [of pl f, OF assms(1-3), of s fuel False 0] assms(4)
  by (simp add: CoreGetMemorySpaceMap_def)

theorem CoreGetMemorySpaceMap_returns_witness:
  "\<exists>s'. CoreGetMemorySpaceMap (\<lambda>s n. (True, s\<lparr>pool_calls := Suc (pool_calls s)\<rparr>)) 2 gcd_sample True True =
    Some (EFI_SUCCESS, of_nat (length (mGcdMemorySpaceMap s')), Some (map BuildMemoryDescriptor (mGcdMemorySpaceMap s')), s')"
  by (rule CoreGetMemorySpaceMap_returns [where f = "\<lambda>_. 0"]) simp_all

section \<open>Where the code departs from the contracts\<close>










end
