(* ===== verification/Bit_Scan.thy ===== *)
theory Bit_Scan
  imports Prelude
begin

text \<open>
  The bit scans of \<^verbatim>\<open>MdePkg/Library/BaseLib\<close> (\<^verbatim>\<open>HighBitSet32.c\<close>, \<^verbatim>\<open>HighBitSet64.c\<close>), which the task
  priority code uses to find the highest pending level, and that they find the highest bit.
\<close>

function HighBitSet32_loop :: "int \<Rightarrow> UINT32 \<Rightarrow> int" where
  "HighBitSet32_loop BitIndex Operand =
     (if 0 < sint Operand then HighBitSet32_loop (BitIndex - 1) (push_bit 1 Operand) else BitIndex)"
  by pat_completeness auto

lemma sint_pos_UINT32: "0 < sint (x :: UINT32) \<longleftrightarrow> x \<noteq> 0 \<and> \<not> bit x 31"
proof -
  have "sint x < 0 \<longleftrightarrow> bit x 31" using bit_last_iff [of x] by simp
  moreover have "sint x = 0 \<longleftrightarrow> x = 0" by (metis signed_0 signed_eq_0_iff)
  ultimately show ?thesis by linarith
qed

lemma bit_push_1: "bit (push_bit 1 (x :: UINT32)) n \<longleftrightarrow> 1 \<le> n \<and> n < 32 \<and> bit x (n - 1)"
  unfolding bit_push_bit_iff by (auto dest: bit_imp_le_length)

lemma bit_double: "bit (x * 2 :: UINT32) n \<longleftrightarrow> 1 \<le> n \<and> n < 32 \<and> bit x (n - 1)"
  using bit_push_1 [of x n] by simp

lemma unat_push_1:
  assumes "x \<noteq> 0" "\<not> bit (x :: UINT32) 31"
  shows "unat x < unat (push_bit 1 x)"
proof -
  have "take_bit 31 x = x"
  proof (rule bit_word_eqI)
    fix n
    assume "n < LENGTH(32)"
    with assms(2) show "bit (take_bit 31 x) n \<longleftrightarrow> bit x n" by (cases "n = 31") (auto simp: bit_take_bit_iff)
  qed
  then have "unat x = unat x mod 2 ^ 31" using unat_take_bit [of 31 x] by simp
  moreover have "unat x mod 2 ^ 31 < 2 ^ 31" by (rule mod_less_divisor) simp
  ultimately have "unat x < 2 ^ 31" by linarith
  then have "unat (push_bit 1 x) = 2 * unat x"
    by (simp add: push_bit_eq_mult unat_word_ariths)
  with assms(1) show ?thesis by (simp add: unat_gt_0)
qed

termination HighBitSet32_loop
proof (relation "measure (\<lambda>(i, x). 2 ^ 32 - unat x)")
  fix i :: int and x :: UINT32
  assume "0 < sint x"
  then have "unat x < unat (push_bit 1 x)" using unat_push_1 [of x] by (simp add: sint_pos_UINT32)
  moreover have "unat (push_bit 1 x) < 2 ^ 32" using unsigned_less [of "push_bit 1 x"] by simp
  ultimately show "((i - 1, push_bit 1 x), i, x) \<in> measure (\<lambda>(i, x). 2 ^ 32 - unat x)" by simp
qed simp

declare HighBitSet32_loop.simps [simp del]

definition HighBitSet32 :: "UINT32 \<Rightarrow> int" where
  "HighBitSet32 Operand = (if Operand = 0 then - 1 else HighBitSet32_loop 31 Operand)"

definition HighBitSet64 :: "UINT64 \<Rightarrow> int" where
  "HighBitSet64 Operand =
     (if Operand = ucast (ucast Operand :: UINT32) then HighBitSet32 (ucast Operand)
      else HighBitSet32 (ucast (drop_bit 32 Operand)) + 32)"

lemma HighBitSet32_loop_highest:
  "x \<noteq> 0 \<Longrightarrow> \<exists>k < 32. HighBitSet32_loop i x = i - 31 + int k \<and> bit x k \<and> (\<forall>j > k. \<not> bit x j)"
proof (induction i x rule: HighBitSet32_loop.induct)
  case (1 i x)
  show ?case
  proof (cases "bit x 31")
    case True
    moreover have "\<not> bit x j" if "31 < j" for j using that bit_imp_le_length [of x j] by auto
    ultimately show ?thesis
      by (intro exI [of _ 31]) (simp add: HighBitSet32_loop.simps [of i] sint_pos_UINT32)
  next
    case False
    with 1 have pos: "0 < sint x" by (simp add: sint_pos_UINT32)
    have "push_bit 1 x \<noteq> 0" using unat_push_1 [OF 1(2) False] by auto
    from 1(1) [OF pos this] obtain k where k: "k < 32" "HighBitSet32_loop (i - 1) (push_bit 1 x) = i - 1 - 31 + int k"
      "bit (push_bit 1 x) k" "\<forall>j > k. \<not> bit (push_bit 1 x) j" by auto
    then have "1 \<le> k" "bit x (k - 1)" by (simp_all add: bit_double)
    moreover have "\<not> bit x j" if "k - 1 < j" for j
    proof
      assume "bit x j"
      then have "j < 31" using False bit_imp_le_length [of x j] by (cases "j = 31") auto
      with \<open>bit x j\<close> have "bit (push_bit 1 x) (Suc j)" by (simp add: bit_double)
      with k(4) that show False by auto
    qed
    ultimately show ?thesis
      using k(1,2) pos by (intro exI [of _ "k - 1"]) (simp add: HighBitSet32_loop.simps [of i] of_nat_diff)
  qed
qed

text \<open>The scan returns the position of the highest set bit.\<close>

lemma HighBitSet64_highest:
  assumes "x \<noteq> 0"
  obtains k where "HighBitSet64 x = int k" "k < 64" "bit x k" "\<And>j. bit x j \<Longrightarrow> j \<le> k"
proof (cases "x = ucast (ucast x :: UINT32)")
  case True
  then have "(ucast x :: UINT32) \<noteq> 0" using assms by auto
  then obtain k where k: "k < 32" "HighBitSet32 (ucast x) = int k" "bit (ucast x :: UINT32) k"
    "\<forall>j > k. \<not> bit (ucast x :: UINT32) j"
    using HighBitSet32_loop_highest [of "ucast x" 31] by (auto simp: HighBitSet32_def)
  have "bit x j \<longleftrightarrow> bit (ucast x :: UINT32) j" for j
    by (subst True) (auto simp: bit_ucast_iff dest: bit_imp_le_length)
  with k True that [of k] show ?thesis by (fastforce simp: HighBitSet64_def not_less)
next
  case False
  let ?h = "ucast (drop_bit 32 x) :: UINT32"
  have h: "bit ?h j \<longleftrightarrow> bit x (32 + j)" for j
    by (auto simp: bit_ucast_iff bit_drop_bit_eq dest: bit_imp_le_length)
  have "?h \<noteq> 0"
  proof
    assume "?h = 0"
    then have "\<not> bit x (32 + j)" for j using h by simp
    then have "x = ucast (ucast x :: UINT32)"
      by (intro bit_eqI) (auto simp: bit_ucast_iff, metis le_add_diff_inverse not_less)
    with False show False by simp
  qed
  then obtain k where k: "k < 32" "HighBitSet32 ?h = int k" "bit ?h k" "\<forall>j > k. \<not> bit ?h j"
    using HighBitSet32_loop_highest [of ?h 31] by (auto simp: HighBitSet32_def)
  have "j \<le> 32 + k" if "bit x j" for j
  proof (rule ccontr)
    assume "\<not> j \<le> 32 + k"
    then have "bit ?h (j - 32)" "k < j - 32" using that by (auto simp: h)
    with k(4) show False by blast
  qed
  with False k h that [of "32 + k"] show ?thesis by (simp add: HighBitSet64_def)
qed

end
