(* ===== verification/Event_Core.thy ===== *)
theory Event_Core
  imports Bit_Scan "HOL-Library.Monad_Syntax"
begin

text \<open>
  The event, timer and task priority services of the DXE core (\<^verbatim>\<open>Event/Tpl.c\<close>, \<^verbatim>\<open>Event/Event.c\<close>,
  \<^verbatim>\<open>Event/Timer.c\<close>, \<^verbatim>\<open>Library/Library.c\<close>). An event is a number, its address, in the store
  \<open>events\<close>; a closed event is no longer there. The links of the lists are the lists of their
  members in order, and a link is \<open>NULL\<close> when the event is in no such list.

  Lowering the task priority runs notification functions, which call the services again. So every
  service takes as its first argument the \<open>CoreRestoreTpl\<close> it calls (\<open>rst\<close>), and the knot is tied at
  the end by recursion on fuel, the nesting depth. \<open>None\<close> is a failed \<open>ASSERT\<close> or fuel that ran out.
\<close>

section \<open>State\<close>

text \<open>Task priorities are only compared and used as an index, so they are natural numbers.\<close>

type_synonym EFI_TPL = nat
type_synonym EFI_EVENT = nat

abbreviation (input) TPL_APPLICATION :: EFI_TPL where "TPL_APPLICATION \<equiv> 4"
abbreviation (input) TPL_CALLBACK :: EFI_TPL where "TPL_CALLBACK \<equiv> 8"
abbreviation (input) TPL_NOTIFY :: EFI_TPL where "TPL_NOTIFY \<equiv> 16"
abbreviation (input) TPL_HIGH_LEVEL :: EFI_TPL where "TPL_HIGH_LEVEL \<equiv> 31"

definition EVT_TIMER :: UINT32 where "EVT_TIMER = 0x80000000"
definition EVT_RUNTIME :: UINT32 where "EVT_RUNTIME = 0x40000000"
definition EVT_NOTIFY_WAIT :: UINT32 where "EVT_NOTIFY_WAIT = 0x100"
definition EVT_NOTIFY_SIGNAL :: UINT32 where "EVT_NOTIFY_SIGNAL = 0x200"
definition EVT_SIGNAL_EXIT_BOOT_SERVICES :: UINT32 where "EVT_SIGNAL_EXIT_BOOT_SERVICES = 0x201"
definition EVT_SIGNAL_VIRTUAL_ADDRESS_CHANGE :: UINT32 where "EVT_SIGNAL_VIRTUAL_ADDRESS_CHANGE = 0x60000202"

lemmas evt_defs = EVT_TIMER_def EVT_RUNTIME_def EVT_NOTIFY_WAIT_def EVT_NOTIFY_SIGNAL_def
  EVT_SIGNAL_EXIT_BOOT_SERVICES_def EVT_SIGNAL_VIRTUAL_ADDRESS_CHANGE_def

definition EVT_EXFLAG_EVENT_GROUP :: UINT8 where "EVT_EXFLAG_EVENT_GROUP = 1"
definition EVT_EXFLAG_EVENT_PROTOCOL_NOTIFICATION :: UINT8 where "EVT_EXFLAG_EVENT_PROTOCOL_NOTIFICATION = 2"

definition gEfiEventExitBootServicesGuid :: EFI_GUID where
  "gEfiEventExitBootServicesGuid =
     [0x55, 0xF0, 0xAB, 0x27, 0xB8, 0xB1, 0x26, 0x4C, 0x80, 0x48, 0x74, 0x8F, 0x37, 0xBA, 0xA2, 0xDF]"

definition gEfiEventVirtualAddressChangeGuid :: EFI_GUID where
  "gEfiEventVirtualAddressChangeGuid =
     [0x98, 0x76, 0xFA, 0x13, 0x31, 0xC8, 0xC7, 0x49, 0x87, 0xEA, 0x8F, 0x43, 0xFC, 0xC2, 0x51, 0x96]"

definition gIdleLoopEventGuid :: EFI_GUID where
  "gIdleLoopEventGuid =
     [0x4C, 0x29, 0x8D, 0x3C, 0xC3, 0x5F, 0x51, 0x44, 0xBB, 0x31, 0xC4, 0xC0, 0x32, 0x29, 0x5E, 0x6C]"

text \<open>A notification function: the timer check of \<^verbatim>\<open>Timer.c\<close>, the empty function, or one of a driver.\<close>

datatype EFI_EVENT_NOTIFY = CoreCheckTimersFunction | EfiEventEmptyFunction | DriverFunction nat

record IEVENT =
  Type :: UINT32
  SignalCount :: UINT32
  NotifyTpl :: EFI_TPL
  NotifyFunction :: "EFI_EVENT_NOTIFY option"
  EventGroup :: EFI_GUID
  ExFlag :: UINT8
  TriggerTime :: UINT64
  Period :: UINT64

datatype EFI_LOCK_STATE = EfiLockUninitialized | EfiLockReleased | EfiLockAcquired

record EFI_LOCK =
  Tpl :: EFI_TPL
  OwnerTpl :: EFI_TPL
  Lock :: EFI_LOCK_STATE

datatype lock_id = EventQueueLock | TimerLock | SystemTimeLock

text \<open>
  \<open>gCpu\<close> says whether the CPU protocol is installed, \<open>gSmmBase2\<close> is what \<open>InSmm\<close> answers when that
  protocol is installed, \<open>gTimerPeriod\<close> what \<open>GetTimerPeriod\<close> answers. \<open>pool_ok\<close> says which event
  allocations succeed. \<open>notified\<close> records the notification functions that were called, with the
  priority they ran at; \<open>unregistered\<close> the calls of \<open>CoreUnregisterProtocolNotify\<close>.
\<close>

record ev_state =
  gEfiCurrentTpl :: EFI_TPL
  locks :: "lock_id \<Rightarrow> EFI_LOCK"
  gEventQueue :: "EFI_TPL \<Rightarrow> EFI_EVENT list"
  gEventPending :: UINTN
  gEventSignalQueue :: "EFI_EVENT list"
  gRuntimeEvents :: "EFI_EVENT list"
  mEfiTimerList :: "EFI_EVENT list"
  mEfiSystemTime :: UINT64
  mEfiCheckTimerEvent :: EFI_EVENT
  gIdleLoopEvent :: EFI_EVENT
  gTimerPeriod :: UINT64
  events :: "EFI_EVENT \<Rightarrow> IEVENT option"
  next_event :: EFI_EVENT
  pool_ok :: "nat \<Rightarrow> bool"
  interrupts :: bool
  gCpu :: bool
  gSmmBase2 :: "(EFI_STATUS \<times> bool) option"
  notified :: "(EFI_TPL \<times> EFI_EVENT) list"
  unregistered :: "EFI_EVENT list"

type_synonym restore_tpl = "EFI_TPL \<Rightarrow> ev_state \<Rightarrow> ev_state option"

definition ev_assert :: "bool \<Rightarrow> unit option" where
  "ev_assert b = (if b then Some () else None)"

definition ev_update :: "EFI_EVENT \<Rightarrow> (IEVENT \<Rightarrow> IEVENT) \<Rightarrow> ev_state \<Rightarrow> ev_state" where
  "ev_update e f s = s\<lparr>events := (events s)(e := map_option f (events s e))\<rparr>"

section \<open>Task priority and locks\<close>

definition CoreSetInterruptState :: "bool \<Rightarrow> ev_state \<Rightarrow> ev_state" where
  "CoreSetInterruptState Enable s =
     (if \<not> gCpu s then s
      else if \<not> Enable then s\<lparr>interrupts := False\<rparr>
      else (case gSmmBase2 s of
              None \<Rightarrow> s\<lparr>interrupts := True\<rparr>
            | Some (Status, InSmm) \<Rightarrow> if \<not> EFI_ERROR Status \<and> \<not> InSmm then s\<lparr>interrupts := True\<rparr> else s))"

definition VALID_TPL :: "EFI_TPL \<Rightarrow> bool" where
  "VALID_TPL a \<longleftrightarrow> a \<le> TPL_HIGH_LEVEL"

definition CoreRaiseTpl :: "EFI_TPL \<Rightarrow> ev_state \<Rightarrow> (EFI_TPL \<times> ev_state) option" where
  "CoreRaiseTpl NewTpl s =
     do {
       let OldTpl = gEfiCurrentTpl s;
       ev_assert (\<not> OldTpl > NewTpl);
       ev_assert (VALID_TPL NewTpl);
       let s = (if NewTpl \<ge> TPL_HIGH_LEVEL \<and> OldTpl < TPL_HIGH_LEVEL then CoreSetInterruptState False s else s);
       Some (OldTpl, s\<lparr>gEfiCurrentTpl := NewTpl\<rparr>)
     }"

definition CoreAcquireLockOrFail :: "lock_id \<Rightarrow> ev_state \<Rightarrow> (EFI_STATUS \<times> ev_state) option" where
  "CoreAcquireLockOrFail L s =
     do {
       ev_assert (Lock (locks s L) \<noteq> EfiLockUninitialized);
       if Lock (locks s L) = EfiLockAcquired then Some (EFI_ACCESS_DENIED, s)
       else do {
         (Tpl, s) \<leftarrow> CoreRaiseTpl (Tpl (locks s L)) s;
         Some (EFI_SUCCESS, s\<lparr>locks := (locks s)(L := (locks s L)\<lparr>OwnerTpl := Tpl, Lock := EfiLockAcquired\<rparr>)\<rparr>)
       }
     }"

definition CoreAcquireLock :: "lock_id \<Rightarrow> ev_state \<Rightarrow> ev_state option" where
  "CoreAcquireLock L s =
     do {
       ev_assert (Lock (locks s L) = EfiLockReleased);
       (Tpl, s) \<leftarrow> CoreRaiseTpl (Tpl (locks s L)) s;
       Some (s\<lparr>locks := (locks s)(L := (locks s L)\<lparr>OwnerTpl := Tpl, Lock := EfiLockAcquired\<rparr>)\<rparr>)
     }"

definition CoreReleaseLock :: "restore_tpl \<Rightarrow> lock_id \<Rightarrow> ev_state \<Rightarrow> ev_state option" where
  "CoreReleaseLock rst L s =
     do {
       ev_assert (Lock (locks s L) = EfiLockAcquired);
       let Tpl = OwnerTpl (locks s L);
       rst Tpl (s\<lparr>locks := (locks s)(L := (locks s L)\<lparr>Lock := EfiLockReleased\<rparr>)\<rparr>)
     }"

definition CoreAcquireEventLock :: "ev_state \<Rightarrow> ev_state option" where
  "CoreAcquireEventLock s = CoreAcquireLock EventQueueLock s"

definition CoreReleaseEventLock :: "restore_tpl \<Rightarrow> ev_state \<Rightarrow> ev_state option" where
  "CoreReleaseEventLock rst s = CoreReleaseLock rst EventQueueLock s"

section \<open>Signalling\<close>

text \<open>The event is in one of the notification queues.\<close>

definition ev_queued :: "ev_state \<Rightarrow> EFI_EVENT \<Rightarrow> bool" where
  "ev_queued s e \<longleftrightarrow> list_ex (\<lambda>p. e \<in> set (gEventQueue s p)) [0..<Suc TPL_HIGH_LEVEL]"

definition ev_unqueue :: "EFI_EVENT \<Rightarrow> ev_state \<Rightarrow> ev_state" where
  "ev_unqueue e s = s\<lparr>gEventQueue := (\<lambda>p. removeAll e (gEventQueue s p))\<rparr>"

definition CoreNotifyEvent :: "EFI_EVENT \<Rightarrow> ev_state \<Rightarrow> ev_state option" where
  "CoreNotifyEvent e s =
     do {
       ev_assert (Lock (locks s EventQueueLock) = EfiLockAcquired);
       Event \<leftarrow> events s e;
       let s = (if ev_queued s e then ev_unqueue e s else s);
       Some (s\<lparr>gEventQueue := (gEventQueue s)(NotifyTpl Event := gEventQueue s (NotifyTpl Event) @ [e]),
               gEventPending := gEventPending s OR push_bit (NotifyTpl Event) 1\<rparr>)
     }"

fun ev_notify_group :: "EFI_GUID \<Rightarrow> EFI_EVENT list \<Rightarrow> ev_state \<Rightarrow> ev_state option" where
  "ev_notify_group Group [] s = Some s"
| "ev_notify_group Group (e # Links) s =
     do {
       Event \<leftarrow> events s e;
       s \<leftarrow> (if EventGroup Event = Group then CoreNotifyEvent e s else Some s);
       ev_notify_group Group Links s
     }"

definition CoreNotifySignalList :: "restore_tpl \<Rightarrow> EFI_GUID \<Rightarrow> ev_state \<Rightarrow> ev_state option" where
  "CoreNotifySignalList rst Group s =
     do {
       s \<leftarrow> CoreAcquireEventLock s;
       s \<leftarrow> ev_notify_group Group (gEventSignalQueue s) s;
       CoreReleaseEventLock rst s
     }"

definition CoreSignalEvent :: "restore_tpl \<Rightarrow> EFI_EVENT \<Rightarrow> ev_state \<Rightarrow> (EFI_STATUS \<times> ev_state) option" where
  "CoreSignalEvent rst UserEvent s =
     (case events s UserEvent of
        None \<Rightarrow> Some (EFI_INVALID_PARAMETER, s)
      | Some Event \<Rightarrow>
        do {
          s \<leftarrow> CoreAcquireEventLock s;
          s \<leftarrow> (if SignalCount Event = 0 then
                 do {
                   let s = ev_update UserEvent (\<lambda>ev. ev\<lparr>SignalCount := SignalCount ev + 1\<rparr>) s;
                   if Type Event AND EVT_NOTIFY_SIGNAL \<noteq> 0 then
                     (if ExFlag Event AND EVT_EXFLAG_EVENT_GROUP \<noteq> 0 then
                        do {
                          s \<leftarrow> CoreReleaseEventLock rst s;
                          Event \<leftarrow> events s UserEvent;
                          s \<leftarrow> CoreNotifySignalList rst (EventGroup Event) s;
                          CoreAcquireEventLock s
                        }
                      else CoreNotifyEvent UserEvent s)
                   else Some s
                 }
               else Some s);
          s \<leftarrow> CoreReleaseEventLock rst s;
          Some (EFI_SUCCESS, s)
        })"

definition CoreCheckEvent :: "restore_tpl \<Rightarrow> EFI_EVENT \<Rightarrow> ev_state \<Rightarrow> (EFI_STATUS \<times> ev_state) option" where
  "CoreCheckEvent rst UserEvent s =
     (case events s UserEvent of
        None \<Rightarrow> Some (EFI_INVALID_PARAMETER, s)
      | Some Event \<Rightarrow>
        if Type Event AND EVT_NOTIFY_SIGNAL \<noteq> 0 then Some (EFI_INVALID_PARAMETER, s)
        else do {
          s \<leftarrow> (if SignalCount Event = 0 \<and> Type Event AND EVT_NOTIFY_WAIT \<noteq> 0 then
                 do {
                   s \<leftarrow> CoreAcquireEventLock s;
                   Event \<leftarrow> events s UserEvent;
                   s \<leftarrow> (if SignalCount Event = 0 then CoreNotifyEvent UserEvent s else Some s);
                   CoreReleaseEventLock rst s
                 }
               else Some s);
          Event \<leftarrow> events s UserEvent;
          if SignalCount Event \<noteq> 0 then
            do {
              s \<leftarrow> CoreAcquireEventLock s;
              Event \<leftarrow> events s UserEvent;
              let (Status, s) = (if SignalCount Event \<noteq> 0
                                 then (EFI_SUCCESS, ev_update UserEvent (\<lambda>ev. ev\<lparr>SignalCount := 0\<rparr>) s)
                                 else (EFI_NOT_READY, s));
              s \<leftarrow> CoreReleaseEventLock rst s;
              Some (Status, s)
            }
          else Some (EFI_NOT_READY, s)
        })"

section \<open>Creating events\<close>

definition mEventTable :: "UINT32 list" where
  "mEventTable =
     [EVT_TIMER OR EVT_NOTIFY_SIGNAL, EVT_TIMER, EVT_NOTIFY_WAIT, EVT_NOTIFY_SIGNAL,
      EVT_SIGNAL_EXIT_BOOT_SERVICES, EVT_SIGNAL_VIRTUAL_ADDRESS_CHANGE, 0, EVT_TIMER OR EVT_NOTIFY_WAIT]"

text \<open>The type and the group an event gets, from the ones the caller passes; \<open>None\<close> when they clash.\<close>

definition ev_type_group :: "UINT32 \<Rightarrow> EFI_GUID option \<Rightarrow> (UINT32 \<times> EFI_GUID option) option" where
  "ev_type_group Ty Group =
     (case Group of
        Some g \<Rightarrow>
          if Ty = EVT_SIGNAL_EXIT_BOOT_SERVICES \<or> Ty = EVT_SIGNAL_VIRTUAL_ADDRESS_CHANGE then None
          else if g = gEfiEventExitBootServicesGuid then Some (EVT_SIGNAL_EXIT_BOOT_SERVICES, Group)
          else if g = gEfiEventVirtualAddressChangeGuid then Some (EVT_SIGNAL_VIRTUAL_ADDRESS_CHANGE, Group)
          else Some (Ty, Group)
      | None \<Rightarrow>
          if Ty = EVT_SIGNAL_EXIT_BOOT_SERVICES then Some (Ty, Some gEfiEventExitBootServicesGuid)
          else if Ty = EVT_SIGNAL_VIRTUAL_ADDRESS_CHANGE then Some (Ty, Some gEfiEventVirtualAddressChangeGuid)
          else Some (Ty, None))"

text \<open>The result is the status, the new event (\<open>*Event\<close>) and the state.\<close>

definition CoreCreateEventInternal ::
  "restore_tpl \<Rightarrow> UINT32 \<Rightarrow> EFI_TPL \<Rightarrow> EFI_EVENT_NOTIFY option \<Rightarrow> EFI_GUID option \<Rightarrow> bool \<Rightarrow> ev_state \<Rightarrow>
   (EFI_STATUS \<times> EFI_EVENT option \<times> ev_state) option"
where
  "CoreCreateEventInternal rst Ty Level Fn Group WithEvent s =
     (if \<not> WithEvent then Some (EFI_INVALID_PARAMETER, None, s)
      else if Ty \<notin> set mEventTable then Some (EFI_INVALID_PARAMETER, None, s)
      else (case ev_type_group Ty Group of
        None \<Rightarrow> Some (EFI_INVALID_PARAMETER, None, s)
      | Some (Ty, Group) \<Rightarrow>
        if Ty AND (EVT_NOTIFY_WAIT OR EVT_NOTIFY_SIGNAL) \<noteq> 0 \<and>
           (Fn = None \<or> Level \<le> TPL_APPLICATION \<or> Level \<ge> TPL_HIGH_LEVEL)
        then Some (EFI_INVALID_PARAMETER, None, s)
        else
          (let (Level, Fn) = (if Ty AND (EVT_NOTIFY_WAIT OR EVT_NOTIFY_SIGNAL) \<noteq> 0 then (Level, Fn) else (0, None));
               e = next_event s
           in if \<not> pool_ok s e then Some (EFI_OUT_OF_RESOURCES, None, s\<lparr>next_event := Suc e\<rparr>)
              else do {
                let IEvent = \<lparr>Type = Ty, SignalCount = 0, NotifyTpl = Level, NotifyFunction = Fn,
                      EventGroup = (case Group of None \<Rightarrow> replicate 16 0 | Some g \<Rightarrow> g),
                      ExFlag = (case Group of None \<Rightarrow> 0 | Some g \<Rightarrow> EVT_EXFLAG_EVENT_GROUP),
                      TriggerTime = 0, Period = 0\<rparr>;
                let s = s\<lparr>next_event := Suc e, events := (events s)(e := Some IEvent)\<rparr>;
                let s = (if Ty AND EVT_RUNTIME \<noteq> 0 then s\<lparr>gRuntimeEvents := gRuntimeEvents s @ [e]\<rparr> else s);
                s \<leftarrow> (if Ty AND EVT_NOTIFY_SIGNAL \<noteq> 0 then
                       do {
                         s \<leftarrow> CoreAcquireEventLock s;
                         let s = s\<lparr>gEventSignalQueue := e # gEventSignalQueue s\<rparr>;
                         CoreReleaseEventLock rst s
                       }
                     else Some s);
                Some (EFI_SUCCESS, Some e, s)
              })))"

definition CoreCreateEventEx ::
  "restore_tpl \<Rightarrow> UINT32 \<Rightarrow> EFI_TPL \<Rightarrow> EFI_EVENT_NOTIFY option \<Rightarrow> EFI_GUID option \<Rightarrow> bool \<Rightarrow> ev_state \<Rightarrow>
   (EFI_STATUS \<times> EFI_EVENT option \<times> ev_state) option"
where
  "CoreCreateEventEx rst Ty Level Fn Group WithEvent s = CoreCreateEventInternal rst Ty Level Fn Group WithEvent s"

definition CoreCreateEvent ::
  "restore_tpl \<Rightarrow> UINT32 \<Rightarrow> EFI_TPL \<Rightarrow> EFI_EVENT_NOTIFY option \<Rightarrow> bool \<Rightarrow> ev_state \<Rightarrow>
   (EFI_STATUS \<times> EFI_EVENT option \<times> ev_state) option"
where
  "CoreCreateEvent rst Ty Level Fn WithEvent s = CoreCreateEventEx rst Ty Level Fn None WithEvent s"

section \<open>Timers\<close>

abbreviation (input) TimerCancel :: UINT32 where "TimerCancel \<equiv> 0"
abbreviation (input) TimerPeriodic :: UINT32 where "TimerPeriodic \<equiv> 1"
abbreviation (input) TimerRelative :: UINT32 where "TimerRelative \<equiv> 2"

definition ev_time :: "ev_state \<Rightarrow> EFI_EVENT \<Rightarrow> UINT64" where
  "ev_time s e = (case events s e of None \<Rightarrow> 0 | Some ev \<Rightarrow> TriggerTime ev)"

text \<open>The insertion before the first timer that is later.\<close>

fun ev_insert_timer :: "(EFI_EVENT \<Rightarrow> UINT64) \<Rightarrow> EFI_EVENT \<Rightarrow> EFI_EVENT list \<Rightarrow> EFI_EVENT list" where
  "ev_insert_timer time e [] = [e]"
| "ev_insert_timer time e (e2 # Links) =
     (if time e2 > time e then e # e2 # Links else e2 # ev_insert_timer time e Links)"

definition CoreInsertEventTimer :: "EFI_EVENT \<Rightarrow> ev_state \<Rightarrow> ev_state option" where
  "CoreInsertEventTimer e s =
     do {
       ev_assert (Lock (locks s TimerLock) = EfiLockAcquired);
       Some (s\<lparr>mEfiTimerList := ev_insert_timer (ev_time s) e (mEfiTimerList s)\<rparr>)
     }"

definition CoreCurrentSystemTime :: "restore_tpl \<Rightarrow> ev_state \<Rightarrow> (UINT64 \<times> ev_state) option" where
  "CoreCurrentSystemTime rst s =
     do {
       s \<leftarrow> CoreAcquireLock SystemTimeLock s;
       let SystemTime = mEfiSystemTime s;
       s \<leftarrow> CoreReleaseLock rst SystemTimeLock s;
       Some (SystemTime, s)
     }"

text \<open>The loop over the expired timers; fuel bounds its rounds.\<close>

fun ev_check_timers :: "nat \<Rightarrow> restore_tpl \<Rightarrow> UINT64 \<Rightarrow> ev_state \<Rightarrow> ev_state option" where
  "ev_check_timers 0 rst SystemTime s = None"
| "ev_check_timers (Suc fuel) rst SystemTime s =
     (case mEfiTimerList s of
        [] \<Rightarrow> Some s
      | e # Links \<Rightarrow>
        do {
          Event \<leftarrow> events s e;
          if TriggerTime Event > SystemTime then Some s
          else do {
            let s = s\<lparr>mEfiTimerList := Links\<rparr>;
            (Status, s) \<leftarrow> CoreSignalEvent rst e s;
            Event \<leftarrow> events s e;
            s \<leftarrow> (if Period Event \<noteq> 0 then
                   do {
                     let s = ev_update e (\<lambda>ev. ev\<lparr>TriggerTime := TriggerTime ev + Period ev\<rparr>) s;
                     s \<leftarrow> (if TriggerTime Event + Period Event \<le> SystemTime then
                            do {
                              let s = ev_update e (\<lambda>ev. ev\<lparr>TriggerTime := SystemTime\<rparr>) s;
                              (Status, s) \<leftarrow> CoreSignalEvent rst (mEfiCheckTimerEvent s) s;
                              Some s
                            }
                          else Some s);
                     CoreInsertEventTimer e s
                   }
                 else Some s);
            ev_check_timers fuel rst SystemTime s
          }
        })"

definition CoreCheckTimers :: "nat \<Rightarrow> restore_tpl \<Rightarrow> ev_state \<Rightarrow> ev_state option" where
  "CoreCheckTimers fuel rst s =
     do {
       s \<leftarrow> CoreAcquireLock TimerLock s;
       (SystemTime, s) \<leftarrow> CoreCurrentSystemTime rst s;
       s \<leftarrow> ev_check_timers fuel rst SystemTime s;
       CoreReleaseLock rst TimerLock s
     }"

definition CoreTimerTick :: "restore_tpl \<Rightarrow> UINT64 \<Rightarrow> ev_state \<Rightarrow> ev_state option" where
  "CoreTimerTick rst Duration s =
     do {
       s \<leftarrow> CoreAcquireLock SystemTimeLock s;
       let s = s\<lparr>mEfiSystemTime := mEfiSystemTime s + Duration\<rparr>;
       s \<leftarrow> (case mEfiTimerList s of
              [] \<Rightarrow> Some s
            | e # _ \<Rightarrow>
              do {
                Event \<leftarrow> events s e;
                if TriggerTime Event \<le> mEfiSystemTime s
                then do { (Status, s) \<leftarrow> CoreSignalEvent rst (mEfiCheckTimerEvent s) s; Some s }
                else Some s
              });
       CoreReleaseLock rst SystemTimeLock s
     }"

definition CoreSetTimer ::
  "restore_tpl \<Rightarrow> EFI_EVENT \<Rightarrow> UINT32 \<Rightarrow> UINT64 \<Rightarrow> ev_state \<Rightarrow> (EFI_STATUS \<times> ev_state) option" where
  "CoreSetTimer rst UserEvent Ty Time s =
     (case events s UserEvent of
        None \<Rightarrow> Some (EFI_INVALID_PARAMETER, s)
      | Some Event \<Rightarrow>
        if Ty > TimerRelative \<or> Type Event AND EVT_TIMER = 0 then Some (EFI_INVALID_PARAMETER, s)
        else do {
          s \<leftarrow> CoreAcquireLock TimerLock s;
          let s = s\<lparr>mEfiTimerList := removeAll UserEvent (mEfiTimerList s)\<rparr>;
          let s = ev_update UserEvent (\<lambda>ev. ev\<lparr>TriggerTime := 0, Period := 0\<rparr>) s;
          s \<leftarrow> (if Ty \<noteq> TimerCancel then
                 do {
                   let Time = (if Ty = TimerPeriodic \<and> Time = 0 then gTimerPeriod s else Time);
                   let s = (if Ty = TimerPeriodic then ev_update UserEvent (\<lambda>ev. ev\<lparr>Period := Time\<rparr>) s else s);
                   (Now, s) \<leftarrow> CoreCurrentSystemTime rst s;
                   let s = ev_update UserEvent (\<lambda>ev. ev\<lparr>TriggerTime := Now + Time\<rparr>) s;
                   s \<leftarrow> CoreInsertEventTimer UserEvent s;
                   if Time = 0
                   then do { (Status, s) \<leftarrow> CoreSignalEvent rst (mEfiCheckTimerEvent s) s; Some s }
                   else Some s
                 }
               else Some s);
          s \<leftarrow> CoreReleaseLock rst TimerLock s;
          Some (EFI_SUCCESS, s)
        })"

section \<open>Closing an event\<close>

definition CoreCloseEvent :: "restore_tpl \<Rightarrow> EFI_EVENT \<Rightarrow> ev_state \<Rightarrow> (EFI_STATUS \<times> ev_state) option" where
  "CoreCloseEvent rst UserEvent s =
     (case events s UserEvent of
        None \<Rightarrow> Some (EFI_INVALID_PARAMETER, s)
      | Some Event \<Rightarrow>
        do {
          s \<leftarrow> (if Type Event AND EVT_TIMER \<noteq> 0
               then do { (Status, s) \<leftarrow> CoreSetTimer rst UserEvent TimerCancel 0 s; Some s }
               else Some s);
          s \<leftarrow> CoreAcquireEventLock s;
          let s = s\<lparr>gRuntimeEvents := removeAll UserEvent (gRuntimeEvents s)\<rparr>;
          let s = (if ev_queued s UserEvent then ev_unqueue UserEvent s else s);
          let s = s\<lparr>gEventSignalQueue := removeAll UserEvent (gEventSignalQueue s)\<rparr>;
          s \<leftarrow> CoreReleaseEventLock rst s;
          Event \<leftarrow> events s UserEvent;
          let s = (if ExFlag Event AND EVT_EXFLAG_EVENT_PROTOCOL_NOTIFICATION \<noteq> 0
                   then s\<lparr>unregistered := unregistered s @ [UserEvent]\<rparr> else s);
          Some (EFI_SUCCESS, s\<lparr>events := (events s)(UserEvent := None)\<rparr>)
        })"

section \<open>Notification functions\<close>

text \<open>
  What a driver's notification function may call. \<open>AtTpl\<close> raises the priority around one call.
\<close>

datatype event_call =
    SignalEvent EFI_EVENT
  | CheckEvent EFI_EVENT
  | SetTimer EFI_EVENT UINT32 UINT64
  | CloseEvent EFI_EVENT
  | CreateEventEx UINT32 EFI_TPL "EFI_EVENT_NOTIFY option" "EFI_GUID option"
  | AtTpl EFI_TPL event_call

fun ev_call :: "restore_tpl \<Rightarrow> event_call \<Rightarrow> ev_state \<Rightarrow> (EFI_STATUS \<times> ev_state) option" where
  "ev_call rst (SignalEvent e) s = CoreSignalEvent rst e s"
| "ev_call rst (CheckEvent e) s = CoreCheckEvent rst e s"
| "ev_call rst (SetTimer e ty time) s = CoreSetTimer rst e ty time s"
| "ev_call rst (CloseEvent e) s = CoreCloseEvent rst e s"
| "ev_call rst (CreateEventEx ty level fn grp) s =
     map_option (\<lambda>(st, e, s). (st, s)) (CoreCreateEventEx rst ty level fn grp True s)"
| "ev_call rst (AtTpl level c) s =
     do {
       (OldTpl, s) \<leftarrow> CoreRaiseTpl level s;
       (st, s) \<leftarrow> ev_call rst c s;
       s \<leftarrow> rst OldTpl s;
       Some (st, s)
     }"

text \<open>
  The code of the drivers is a parameter: from the function, the event, the number of calls made so
  far, the status of the last one and the state, to the next call, or \<open>None\<close> to return.
\<close>

type_synonym driver_code = "nat \<Rightarrow> EFI_EVENT \<Rightarrow> nat \<Rightarrow> EFI_STATUS \<Rightarrow> ev_state \<Rightarrow> event_call option"

fun ev_driver :: "nat \<Rightarrow> restore_tpl \<Rightarrow> driver_code \<Rightarrow> nat \<Rightarrow> EFI_EVENT \<Rightarrow> nat \<Rightarrow> EFI_STATUS \<Rightarrow> ev_state \<Rightarrow> ev_state option" where
  "ev_driver 0 rst code f e k st s = None"
| "ev_driver (Suc fuel) rst code f e k st s =
     (case code f e k st s of
        None \<Rightarrow> Some s
      | Some c \<Rightarrow> do { (st, s) \<leftarrow> ev_call rst c s; ev_driver fuel rst code f e (Suc k) st s })"

definition ev_notify :: "nat \<Rightarrow> restore_tpl \<Rightarrow> driver_code \<Rightarrow> EFI_EVENT_NOTIFY \<Rightarrow> EFI_EVENT \<Rightarrow> ev_state \<Rightarrow> ev_state option" where
  "ev_notify fuel rst code Fn e s =
     (case Fn of
        CoreCheckTimersFunction \<Rightarrow> CoreCheckTimers fuel rst s
      | EfiEventEmptyFunction \<Rightarrow> Some s
      | DriverFunction f \<Rightarrow> ev_driver fuel rst code f e 0 EFI_SUCCESS s)"

section \<open>Dispatching\<close>

fun ev_dispatch :: "nat \<Rightarrow> restore_tpl \<Rightarrow> driver_code \<Rightarrow> EFI_TPL \<Rightarrow> ev_state \<Rightarrow> ev_state option" where
  "ev_dispatch 0 rst code Priority s = None"
| "ev_dispatch (Suc fuel) rst code Priority s =
     (case gEventQueue s Priority of
        [] \<Rightarrow> Some s
      | e # Links \<Rightarrow>
        do {
          Event \<leftarrow> events s e;
          let s = s\<lparr>gEventQueue := (gEventQueue s)(Priority := Links)\<rparr>;
          let s = (if Type Event AND EVT_NOTIFY_SIGNAL \<noteq> 0 then ev_update e (\<lambda>ev. ev\<lparr>SignalCount := 0\<rparr>) s else s);
          s \<leftarrow> CoreReleaseEventLock rst s;
          Event \<leftarrow> events s e;
          Fn \<leftarrow> NotifyFunction Event;
          ev_assert (gEfiCurrentTpl s = NotifyTpl Event);
          let s = s\<lparr>notified := notified s @ [(gEfiCurrentTpl s, e)]\<rparr>;
          s \<leftarrow> ev_notify fuel rst code Fn e s;
          s \<leftarrow> CoreAcquireEventLock s;
          ev_dispatch fuel rst code Priority s
        })"

definition CoreDispatchEventNotifies :: "nat \<Rightarrow> restore_tpl \<Rightarrow> driver_code \<Rightarrow> EFI_TPL \<Rightarrow> ev_state \<Rightarrow> ev_state option" where
  "CoreDispatchEventNotifies fuel rst code Priority s =
     do {
       s \<leftarrow> CoreAcquireEventLock s;
       ev_assert (OwnerTpl (locks s EventQueueLock) = Priority);
       s \<leftarrow> ev_dispatch fuel rst code Priority s;
       let s = s\<lparr>gEventPending := gEventPending s AND NOT (push_bit Priority 1)\<rparr>;
       CoreReleaseEventLock rst s
     }"

fun ev_restore_loop :: "nat \<Rightarrow> restore_tpl \<Rightarrow> driver_code \<Rightarrow> EFI_TPL \<Rightarrow> ev_state \<Rightarrow> ev_state option" where
  "ev_restore_loop 0 rst code NewTpl s = None"
| "ev_restore_loop (Suc fuel) rst code NewTpl s =
     (if gEventPending s = 0 then Some s
      else (let PendingTpl = nat (HighBitSet64 (gEventPending s))
            in if PendingTpl \<le> NewTpl then Some s
               else do {
                 let s = s\<lparr>gEfiCurrentTpl := PendingTpl\<rparr>;
                 let s = (if PendingTpl < TPL_HIGH_LEVEL then CoreSetInterruptState True s else s);
                 s \<leftarrow> CoreDispatchEventNotifies fuel rst code PendingTpl s;
                 ev_restore_loop fuel rst code NewTpl s
               }))"

definition ev_restore :: "nat \<Rightarrow> restore_tpl \<Rightarrow> driver_code \<Rightarrow> restore_tpl" where
  "ev_restore fuel rst code NewTpl s =
     do {
       let OldTpl = gEfiCurrentTpl s;
       ev_assert (\<not> NewTpl > OldTpl);
       ev_assert (VALID_TPL NewTpl);
       let s = (if OldTpl \<ge> TPL_HIGH_LEVEL \<and> NewTpl < TPL_HIGH_LEVEL then s\<lparr>gEfiCurrentTpl := TPL_HIGH_LEVEL\<rparr> else s);
       s \<leftarrow> ev_restore_loop fuel rst code NewTpl s;
       let s = s\<lparr>gEfiCurrentTpl := NewTpl\<rparr>;
       Some (if NewTpl < TPL_HIGH_LEVEL then CoreSetInterruptState True s else s)
     }"

fun CoreRestoreTpl :: "driver_code \<Rightarrow> nat \<Rightarrow> restore_tpl" where
  "CoreRestoreTpl code 0 NewTpl s = None"
| "CoreRestoreTpl code (Suc fuel) NewTpl s = ev_restore fuel (CoreRestoreTpl code fuel) code NewTpl s"

section \<open>Waiting\<close>

text \<open>The first event of the array, from \<open>Index\<close> on, that is not merely unsignalled.\<close>

fun ev_check_all :: "restore_tpl \<Rightarrow> EFI_EVENT list \<Rightarrow> nat \<Rightarrow> ev_state \<Rightarrow> ((EFI_STATUS \<times> nat) option \<times> ev_state) option" where
  "ev_check_all rst [] Index s = Some (None, s)"
| "ev_check_all rst (e # UserEvents) Index s =
     do {
       (Status, s) \<leftarrow> CoreCheckEvent rst e s;
       if Status \<noteq> EFI_NOT_READY then Some (Some (Status, Index), s)
       else ev_check_all rst UserEvents (Suc Index) s
     }"

text \<open>
  \<open>idle\<close> is what happens at the end of a round: pending events are processed, or the processor
  sleeps until an interrupt, whose handler changes the state. \<open>UserEvents\<close> is \<open>None\<close> for \<open>NULL\<close>.
\<close>

fun ev_wait_loop ::
  "nat \<Rightarrow> restore_tpl \<Rightarrow> (ev_state \<Rightarrow> ev_state option) \<Rightarrow> EFI_EVENT list \<Rightarrow> ev_state \<Rightarrow>
   (EFI_STATUS \<times> nat option \<times> ev_state) option"
where
  "ev_wait_loop 0 rst idle UserEvents s = None"
| "ev_wait_loop (Suc fuel) rst idle UserEvents s =
     do {
       (r, s) \<leftarrow> ev_check_all rst UserEvents 0 s;
       (case r of
          Some (Status, Index) \<Rightarrow> Some (Status, Some Index, s)
        | None \<Rightarrow> do { s \<leftarrow> idle s; ev_wait_loop fuel rst idle UserEvents s })
     }"

definition CoreWaitForEventInternal ::
  "nat \<Rightarrow> restore_tpl \<Rightarrow> (ev_state \<Rightarrow> ev_state option) \<Rightarrow> EFI_EVENT list option \<Rightarrow> nat \<Rightarrow> ev_state \<Rightarrow>
   (EFI_STATUS \<times> nat option \<times> ev_state) option"
where
  "CoreWaitForEventInternal fuel rst idle UserEvents NumberOfEvents s =
     (if NumberOfEvents = 0 then Some (EFI_INVALID_PARAMETER, None, s)
      else (case UserEvents of
              None \<Rightarrow> Some (EFI_INVALID_PARAMETER, None, s)
            | Some es \<Rightarrow> ev_wait_loop fuel rst idle (take NumberOfEvents es) s))"

definition CoreWaitForEvent ::
  "nat \<Rightarrow> restore_tpl \<Rightarrow> (ev_state \<Rightarrow> ev_state option) \<Rightarrow> EFI_EVENT list option \<Rightarrow> nat \<Rightarrow> ev_state \<Rightarrow>
   (EFI_STATUS \<times> nat option \<times> ev_state) option"
where
  "CoreWaitForEvent fuel rst idle UserEvents NumberOfEvents s =
     (if gEfiCurrentTpl s \<noteq> TPL_APPLICATION then Some (EFI_UNSUPPORTED, None, s)
      else CoreWaitForEventInternal fuel rst idle UserEvents NumberOfEvents s)"

section \<open>Start-up\<close>

definition ev_initial :: "UINT64 \<Rightarrow> (nat \<Rightarrow> bool) \<Rightarrow> ev_state" where
  "ev_initial period ok =
     \<lparr>gEfiCurrentTpl = TPL_APPLICATION,
      locks = (\<lambda>L. case L of
         EventQueueLock \<Rightarrow> \<lparr>Tpl = TPL_HIGH_LEVEL, OwnerTpl = TPL_APPLICATION, Lock = EfiLockReleased\<rparr>
       | TimerLock \<Rightarrow> \<lparr>Tpl = TPL_HIGH_LEVEL - 1, OwnerTpl = TPL_APPLICATION, Lock = EfiLockReleased\<rparr>
       | SystemTimeLock \<Rightarrow> \<lparr>Tpl = TPL_HIGH_LEVEL, OwnerTpl = TPL_APPLICATION, Lock = EfiLockReleased\<rparr>),
      gEventQueue = (\<lambda>_. []), gEventPending = 0, gEventSignalQueue = [], gRuntimeEvents = [],
      mEfiTimerList = [], mEfiSystemTime = 0, mEfiCheckTimerEvent = 0, gIdleLoopEvent = 0,
      gTimerPeriod = period, events = (\<lambda>_. None), next_event = 1, pool_ok = ok,
      interrupts = False, gCpu = False, gSmmBase2 = None, notified = [], unregistered = []\<rparr>"

definition CoreInitializeTimer :: "restore_tpl \<Rightarrow> ev_state \<Rightarrow> ev_state option" where
  "CoreInitializeTimer rst s =
     do {
       (Status, Event, s) \<leftarrow> CoreCreateEventInternal rst EVT_NOTIFY_SIGNAL (TPL_HIGH_LEVEL - 1)
          (Some CoreCheckTimersFunction) None True s;
       ev_assert (\<not> EFI_ERROR Status);
       Some (s\<lparr>mEfiCheckTimerEvent := (case Event of None \<Rightarrow> mEfiCheckTimerEvent s | Some e \<Rightarrow> e)\<rparr>)
     }"

definition CoreInitializeEventServices :: "restore_tpl \<Rightarrow> ev_state \<Rightarrow> (EFI_STATUS \<times> ev_state) option" where
  "CoreInitializeEventServices rst s =
     do {
       let s = s\<lparr>gEventQueue := (\<lambda>_. [])\<rparr>;
       s \<leftarrow> CoreInitializeTimer rst s;
       (Status, Event, s) \<leftarrow> CoreCreateEventEx rst EVT_NOTIFY_SIGNAL TPL_NOTIFY (Some EfiEventEmptyFunction)
          (Some gIdleLoopEventGuid) True s;
       Some (EFI_SUCCESS, s\<lparr>gIdleLoopEvent := (case Event of None \<Rightarrow> gIdleLoopEvent s | Some e \<Rightarrow> e)\<rparr>)
     }"

end
