(* ===== verification/Event_Inv.thy ===== *)
theory Event_Inv
  imports Event_Core
begin

text \<open>
  The invariant of the event database and its preservation by the operations on the lists: an event
  is queued at most once, at its own priority, only with a notification function, and the pending
  mask covers every queue that is not empty; the timer list is in order of trigger time.
\<close>

section \<open>The invariant\<close>

definition ev_valid :: "IEVENT \<Rightarrow> bool" where
  "ev_valid ev \<longleftrightarrow>
     (Type ev AND (EVT_NOTIFY_WAIT OR EVT_NOTIFY_SIGNAL) \<noteq> 0 \<longrightarrow>
        NotifyFunction ev \<noteq> None \<and> NotifyTpl ev < TPL_HIGH_LEVEL)"

definition ev_notifies :: "IEVENT \<Rightarrow> bool" where
  "ev_notifies ev \<longleftrightarrow> Type ev AND (EVT_NOTIFY_WAIT OR EVT_NOTIFY_SIGNAL) \<noteq> 0"

definition ev_queues_ok :: "ev_state \<Rightarrow> bool" where
  "ev_queues_ok s \<longleftrightarrow>
     (\<forall>p. distinct (gEventQueue s p)) \<and>
     (\<forall>p. \<forall>e \<in> set (gEventQueue s p). \<exists>ev. events s e = Some ev \<and> NotifyTpl ev = p \<and> ev_notifies ev) \<and>
     (\<forall>p. gEventQueue s p \<noteq> [] \<longrightarrow> bit (gEventPending s) p) \<and>
     (\<forall>p. bit (gEventPending s) p \<longrightarrow> p < TPL_HIGH_LEVEL)"

definition ev_timers_ok :: "ev_state \<Rightarrow> bool" where
  "ev_timers_ok s \<longleftrightarrow>
     distinct (mEfiTimerList s) \<and>
     (\<forall>e \<in> set (mEfiTimerList s). \<exists>ev. events s e = Some ev \<and> Type ev AND EVT_TIMER \<noteq> 0) \<and>
     sorted_wrt (\<lambda>a b. ev_time s a \<le> ev_time s b) (mEfiTimerList s)"

definition ev_inv :: "ev_state \<Rightarrow> bool" where
  "ev_inv s \<longleftrightarrow>
     ev_queues_ok s \<and> ev_timers_ok s \<and>
     (\<forall>e ev. events s e = Some ev \<longrightarrow> ev_valid ev \<and> e < next_event s) \<and>
     distinct (gEventSignalQueue s) \<and>
     (\<forall>e \<in> set (gEventSignalQueue s). \<exists>ev. events s e = Some ev \<and> Type ev AND EVT_NOTIFY_SIGNAL \<noteq> 0) \<and>
     Tpl (locks s EventQueueLock) = TPL_HIGH_LEVEL \<and> Tpl (locks s TimerLock) = TPL_HIGH_LEVEL - 1 \<and>
     Tpl (locks s SystemTimeLock) = TPL_HIGH_LEVEL"

lemmas ev_inv_defs = ev_inv_def ev_queues_ok_def ev_timers_ok_def

lemma ev_notifies_signal: "Type ev AND EVT_NOTIFY_SIGNAL \<noteq> 0 \<Longrightarrow> ev_notifies ev"
  by (auto simp: ev_notifies_def bit.conj_disj_distrib or_eq_0_iff)

lemma ev_notifies_wait: "Type ev AND EVT_NOTIFY_WAIT \<noteq> 0 \<Longrightarrow> ev_notifies ev"
  by (auto simp: ev_notifies_def bit.conj_disj_distrib or_eq_0_iff)

lemma ev_validD: "ev_inv s \<Longrightarrow> events s e = Some ev \<Longrightarrow> ev_notifies ev \<Longrightarrow> NotifyFunction ev \<noteq> None \<and> NotifyTpl ev < TPL_HIGH_LEVEL"
  by (auto simp: ev_inv_def ev_valid_def ev_notifies_def)

text \<open>Parts of the state the invariant does not look at.\<close>

lemma ev_inv_frame [simp]:
  "ev_inv (s\<lparr>gEfiCurrentTpl := t\<rparr>) = ev_inv s"
  "ev_inv (s\<lparr>interrupts := i\<rparr>) = ev_inv s"
  "ev_inv (s\<lparr>notified := n\<rparr>) = ev_inv s"
  "ev_inv (s\<lparr>unregistered := us\<rparr>) = ev_inv s"
  "ev_inv (s\<lparr>mEfiSystemTime := st\<rparr>) = ev_inv s"
  "ev_inv (s\<lparr>gRuntimeEvents := rs\<rparr>) = ev_inv s"
  by (simp_all add: ev_inv_defs ev_time_def [abs_def])

lemma CoreSetInterruptState_frame [simp]:
  "ev_inv (CoreSetInterruptState b s) = ev_inv s"
  "gEfiCurrentTpl (CoreSetInterruptState b s) = gEfiCurrentTpl s"
  "locks (CoreSetInterruptState b s) = locks s"
  "gEventQueue (CoreSetInterruptState b s) = gEventQueue s"
  "gEventPending (CoreSetInterruptState b s) = gEventPending s"
  "gEventSignalQueue (CoreSetInterruptState b s) = gEventSignalQueue s"
  "mEfiTimerList (CoreSetInterruptState b s) = mEfiTimerList s"
  "mEfiSystemTime (CoreSetInterruptState b s) = mEfiSystemTime s"
  "mEfiCheckTimerEvent (CoreSetInterruptState b s) = mEfiCheckTimerEvent s"
  "events (CoreSetInterruptState b s) = events s"
  "notified (CoreSetInterruptState b s) = notified s"
  by (simp_all add: CoreSetInterruptState_def split: option.splits)

lemma ev_inv_locks:
  assumes "\<And>L. Tpl (ls L) = Tpl (locks s L)"
  shows "ev_inv (s\<lparr>locks := ls\<rparr>) = ev_inv s"
  using assms by (simp add: ev_inv_defs ev_time_def [abs_def])

section \<open>Operations on the lists\<close>

lemma ev_inv_queue_update:
  "ev_inv s \<Longrightarrow> ev_queues_ok (s\<lparr>gEventQueue := q, gEventPending := b\<rparr>) \<Longrightarrow> ev_inv (s\<lparr>gEventQueue := q, gEventPending := b\<rparr>)"
  by (simp add: ev_inv_def ev_timers_ok_def ev_time_def [abs_def])

lemma ev_queues_okD:
  assumes "ev_inv s"
  shows "distinct (gEventQueue s p)"
    and "e \<in> set (gEventQueue s p) \<Longrightarrow> \<exists>ev. events s e = Some ev \<and> NotifyTpl ev = p \<and> ev_notifies ev"
    and "gEventQueue s p \<noteq> [] \<Longrightarrow> bit (gEventPending s) p"
    and "bit (gEventPending s) p \<Longrightarrow> p < TPL_HIGH_LEVEL"
  using assms by (auto simp: ev_inv_def ev_queues_ok_def)

lemma ev_queued_iff:
  assumes "ev_inv s"
  shows "ev_queued s e \<longleftrightarrow> (\<exists>p. e \<in> set (gEventQueue s p))"
proof -
  have "p < Suc TPL_HIGH_LEVEL" if "e \<in> set (gEventQueue s p)" for p
    using ev_queues_okD(3,4) [OF assms, of p] that by (cases "gEventQueue s p") auto
  then show ?thesis unfolding ev_queued_def list_ex_iff by (metis atLeastLessThan_iff set_upt zero_le)
qed

lemma removeAll_neq_Nil: "removeAll e xs \<noteq> [] \<Longrightarrow> xs \<noteq> []"
  by auto

lemma ev_unqueue_inv:
  assumes "ev_inv s"
  shows "ev_inv (ev_unqueue e s)"
proof -
  have "ev_queues_ok (s\<lparr>gEventQueue := (\<lambda>p. removeAll e (gEventQueue s p)), gEventPending := gEventPending s\<rparr>)"
    using ev_queues_okD [OF assms] removeAll_neq_Nil [of e] by (auto simp: ev_queues_ok_def distinct_removeAll)
  from ev_inv_queue_update [OF assms this] show ?thesis by (simp add: ev_unqueue_def)
qed

lemma bit_or_exp: "bit (x OR 2 ^ n :: UINTN) m \<longleftrightarrow> bit x m \<or> m = n \<and> n < 64"
  by (auto simp: bit_or_iff bit_exp_iff)

lemma bit_and_not_exp: "bit (x AND NOT (2 ^ n) :: UINTN) m \<longleftrightarrow> bit x m \<and> m \<noteq> n"
  by (auto simp: bit_and_iff bit_not_iff bit_exp_iff dest: bit_imp_le_length)

lemma ev_unqueue_queued:
  assumes "ev_inv s"
  shows "(if ev_queued s e then ev_unqueue e s else s) = s\<lparr>gEventQueue := (\<lambda>p. removeAll e (gEventQueue s p))\<rparr>"
proof (cases "ev_queued s e")
  case False
  then have "(\<lambda>p. removeAll e (gEventQueue s p)) = gEventQueue s"
    using ev_queued_iff [OF assms] by (auto simp: removeAll_id)
  with False show ?thesis by simp
qed (simp add: ev_unqueue_def)

lemma CoreNotifyEvent_inv:
  assumes inv: "ev_inv s" and n: "CoreNotifyEvent e s = Some s'" and ev: "events s e = Some ev" "ev_notifies ev"
  shows "ev_inv s'" "events s' = events s" "locks s' = locks s" "gEfiCurrentTpl s' = gEfiCurrentTpl s"
    "notified s' = notified s" "gEventSignalQueue s' = gEventSignalQueue s"
    "mEfiTimerList s' = mEfiTimerList s"
    "\<And>p. bit (gEventPending s') p \<longleftrightarrow> bit (gEventPending s) p \<or> p = NotifyTpl ev"
proof -
  have lt: "NotifyTpl ev < TPL_HIGH_LEVEL" using ev_validD [OF inv ev] by simp
  let ?q = "\<lambda>p. removeAll e (gEventQueue s p)"
  have s': "s' = s\<lparr>gEventQueue := ?q(NotifyTpl ev := ?q (NotifyTpl ev) @ [e]),
      gEventPending := gEventPending s OR push_bit (NotifyTpl ev) 1\<rparr>"
    using n ev unfolding CoreNotifyEvent_def ev_unqueue_queued [OF inv]
    by (simp add: ev_assert_def split: if_splits)
  show bits: "bit (gEventPending s') p \<longleftrightarrow> bit (gEventPending s) p \<or> p = NotifyTpl ev" for p
    using lt by (auto simp: s' bit_or_exp)
  show "events s' = events s" "locks s' = locks s" "gEfiCurrentTpl s' = gEfiCurrentTpl s"
    "notified s' = notified s" "gEventSignalQueue s' = gEventSignalQueue s" "mEfiTimerList s' = mEfiTimerList s"
    by (simp_all add: s')
  have q: "gEventQueue s' = ?q(NotifyTpl ev := ?q (NotifyTpl ev) @ [e])" "events s' = events s" by (simp_all add: s')
  have "ev_queues_ok s'"
    unfolding ev_queues_ok_def bits q
  proof (intro conjI allI ballI impI)
    fix p
    show "distinct ((?q(NotifyTpl ev := ?q (NotifyTpl ev) @ [e])) p)"
      by (simp add: ev_queues_okD(1) [OF inv] distinct_removeAll)
    show "\<exists>ev. events s e' = Some ev \<and> NotifyTpl ev = p \<and> ev_notifies ev"
      if "e' \<in> set ((?q(NotifyTpl ev := ?q (NotifyTpl ev) @ [e])) p)" for e'
      using that ev ev_queues_okD(2) [OF inv, of e' p] by (cases "p = NotifyTpl ev"; cases "e' = e") auto
    show "bit (gEventPending s) p \<or> p = NotifyTpl ev" if "(?q(NotifyTpl ev := ?q (NotifyTpl ev) @ [e])) p \<noteq> []"
      using that ev_queues_okD(3) [OF inv, of p] removeAll_neq_Nil [of e "gEventQueue s p"]
      by (cases "p = NotifyTpl ev") auto
    show "p < TPL_HIGH_LEVEL" if "bit (gEventPending s) p \<or> p = NotifyTpl ev"
      using that lt ev_queues_okD(4) [OF inv, of p] by auto
  qed
  with ev_inv_queue_update [OF inv] show "ev_inv s'" by (simp add: s')
qed

text \<open>The fields of an event the invariant looks at.\<close>

lemma ev_timers_okD:
  assumes "ev_inv s"
  shows "distinct (mEfiTimerList s)"
    and "e \<in> set (mEfiTimerList s) \<Longrightarrow> \<exists>ev. events s e = Some ev \<and> Type ev AND EVT_TIMER \<noteq> 0"
    and "sorted_wrt (\<lambda>a b. ev_time s a \<le> ev_time s b) (mEfiTimerList s)"
  using assms by (auto simp: ev_inv_def ev_timers_ok_def)

lemma ev_signalsD:
  assumes "ev_inv s"
  shows "distinct (gEventSignalQueue s)"
    and "e \<in> set (gEventSignalQueue s) \<Longrightarrow> \<exists>ev. events s e = Some ev \<and> Type ev AND EVT_NOTIFY_SIGNAL \<noteq> 0"
    and "events s e = Some ev \<Longrightarrow> ev_valid ev \<and> e < next_event s"
    and "Tpl (locks s EventQueueLock) = TPL_HIGH_LEVEL" "Tpl (locks s TimerLock) = TPL_HIGH_LEVEL - 1"
    and "Tpl (locks s SystemTimeLock) = TPL_HIGH_LEVEL"
  using assms by (auto simp: ev_inv_def)

lemma sorted_wrt_cong_set: "(\<And>a b. a \<in> set xs \<Longrightarrow> b \<in> set xs \<Longrightarrow> P a b = Q a b) \<Longrightarrow> sorted_wrt P xs = sorted_wrt Q xs"
  by (induction xs) auto

lemma ev_time_update:
  "ev_time (ev_update e f s) a = (if a = e then (case events s e of None \<Rightarrow> 0 | Some ev \<Rightarrow> TriggerTime (f ev)) else ev_time s a)"
  by (auto simp: ev_time_def ev_update_def split: option.splits)

lemma ev_update_frame [simp]:
  "gEfiCurrentTpl (ev_update e f s) = gEfiCurrentTpl s"
  "locks (ev_update e f s) = locks s"
  "gEventQueue (ev_update e f s) = gEventQueue s"
  "gEventPending (ev_update e f s) = gEventPending s"
  "gEventSignalQueue (ev_update e f s) = gEventSignalQueue s"
  "mEfiTimerList (ev_update e f s) = mEfiTimerList s"
  "mEfiSystemTime (ev_update e f s) = mEfiSystemTime s"
  "mEfiCheckTimerEvent (ev_update e f s) = mEfiCheckTimerEvent s"
  "next_event (ev_update e f s) = next_event s"
  "notified (ev_update e f s) = notified s"
  "events (ev_update e f s) = (events s)(e := map_option f (events s e))"
  by (simp_all add: ev_update_def)

lemma ev_update_inv:
  assumes inv: "ev_inv s"
    and f: "\<And>ev. Type (f ev) = Type ev" "\<And>ev. NotifyTpl (f ev) = NotifyTpl ev"
      "\<And>ev. NotifyFunction (f ev) = NotifyFunction ev"
    and t: "e \<in> set (mEfiTimerList s) \<Longrightarrow> (\<And>ev. TriggerTime (f ev) = TriggerTime ev)"
  shows "ev_inv (ev_update e f s)"
proof -
  have ty: "\<exists>ev. (events (ev_update e f s)) a = Some ev \<and> P (Type ev) (NotifyTpl ev)"
    if "\<exists>ev. events s a = Some ev \<and> P (Type ev) (NotifyTpl ev)" for a P
    using that f by (cases "a = e") auto
  have "ev_queues_ok (ev_update e f s)"
    unfolding ev_queues_ok_def
    using ev_queues_okD [OF inv] ty [where P = "\<lambda>ty p. p = _ \<and> ty AND (EVT_NOTIFY_WAIT OR EVT_NOTIFY_SIGNAL) \<noteq> 0"]
    by (simp add: ev_notifies_def)
  moreover have "sorted_wrt (\<lambda>a b. ev_time (ev_update e f s) a \<le> ev_time (ev_update e f s) b) (mEfiTimerList s)"
  proof -
    have same: "ev_time (ev_update e f s) a = ev_time s a" if "a \<in> set (mEfiTimerList s)" for a
      using that t by (auto simp: ev_time_update ev_time_def split: option.splits)
    show ?thesis using ev_timers_okD(3) [OF inv] same by (subst sorted_wrt_cong_set [where Q = "\<lambda>a b. ev_time s a \<le> ev_time s b"]) auto
  qed
  then have "ev_timers_ok (ev_update e f s)"
    using ev_timers_okD(1,2) [OF inv] ty [where P = "\<lambda>ty p. ty AND EVT_TIMER \<noteq> 0"] by (simp add: ev_timers_ok_def)
  moreover have "ev_valid ev \<and> a < next_event s" if "events (ev_update e f s) a = Some ev" for a ev
    using that ev_signalsD(3) [OF inv, of a] f by (cases "a = e") (auto simp: ev_valid_def)
  ultimately show ?thesis
    unfolding ev_inv_def
    using ev_signalsD(1,2,4,5,6) [OF inv] ty [where P = "\<lambda>ty p. ty AND EVT_NOTIFY_SIGNAL \<noteq> 0"] by simp
qed

text \<open>The timer list.\<close>

lemma ev_inv_timer_list:
  assumes "ev_inv s" and "ev_timers_ok (s\<lparr>mEfiTimerList := ts\<rparr>)"
  shows "ev_inv (s\<lparr>mEfiTimerList := ts\<rparr>)"
  using assms by (simp add: ev_inv_def ev_queues_ok_def)

lemma sorted_wrt_removeAll: "sorted_wrt P xs \<Longrightarrow> sorted_wrt P (removeAll e xs)"
  by (induction xs) auto

lemma ev_remove_timer_inv:
  assumes "ev_inv s"
  shows "ev_inv (s\<lparr>mEfiTimerList := removeAll e (mEfiTimerList s)\<rparr>)"
  by (rule ev_inv_timer_list [OF assms])
    (use ev_timers_okD [OF assms] in \<open>auto simp: ev_timers_ok_def distinct_removeAll sorted_wrt_removeAll ev_time_def [abs_def]\<close>)

lemma ev_expire_timer_inv:
  assumes "ev_inv s" "mEfiTimerList s = e # Links"
  shows "ev_inv (s\<lparr>mEfiTimerList := Links\<rparr>)" "e \<notin> set Links"
proof -
  have "removeAll e (mEfiTimerList s) = Links" using ev_timers_okD(1) [OF assms(1)] assms(2) by (simp add: removeAll_id)
  with ev_remove_timer_inv [OF assms(1), of e] show "ev_inv (s\<lparr>mEfiTimerList := Links\<rparr>)" by simp
  show "e \<notin> set Links" using ev_timers_okD(1) [OF assms(1)] assms(2) by simp
qed

lemma set_ev_insert_timer [simp]: "set (ev_insert_timer time e xs) = insert e (set xs)"
  by (induction xs) auto

lemma distinct_ev_insert_timer: "distinct (ev_insert_timer time e xs) \<longleftrightarrow> distinct xs \<and> e \<notin> set xs"
  by (induction xs) auto

lemma sorted_ev_insert_timer:
  fixes time :: "EFI_EVENT \<Rightarrow> UINT64"
  shows "sorted_wrt (\<lambda>a b. time a \<le> time b) xs \<Longrightarrow> sorted_wrt (\<lambda>a b. time a \<le> time b) (ev_insert_timer time e xs)"
proof (induction xs)
  case (Cons x xs)
  show ?case
  proof (cases "time x > time e")
    case True
    then have "time e \<le> time b" if "b \<in> set (x # xs)" for b
      using that Cons.prems by (auto intro: order.trans [of _ "time x"])
    with True Cons.prems show ?thesis by simp
  qed (use Cons in auto)
qed simp

lemma CoreInsertEventTimer_inv:
  assumes inv: "ev_inv s" and i: "CoreInsertEventTimer e s = Some s'" and e: "e \<notin> set (mEfiTimerList s)"
    and ev: "events s e = Some ev" "Type ev AND EVT_TIMER \<noteq> 0"
  shows "ev_inv s'" "s' = s\<lparr>mEfiTimerList := ev_insert_timer (ev_time s) e (mEfiTimerList s)\<rparr>"
proof -
  show s': "s' = s\<lparr>mEfiTimerList := ev_insert_timer (ev_time s) e (mEfiTimerList s)\<rparr>"
    using i by (simp add: CoreInsertEventTimer_def ev_assert_def split: if_splits)
  have t: "ev_time (s\<lparr>mEfiTimerList := ts\<rparr>) = ev_time s" for ts by (simp add: ev_time_def [abs_def])
  have "ev_timers_ok (s\<lparr>mEfiTimerList := ev_insert_timer (ev_time s) e (mEfiTimerList s)\<rparr>)"
    unfolding ev_timers_ok_def t
    using ev_timers_okD [OF inv] e ev by (simp add: distinct_ev_insert_timer sorted_ev_insert_timer)
  from ev_inv_timer_list [OF inv this] show "ev_inv s'" unfolding s' .
qed

text \<open>Taking the first event off a queue, and clearing the bit of an empty queue.\<close>

lemma ev_dequeue_inv:
  assumes inv: "ev_inv s" and q: "gEventQueue s p = e # Links"
  shows "ev_inv (s\<lparr>gEventQueue := (gEventQueue s)(p := Links)\<rparr>)"
proof -
  have "ev_queues_ok (s\<lparr>gEventQueue := (gEventQueue s)(p := Links), gEventPending := gEventPending s\<rparr>)"
    using ev_queues_okD [OF inv] ev_queues_okD(1-3) [OF inv, of p] ev_queues_okD(2) [OF inv, of _ p] q
    by (auto simp: ev_queues_ok_def)
  from ev_inv_queue_update [OF inv this] show ?thesis by simp
qed

lemma ev_clear_pending_inv:
  assumes inv: "ev_inv s" and q: "gEventQueue s p = []"
  shows "ev_inv (s\<lparr>gEventPending := gEventPending s AND NOT (push_bit p 1)\<rparr>)"
proof -
  have "ev_queues_ok (s\<lparr>gEventQueue := gEventQueue s, gEventPending := gEventPending s AND NOT (2 ^ p)\<rparr>)"
    using ev_queues_okD [OF inv] q by (auto simp: ev_queues_ok_def bit_and_not_exp)
  from ev_inv_queue_update [OF inv this] show ?thesis by simp
qed

text \<open>Events that are created and closed.\<close>

lemma ev_create_inv:
  assumes inv: "ev_inv s" and v: "ev_valid ev"
  shows "ev_inv (s\<lparr>next_event := Suc (next_event s), events := (events s)(next_event s := Some ev)\<rparr>)"
    (is "ev_inv ?s")
proof -
  have fresh: "events s (next_event s) = None" using ev_signalsD(3) [OF inv, of "next_event s"] by (cases "events s (next_event s)") auto
  have old: "\<exists>ev'. events ?s a = Some ev' \<and> P ev'" if "\<exists>ev'. events s a = Some ev' \<and> P ev'" for a P
    using that fresh by (cases "a = next_event s") auto
  have "ev_queues_ok ?s"
    unfolding ev_queues_ok_def using ev_queues_okD [OF inv] old [where P = "\<lambda>ev. NotifyTpl ev = _ \<and> ev_notifies ev"] by simp
  moreover have same: "ev_time ?s a = ev_time s a" if "a \<in> set (mEfiTimerList s)" for a
    using ev_timers_okD(2) [OF inv that] fresh by (auto simp: ev_time_def)
  have "sorted_wrt (\<lambda>a b. ev_time ?s a \<le> ev_time ?s b) (mEfiTimerList s)"
    using ev_timers_okD(3) [OF inv] same by (subst sorted_wrt_cong_set [where Q = "\<lambda>a b. ev_time s a \<le> ev_time s b"]) auto
  then have "ev_timers_ok ?s"
    using ev_timers_okD(1,2) [OF inv] old [where P = "\<lambda>ev. Type ev AND EVT_TIMER \<noteq> 0"] by (simp add: ev_timers_ok_def)
  moreover have "ev_valid ev' \<and> a < next_event ?s" if "events ?s a = Some ev'" for a ev'
    using that ev_signalsD(3) [OF inv, of a] v by (cases "a = next_event s") (auto simp: less_Suc_eq)
  ultimately show ?thesis
    unfolding ev_inv_def
    using ev_signalsD(1,2,4,5,6) [OF inv] old [where P = "\<lambda>ev. Type ev AND EVT_NOTIFY_SIGNAL \<noteq> 0"] by simp
qed

lemma ev_inv_next_event: "ev_inv s \<Longrightarrow> ev_inv (s\<lparr>next_event := Suc (next_event s)\<rparr>)"
  by (auto simp: ev_inv_defs ev_time_def [abs_def] intro: less_SucI)

lemma ev_signal_queue_inv:
  assumes "ev_inv s" "events s e = Some ev" "Type ev AND EVT_NOTIFY_SIGNAL \<noteq> 0" "e \<notin> set (gEventSignalQueue s)"
  shows "ev_inv (s\<lparr>gEventSignalQueue := e # gEventSignalQueue s\<rparr>)"
  using assms by (auto simp: ev_inv_defs ev_time_def [abs_def])

lemma ev_unsignal_inv:
  assumes "ev_inv s"
  shows "ev_inv (s\<lparr>gEventSignalQueue := removeAll e (gEventSignalQueue s)\<rparr>)"
  using assms by (auto simp: ev_inv_defs ev_time_def [abs_def] distinct_removeAll)

lemma ev_close_inv:
  assumes inv: "ev_inv s" and "\<And>p. e \<notin> set (gEventQueue s p)" "e \<notin> set (mEfiTimerList s)" "e \<notin> set (gEventSignalQueue s)"
  shows "ev_inv (s\<lparr>events := (events s)(e := None)\<rparr>)" (is "ev_inv ?s")
proof -
  have old: "\<exists>ev'. events ?s a = Some ev' \<and> P ev'" if "\<exists>ev'. events s a = Some ev' \<and> P ev'" "a \<noteq> e" for a P
    using that by auto
  have ne: "a \<noteq> e" if "a \<in> set (gEventQueue s p) \<or> a \<in> set (mEfiTimerList s) \<or> a \<in> set (gEventSignalQueue s)" for a p
    using that assms by auto
  have "ev_queues_ok ?s"
    unfolding ev_queues_ok_def
    using ev_queues_okD [OF inv] old [where P = "\<lambda>ev. NotifyTpl ev = _ \<and> ev_notifies ev"] assms(2)
    by (simp) blast
  moreover have "sorted_wrt (\<lambda>a b. ev_time ?s a \<le> ev_time ?s b) (mEfiTimerList s)"
    using ev_timers_okD(3) [OF inv] ne
    by (subst sorted_wrt_cong_set [where Q = "\<lambda>a b. ev_time s a \<le> ev_time s b"]) (auto simp: ev_time_def)
  then have "ev_timers_ok ?s"
    using ev_timers_okD(1,2) [OF inv] old [where P = "\<lambda>ev. Type ev AND EVT_TIMER \<noteq> 0"] ne by (simp add: ev_timers_ok_def)
  moreover have "ev_valid ev' \<and> a < next_event ?s" if "events ?s a = Some ev'" for a ev'
    using that ev_signalsD(3) [OF inv, of a] by (cases "a = e") auto
  ultimately show ?thesis
    unfolding ev_inv_def
    using ev_signalsD(1,2,4,5,6) [OF inv] old [where P = "\<lambda>ev. Type ev AND EVT_NOTIFY_SIGNAL \<noteq> 0"] ne by simp
qed

end
