(* ===== verification/Event_Services.thy ===== *)
theory Event_Services
  imports Event_Inv
begin

text \<open>
  The contract of lowering the task priority, as an interface: the services of the event database
  rely on it, and each of them is shown to keep the same contract at the caller's priority.
  \<open>CoreRestoreTpl\<close> is shown to implement it, for every code of the drivers and every fuel.
\<close>

section \<open>The contract\<close>

text \<open>No event above the priority is pending.\<close>

definition ev_quiet :: "EFI_TPL \<Rightarrow> ev_state \<Rightarrow> bool" where
  "ev_quiet t s \<longleftrightarrow> (\<forall>p. bit (gEventPending s) p \<longrightarrow> p \<le> t)"

text \<open>The priority lowered, with nothing to notify.\<close>

definition ev_lowered :: "EFI_TPL \<Rightarrow> ev_state \<Rightarrow> ev_state" where
  "ev_lowered t s = (if t < TPL_HIGH_LEVEL then CoreSetInterruptState True (s\<lparr>gEfiCurrentTpl := t\<rparr>) else s\<lparr>gEfiCurrentTpl := t\<rparr>)"

text \<open>The locks are as they were; the owner matters only while a lock is held.\<close>

definition ev_locks_same :: "ev_state \<Rightarrow> ev_state \<Rightarrow> bool" where
  "ev_locks_same s s' \<longleftrightarrow>
     (\<forall>L. Lock (locks s' L) = Lock (locks s L) \<and>
          (Lock (locks s L) = EfiLockAcquired \<longrightarrow> OwnerTpl (locks s' L) = OwnerTpl (locks s L)))"

definition ev_preempted :: "EFI_TPL \<Rightarrow> ev_state \<Rightarrow> ev_state \<Rightarrow> bool" where
  "ev_preempted t s s' \<longleftrightarrow> (\<exists>ns. notified s' = notified s @ ns \<and> (\<forall>(p, e) \<in> set ns. t < p))"

definition ev_step :: "EFI_TPL \<Rightarrow> ev_state \<Rightarrow> ev_state \<Rightarrow> bool" where
  "ev_step t s s' \<longleftrightarrow>
     ev_inv s' \<and> gEfiCurrentTpl s' = t \<and> ev_quiet t s' \<and> ev_locks_same s s' \<and> ev_preempted t s s'"

lemma ev_lowered_frame [simp]:
  "ev_inv (ev_lowered t s) = ev_inv s"
  "gEfiCurrentTpl (ev_lowered t s) = t"
  "locks (ev_lowered t s) = locks s"
  "gEventQueue (ev_lowered t s) = gEventQueue s"
  "gEventPending (ev_lowered t s) = gEventPending s"
  "gEventSignalQueue (ev_lowered t s) = gEventSignalQueue s"
  "mEfiTimerList (ev_lowered t s) = mEfiTimerList s"
  "mEfiSystemTime (ev_lowered t s) = mEfiSystemTime s"
  "mEfiCheckTimerEvent (ev_lowered t s) = mEfiCheckTimerEvent s"
  "events (ev_lowered t s) = events s"
  "notified (ev_lowered t s) = notified s"
  by (simp_all add: ev_lowered_def)

lemma ev_locks_same_refl [simp]: "ev_locks_same s s"
  by (simp add: ev_locks_same_def)

lemma ev_preempted_refl [simp]: "ev_preempted t s s"
  by (simp add: ev_preempted_def)

lemma ev_locks_same_trans: "ev_locks_same s s1 \<Longrightarrow> ev_locks_same s1 s2 \<Longrightarrow> ev_locks_same s s2"
  by (simp add: ev_locks_same_def)

lemma ev_preempted_trans:
  assumes "ev_preempted t s s1" "ev_preempted u s1 s2" "t \<le> u"
  shows "ev_preempted t s s2"
proof -
  from assms(1,2) obtain ns ms where n: "notified s1 = notified s @ ns" "notified s2 = notified s1 @ ms"
    and b: "\<forall>(p, e) \<in> set ns. t < p" "\<forall>(p, e) \<in> set ms. u < p" by (auto simp: ev_preempted_def)
  have "\<forall>(p, e) \<in> set (ns @ ms). t < p" using b assms(3) by fastforce
  with n show ?thesis by (auto simp: ev_preempted_def)
qed

lemma ev_step_trans: "ev_step t s s1 \<Longrightarrow> ev_step t s1 s2 \<Longrightarrow> ev_step t s s2"
  by (auto simp: ev_step_def intro: ev_locks_same_trans ev_preempted_trans)

lemma ev_step_refl: "ev_inv s \<Longrightarrow> ev_quiet (gEfiCurrentTpl s) s \<Longrightarrow> ev_step (gEfiCurrentTpl s) s s"
  by (simp add: ev_step_def)

lemma ev_step_same:
  "ev_step t s0 s' \<Longrightarrow> locks s0 = locks s \<Longrightarrow> notified s0 = notified s \<Longrightarrow> ev_step t s s'"
  by (simp add: ev_step_def ev_locks_same_def ev_preempted_def)

lemma ev_stepD:
  assumes "ev_step t s s'"
  shows "ev_inv s'" "gEfiCurrentTpl s' = t" "ev_quiet t s'" "ev_locks_same s s'" "ev_preempted t s s'"
  using assms by (simp_all add: ev_step_def)

text \<open>No event has the highest priority, so nothing is pending above the last but one.\<close>

lemma ev_quiet_high: "ev_inv s \<Longrightarrow> 30 \<le> t \<Longrightarrow> ev_quiet t s"
  using ev_queues_okD(4) [of s] by (fastforce simp: ev_quiet_def)

section \<open>Locks\<close>

definition ev_raised :: "EFI_TPL \<Rightarrow> ev_state \<Rightarrow> ev_state" where
  "ev_raised t s =
     (if t \<ge> TPL_HIGH_LEVEL \<and> gEfiCurrentTpl s < TPL_HIGH_LEVEL then CoreSetInterruptState False s else s)\<lparr>gEfiCurrentTpl := t\<rparr>"

definition ev_locked :: "lock_id \<Rightarrow> ev_state \<Rightarrow> ev_state" where
  "ev_locked L s =
     (ev_raised (Tpl (locks s L)) s)
       \<lparr>locks := (locks s)(L := (locks s L)\<lparr>OwnerTpl := gEfiCurrentTpl s, Lock := EfiLockAcquired\<rparr>)\<rparr>"

definition ev_released :: "lock_id \<Rightarrow> ev_state \<Rightarrow> ev_state" where
  "ev_released L s = s\<lparr>locks := (locks s)(L := (locks s L)\<lparr>Lock := EfiLockReleased\<rparr>)\<rparr>"

lemma ev_raised_frame [simp]:
  "ev_inv (ev_raised t s) = ev_inv s"
  "gEfiCurrentTpl (ev_raised t s) = t"
  "locks (ev_raised t s) = locks s"
  "gEventQueue (ev_raised t s) = gEventQueue s"
  "gEventPending (ev_raised t s) = gEventPending s"
  "gEventSignalQueue (ev_raised t s) = gEventSignalQueue s"
  "mEfiTimerList (ev_raised t s) = mEfiTimerList s"
  "mEfiSystemTime (ev_raised t s) = mEfiSystemTime s"
  "mEfiCheckTimerEvent (ev_raised t s) = mEfiCheckTimerEvent s"
  "events (ev_raised t s) = events s"
  "notified (ev_raised t s) = notified s"
  by (simp_all add: ev_raised_def)

lemma ev_locked_frame [simp]:
  "ev_inv (ev_locked L s) = ev_inv s"
  "gEfiCurrentTpl (ev_locked L s) = Tpl (locks s L)"
  "locks (ev_locked L s) = (locks s)(L := (locks s L)\<lparr>OwnerTpl := gEfiCurrentTpl s, Lock := EfiLockAcquired\<rparr>)"
  "gEventQueue (ev_locked L s) = gEventQueue s"
  "gEventPending (ev_locked L s) = gEventPending s"
  "gEventSignalQueue (ev_locked L s) = gEventSignalQueue s"
  "mEfiTimerList (ev_locked L s) = mEfiTimerList s"
  "mEfiSystemTime (ev_locked L s) = mEfiSystemTime s"
  "mEfiCheckTimerEvent (ev_locked L s) = mEfiCheckTimerEvent s"
  "events (ev_locked L s) = events s"
  "notified (ev_locked L s) = notified s"
  by (simp_all add: ev_locked_def ev_inv_locks)

lemma ev_released_frame [simp]:
  "ev_inv (ev_released L s) = ev_inv s"
  "gEfiCurrentTpl (ev_released L s) = gEfiCurrentTpl s"
  "locks (ev_released L s) = (locks s)(L := (locks s L)\<lparr>Lock := EfiLockReleased\<rparr>)"
  "gEventQueue (ev_released L s) = gEventQueue s"
  "gEventPending (ev_released L s) = gEventPending s"
  "gEventSignalQueue (ev_released L s) = gEventSignalQueue s"
  "mEfiTimerList (ev_released L s) = mEfiTimerList s"
  "mEfiSystemTime (ev_released L s) = mEfiSystemTime s"
  "mEfiCheckTimerEvent (ev_released L s) = mEfiCheckTimerEvent s"
  "events (ev_released L s) = events s"
  "notified (ev_released L s) = notified s"
  by (simp_all add: ev_released_def ev_inv_locks)

lemma CoreRaiseTpl_eq:
  "CoreRaiseTpl t s = (if gEfiCurrentTpl s \<le> t \<and> t \<le> TPL_HIGH_LEVEL then Some (gEfiCurrentTpl s, ev_raised t s) else None)"
  by (simp add: CoreRaiseTpl_def ev_raised_def ev_assert_def VALID_TPL_def Let_def)

lemma CoreAcquireLock_eq:
  "CoreAcquireLock L s =
     (if Lock (locks s L) = EfiLockReleased \<and> gEfiCurrentTpl s \<le> Tpl (locks s L) \<and> Tpl (locks s L) \<le> TPL_HIGH_LEVEL
      then Some (ev_locked L s) else None)"
  by (simp add: CoreAcquireLock_def CoreRaiseTpl_eq ev_locked_def ev_assert_def)

lemma CoreReleaseLock_eq:
  "CoreReleaseLock rst L s =
     (if Lock (locks s L) = EfiLockAcquired then rst (OwnerTpl (locks s L)) (ev_released L s) else None)"
  by (simp add: CoreReleaseLock_def ev_released_def ev_assert_def)

lemmas event_lock_defs = CoreAcquireEventLock_def [abs_def] CoreReleaseEventLock_def [abs_def]

section \<open>What a service leaves as it was\<close>

text \<open>
  Nothing but the queues, the signal counts and the locks has changed. That is so for a service that
  is called with one of the two highest priorities, as the timer code does, since it notifies nobody.
\<close>

definition ev_timers_same :: "ev_state \<Rightarrow> ev_state \<Rightarrow> bool" where
  "ev_timers_same s s' \<longleftrightarrow>
     mEfiTimerList s' = mEfiTimerList s \<and> mEfiCheckTimerEvent s' = mEfiCheckTimerEvent s \<and>
     mEfiSystemTime s' = mEfiSystemTime s \<and> notified s' = notified s \<and>
     (\<forall>a. map_option (\<lambda>ev. ev\<lparr>SignalCount := 0\<rparr>) (events s' a) = map_option (\<lambda>ev. ev\<lparr>SignalCount := 0\<rparr>) (events s a))"

definition ev_service :: "ev_state \<Rightarrow> ev_state \<Rightarrow> bool" where
  "ev_service s s' \<longleftrightarrow> ev_step (gEfiCurrentTpl s) s s' \<and> (30 \<le> gEfiCurrentTpl s \<longrightarrow> ev_timers_same s s')"

lemma ev_timers_same_refl [simp]: "ev_timers_same s s"
  by (simp add: ev_timers_same_def)

lemma ev_timers_same_trans: "ev_timers_same s s1 \<Longrightarrow> ev_timers_same s1 s2 \<Longrightarrow> ev_timers_same s s2"
  by (simp add: ev_timers_same_def)

lemma ev_timers_same_frame [simp]:
  "ev_timers_same (ev_locked L s) s' = ev_timers_same s s'"
  "ev_timers_same s (ev_lowered t s') = ev_timers_same s s'"
  "ev_timers_same s (ev_released L s') = ev_timers_same s s'"
  by (simp_all add: ev_timers_same_def)

lemma ev_timers_same_update:
  "(\<And>ev. (f ev)\<lparr>SignalCount := 0\<rparr> = ev\<lparr>SignalCount := 0\<rparr>) \<Longrightarrow> ev_timers_same s (ev_update e f s)"
  by (simp add: ev_timers_same_def option.map_comp comp_def)

lemma ev_timers_same_event:
  assumes "ev_timers_same s s'" "events s a = Some ev"
  shows "\<exists>ev'. events s' a = Some ev' \<and> Type ev' = Type ev \<and> TriggerTime ev' = TriggerTime ev \<and> Period ev' = Period ev \<and>
    NotifyTpl ev' = NotifyTpl ev \<and> NotifyFunction ev' = NotifyFunction ev"
proof -
  from assms have m: "map_option (\<lambda>ev. ev\<lparr>SignalCount := 0\<rparr>) (events s' a) = Some (ev\<lparr>SignalCount := 0\<rparr>)"
    by (simp add: ev_timers_same_def)
  then obtain ev' where ev: "events s' a = Some ev'" "ev'\<lparr>SignalCount := 0\<rparr> = ev\<lparr>SignalCount := 0\<rparr>"
    by (cases "events s' a") auto
  show ?thesis
    by (intro exI [of _ ev'] conjI)
      (use ev(1) arg_cong [OF ev(2), of Type] arg_cong [OF ev(2), of TriggerTime] arg_cong [OF ev(2), of Period]
       arg_cong [OF ev(2), of NotifyTpl] arg_cong [OF ev(2), of NotifyFunction] in simp_all)
qed

lemma ev_service_refl: "ev_inv s \<Longrightarrow> ev_quiet (gEfiCurrentTpl s) s \<Longrightarrow> ev_service s s"
  by (simp add: ev_service_def ev_step_refl)

lemma ev_serviceD:
  assumes "ev_service s s'"
  shows "ev_inv s'" "gEfiCurrentTpl s' = gEfiCurrentTpl s" "ev_quiet (gEfiCurrentTpl s) s'" "ev_locks_same s s'"
    "ev_preempted (gEfiCurrentTpl s) s s'" "ev_step (gEfiCurrentTpl s) s s'"
    "30 \<le> gEfiCurrentTpl s \<Longrightarrow> ev_timers_same s s'"
  using assms by (simp_all add: ev_service_def ev_step_def)

lemma ev_service_trans: "ev_service s s1 \<Longrightarrow> ev_service s1 s2 \<Longrightarrow> ev_service s s2"
  unfolding ev_service_def by (metis ev_stepD(2) ev_step_trans ev_timers_same_trans)

text \<open>What happens between taking a lock and releasing it.\<close>

definition ev_inside :: "ev_state \<Rightarrow> ev_state \<Rightarrow> bool" where
  "ev_inside s s' \<longleftrightarrow> ev_inv s' \<and> locks s' = locks s \<and> gEfiCurrentTpl s' = gEfiCurrentTpl s \<and> ev_timers_same s s'"

lemma ev_inside_refl: "ev_inv s \<Longrightarrow> ev_inside s s"
  by (simp add: ev_inside_def)

lemma ev_inside_trans: "ev_inside s s1 \<Longrightarrow> ev_inside s1 s2 \<Longrightarrow> ev_inside s s2"
  by (auto simp: ev_inside_def intro: ev_timers_same_trans)

lemma CoreNotifyEvent_inside:
  assumes "ev_inv s" "CoreNotifyEvent e s = Some s'" "events s e = Some ev" "ev_notifies ev"
  shows "ev_inside s s'" "events s' = events s" "gEventSignalQueue s' = gEventSignalQueue s"
proof -
  have t: "mEfiCheckTimerEvent s' = mEfiCheckTimerEvent s" "mEfiSystemTime s' = mEfiSystemTime s"
    using assms(2,3) by (auto simp: CoreNotifyEvent_def ev_assert_def ev_unqueue_def split: if_splits)
  show "ev_inside s s'" "events s' = events s" "gEventSignalQueue s' = gEventSignalQueue s"
    using CoreNotifyEvent_inv [OF assms] t by (simp_all add: ev_inside_def ev_timers_same_def)
qed

lemma ev_notify_group_inside:
  assumes "ev_inv s" "ev_notify_group g es s = Some s'" "set es \<subseteq> set (gEventSignalQueue s)"
  shows "ev_inside s s'"
  using assms
proof (induction es arbitrary: s)
  case (Cons e es)
  from Cons.prems(2) obtain ev s1 where ev: "events s e = Some ev"
    and s1: "(if EventGroup ev = g then CoreNotifyEvent e s else Some s) = Some s1"
    and rest: "ev_notify_group g es s1 = Some s'"
    by (auto split: bind_splits)
  have n: "ev_notifies ev"
    using ev_signalsD(2) [OF Cons.prems(1), of e] Cons.prems(3) ev by (auto intro: ev_notifies_signal)
  have i: "ev_inside s s1 \<and> gEventSignalQueue s1 = gEventSignalQueue s"
    using s1 CoreNotifyEvent_inside [OF Cons.prems(1) _ ev n] ev_inside_refl [OF Cons.prems(1)]
    by (auto split: if_splits)
  then have "ev_inside s1 s'"
    using Cons.IH [of s1] rest Cons.prems(3) by (simp add: ev_inside_def)
  with i show ?case by (blast intro: ev_inside_trans)
qed (simp add: ev_inside_refl)

section \<open>The interface\<close>

text \<open>
  What a service relies on: lowering the priority keeps the invariant and the locks, ends at the new
  priority with nothing pending above it, and runs only notification functions above it. With nothing
  pending, it only lowers the priority.
\<close>

locale restoring =
  fixes rst :: restore_tpl
  assumes sound: "ev_inv s \<Longrightarrow> rst t s = Some s' \<Longrightarrow> ev_step t s s'"
    and idle: "ev_quiet t s \<Longrightarrow> rst t s = Some s' \<Longrightarrow> s' = ev_lowered t s"
begin

text \<open>A critical section: a lock is taken, the invariant is kept and the lock is released.\<close>

lemma critical:
  assumes inv: "ev_inv s" and a: "CoreAcquireLock L s = Some s1"
    and s2: "ev_inv s2" "ev_locks_same s1 s2" "notified s2 = notified s1"
    and r: "CoreReleaseLock rst L s2 = Some s3"
  shows "ev_step (gEfiCurrentTpl s) s s3"
proof -
  from a have s1: "s1 = ev_locked L s" and rel: "Lock (locks s L) = EfiLockReleased"
    by (simp_all add: CoreAcquireLock_eq split: if_splits)
  have own: "OwnerTpl (locks s2 L) = gEfiCurrentTpl s"
    using s2(2) by (simp add: ev_locks_same_def s1)
  from r have "rst (gEfiCurrentTpl s) (ev_released L s2) = Some s3"
    by (simp add: CoreReleaseLock_eq own split: if_splits)
  from sound [OF _ this] s2(1) have "ev_step (gEfiCurrentTpl s) (ev_released L s2) s3" by simp
  moreover have "ev_locks_same s (ev_released L s2)" "notified (ev_released L s2) = notified s"
    using s2(2,3) rel by (auto simp: ev_locks_same_def s1)
  ultimately show ?thesis
    unfolding ev_step_def ev_preempted_def by (metis ev_locks_same_trans)
qed

text \<open>The same with nothing to notify: the state after is known.\<close>

lemma critical_idle:
  assumes a: "CoreAcquireLock L s = Some s1"
    and s2: "locks s2 L = locks s1 L" "ev_quiet (gEfiCurrentTpl s) s2"
    and r: "CoreReleaseLock rst L s2 = Some s3"
  shows "s3 = ev_lowered (gEfiCurrentTpl s) (ev_released L s2)"
proof -
  from a have s1: "s1 = ev_locked L s" by (simp add: CoreAcquireLock_eq split: if_splits)
  have own: "OwnerTpl (locks s2 L) = gEfiCurrentTpl s" using s2(1) by (simp add: s1)
  from r have "rst (gEfiCurrentTpl s) (ev_released L s2) = Some s3"
    by (simp add: CoreReleaseLock_eq own split: if_splits)
  from idle [OF _ this] s2(2) show ?thesis by (simp add: ev_quiet_def)
qed

lemma section_service:
  assumes inv: "ev_inv s" and a: "CoreAcquireLock L s = Some s1" and i: "ev_inside s1 s2"
    and r: "CoreReleaseLock rst L s2 = Some s3"
  shows "ev_service s s3"
proof -
  from i have s2: "ev_inv s2" "locks s2 = locks s1" "ev_timers_same s1 s2" by (simp_all add: ev_inside_def)
  have "ev_step (gEfiCurrentTpl s) s s3"
    by (rule critical [OF inv a s2(1) _ _ r]) (use s2 in \<open>simp_all add: ev_locks_same_def ev_timers_same_def\<close>)
  moreover have "ev_timers_same s s3" if "30 \<le> gEfiCurrentTpl s"
  proof -
    have "s3 = ev_lowered (gEfiCurrentTpl s) (ev_released L s2)"
      by (rule critical_idle [OF a _ ev_quiet_high r]) (use s2 that in simp_all)
    moreover have "s1 = ev_locked L s" using a by (simp add: CoreAcquireLock_eq split: if_splits)
    ultimately show ?thesis using s2(3) by simp
  qed
  ultimately show ?thesis by (simp add: ev_service_def)
qed

lemma acquired:
  assumes "CoreAcquireLock L s = Some s1" "ev_inv s"
  shows "s1 = ev_locked L s" "ev_inv s1" "events s1 = events s" "gEventSignalQueue s1 = gEventSignalQueue s"
  using assms by (auto simp: CoreAcquireLock_eq split: if_splits)

lemma CoreNotifySignalList_service:
  assumes "ev_inv s" "CoreNotifySignalList rst g s = Some s'"
  shows "ev_service s s'"
proof -
  from assms(2) obtain s1 s2 where s1: "CoreAcquireLock EventQueueLock s = Some s1"
    and s2: "ev_notify_group g (gEventSignalQueue s1) s1 = Some s2" and s3: "CoreReleaseLock rst EventQueueLock s2 = Some s'"
    by (auto simp: CoreNotifySignalList_def event_lock_defs split: bind_splits)
  from ev_notify_group_inside [OF acquired(2) [OF s1 assms(1)] s2] have "ev_inside s1 s2" by simp
  from section_service [OF assms(1) s1 this s3] show ?thesis .
qed

lemma CoreSignalEvent_service:
  assumes inv: "ev_inv s" "ev_quiet (gEfiCurrentTpl s) s" and r: "CoreSignalEvent rst e s = Some (st, s')"
  shows "ev_service s s'"
proof (cases "events s e")
  case None
  with r inv show ?thesis by (simp add: CoreSignalEvent_def ev_service_refl)
next
  case (Some ev)
  let ?u = "\<lambda>s. ev_update e (\<lambda>ev. ev\<lparr>SignalCount := SignalCount ev + 1\<rparr>) s"
  obtain s1 s2 where s1: "CoreAcquireLock EventQueueLock s = Some s1"
    and s2: "(if SignalCount ev = 0 then
                (if Type ev AND EVT_NOTIFY_SIGNAL \<noteq> 0 then
                  (if ExFlag ev AND EVT_EXFLAG_EVENT_GROUP \<noteq> 0 then
                     do { s \<leftarrow> CoreReleaseLock rst EventQueueLock (?u s1); Event \<leftarrow> events s e;
                          s \<leftarrow> CoreNotifySignalList rst (EventGroup Event) s; CoreAcquireLock EventQueueLock s }
                   else CoreNotifyEvent e (?u s1))
                 else Some (?u s1)) else Some s1) = Some s2"
    and s3: "CoreReleaseLock rst EventQueueLock s2 = Some s'"
    using r Some unfolding CoreSignalEvent_def event_lock_defs Let_def by (auto simp: bind_eq_Some_conv)
  note q = acquired [OF s1 inv(1)]
  have u: "ev_inside s1 (?u s1)"
    using ev_update_inv [OF q(2), of "\<lambda>ev. ev\<lparr>SignalCount := SignalCount ev + 1\<rparr>" e]
    by (simp add: ev_inside_def ev_timers_same_update)
  show ?thesis
  proof (cases "SignalCount ev = 0 \<and> Type ev AND EVT_NOTIFY_SIGNAL \<noteq> 0 \<and> ExFlag ev AND EVT_EXFLAG_EVENT_GROUP \<noteq> 0")
    case True
    with s2 obtain sB evB sC where sB: "CoreReleaseLock rst EventQueueLock (?u s1) = Some sB"
      and "events sB e = Some evB"
      and sC: "CoreNotifySignalList rst (EventGroup evB) sB = Some sC" and sD: "CoreAcquireLock EventQueueLock sC = Some s2"
      by (auto simp: bind_eq_Some_conv)
    have B: "ev_service s sB" by (rule section_service [OF inv(1) s1 u sB])
    have C: "ev_service sB sC" by (rule CoreNotifySignalList_service [OF ev_serviceD(1) [OF B] sC])
    have inC: "ev_inv sC" by (rule ev_serviceD(1) [OF C])
    have "ev_service sC s'"
      by (rule section_service [OF inC sD ev_inside_refl [OF acquired(2) [OF sD inC]] s3])
    with B C show ?thesis by (blast intro: ev_service_trans)
  next
    case False
    have "ev_inside s1 s2"
    proof (cases "SignalCount ev = 0 \<and> Type ev AND EVT_NOTIFY_SIGNAL \<noteq> 0")
      case True
      with False s2 have n: "CoreNotifyEvent e (?u s1) = Some s2" by (auto split: if_splits)
      have "ev_inside (?u s1) s2"
        by (rule CoreNotifyEvent_inside(1) [OF _ n, of "ev\<lparr>SignalCount := SignalCount ev + 1\<rparr>"])
          (use u True Some q in \<open>auto simp: ev_inside_def intro: ev_notifies_signal\<close>)
      with u show ?thesis by (rule ev_inside_trans)
    qed (use s2 u ev_inside_refl [OF q(2)] in \<open>auto split: if_splits\<close>)
    from section_service [OF inv(1) s1 this s3] show ?thesis .
  qed
qed

end

end
