(* ===== verification/Event_Calls.thy ===== *)
theory Event_Calls
  imports Event_Services
begin

text \<open>
  Each service of the event database keeps the contract of \<open>restoring\<close>: it ends at the priority of
  its caller, with nothing pending above it, the locks as they were and the invariant kept, and only
  notification functions of a higher priority have run. The timer code runs with the two highest
  priorities, so nothing interrupts it.
\<close>

section \<open>With a lock held\<close>

definition ev_held :: "ev_state \<Rightarrow> ev_state \<Rightarrow> bool" where
  "ev_held s s' \<longleftrightarrow>
     ev_inv s' \<and> ev_locks_same s s' \<and> notified s' = notified s \<and> gEfiCurrentTpl s' = gEfiCurrentTpl s"

lemma ev_held_refl: "ev_inv s \<Longrightarrow> ev_held s s"
  by (simp add: ev_held_def)

lemma ev_held_trans: "ev_held s s1 \<Longrightarrow> ev_held s1 s2 \<Longrightarrow> ev_held s s2"
  by (auto simp: ev_held_def intro: ev_locks_same_trans)

lemma ev_heldI: "ev_inv s' \<Longrightarrow> locks s' = locks s \<Longrightarrow> notified s' = notified s \<Longrightarrow> gEfiCurrentTpl s' = gEfiCurrentTpl s \<Longrightarrow> ev_held s s'"
  by (simp add: ev_held_def ev_locks_same_def)

lemma ev_service_held: "ev_service s s' \<Longrightarrow> 30 \<le> gEfiCurrentTpl s \<Longrightarrow> ev_held s s'"
  using ev_serviceD [of s s'] by (simp add: ev_held_def ev_timers_same_def)

lemma ev_update_held:
  assumes "ev_inv s" "\<And>ev. Type (f ev) = Type ev" "\<And>ev. NotifyTpl (f ev) = NotifyTpl ev"
    "\<And>ev. NotifyFunction (f ev) = NotifyFunction ev" "e \<notin> set (mEfiTimerList s)"
  shows "ev_held s (ev_update e f s)"
  by (rule ev_heldI) (use ev_update_inv [OF assms(1-4)] assms(5) in auto)

lemma CoreInsertEventTimer_held:
  assumes "ev_inv s" "CoreInsertEventTimer e s = Some s'" "e \<notin> set (mEfiTimerList s)"
    "events s e = Some ev" "Type ev AND EVT_TIMER \<noteq> 0"
  shows "ev_held s s'"
  using CoreInsertEventTimer_inv [OF assms] by (intro ev_heldI) simp_all

definition ev_new :: "IEVENT \<Rightarrow> EFI_EVENT list \<Rightarrow> ev_state \<Rightarrow> ev_state" where
  "ev_new ev rs s = s\<lparr>next_event := Suc (next_event s), events := (events s)(next_event s := Some ev), gRuntimeEvents := rs\<rparr>"

section \<open>The services\<close>

context restoring
begin

lemma section_held:
  assumes "ev_inv s" "CoreAcquireLock L s = Some s1" "ev_held s1 s2" "CoreReleaseLock rst L s2 = Some s3"
  shows "ev_step (gEfiCurrentTpl s) s s3"
  using critical [OF assms(1,2) _ _ _ assms(4)] assms(3) by (simp add: ev_held_def)

lemma CoreCheckEvent_service:
  assumes inv: "ev_inv s" "ev_quiet (gEfiCurrentTpl s) s" and r: "CoreCheckEvent rst e s = Some (st, s')"
  shows "ev_service s s'"
proof (cases "\<exists>ev. events s e = Some ev \<and> Type ev AND EVT_NOTIFY_SIGNAL = 0")
  case False
  with r inv show ?thesis by (auto simp: CoreCheckEvent_def ev_service_refl split: option.splits if_splits)
next
  case True
  then obtain ev where ev: "events s e = Some ev" "Type ev AND EVT_NOTIFY_SIGNAL = 0" by blast
  let ?u = "\<lambda>s. ev_update e (\<lambda>ev. ev\<lparr>SignalCount := 0\<rparr>) s"
  obtain s1 ev1 where s1: "(if SignalCount ev = 0 \<and> Type ev AND EVT_NOTIFY_WAIT \<noteq> 0 then
        do { s \<leftarrow> CoreAcquireLock EventQueueLock s; Event \<leftarrow> events s e;
             s \<leftarrow> (if SignalCount Event = 0 then CoreNotifyEvent e s else Some s);
             CoreReleaseLock rst EventQueueLock s } else Some s) = Some s1"
    and ev1: "events s1 e = Some ev1"
    and rest: "(if SignalCount ev1 \<noteq> 0 then
        do { s \<leftarrow> CoreAcquireLock EventQueueLock s1; Event \<leftarrow> events s e;
             s \<leftarrow> CoreReleaseLock rst EventQueueLock (if SignalCount Event \<noteq> 0 then ?u s else s);
             Some s } else Some s1) = Some s'"
    using r ev unfolding CoreCheckEvent_def event_lock_defs Let_def
    by (auto simp: bind_eq_Some_conv split: if_splits)
  have A: "ev_service s s1"
  proof (cases "SignalCount ev = 0 \<and> Type ev AND EVT_NOTIFY_WAIT \<noteq> 0")
    case True
    with s1 obtain sA sB where sA: "CoreAcquireLock EventQueueLock s = Some sA"
      and sB: "CoreNotifyEvent e sA = Some sB" and sC: "CoreReleaseLock rst EventQueueLock sB = Some s1"
      using ev acquired(3) [OF _ inv(1)] by (auto simp: bind_eq_Some_conv split: if_splits)
    have "ev_inside sA sB"
      using CoreNotifyEvent_inside(1) [OF _ sB, of ev] acquired [OF sA inv(1)] ev True by (auto intro: ev_notifies_wait)
    from section_service [OF inv(1) sA this sC] show ?thesis .
  qed (use s1 inv in \<open>auto simp: ev_service_refl\<close>)
  have "ev_service s1 s'"
  proof (cases "SignalCount ev1 = 0")
    case True
    with rest A show ?thesis using ev_serviceD(1,2,3) [OF A] by (auto intro: ev_service_refl)
  next
    case False
    with rest ev1 obtain sA sB where sA: "CoreAcquireLock EventQueueLock s1 = Some sA" and sB: "sB = sA \<or> sB = ?u sA"
      and sC: "CoreReleaseLock rst EventQueueLock sB = Some s'" by (auto simp: bind_eq_Some_conv split: if_splits)
    note inA = acquired(2) [OF sA ev_serviceD(1) [OF A]]
    have "ev_inside sA sB"
      using sB ev_inside_refl [OF inA] ev_update_inv [OF inA, of "\<lambda>ev. ev\<lparr>SignalCount := 0\<rparr>" e]
      by (auto simp: ev_inside_def ev_timers_same_update)
    from section_service [OF ev_serviceD(1) [OF A] sA this sC] show ?thesis .
  qed
  with A show ?thesis by (rule ev_service_trans)
qed

lemma CoreCurrentSystemTime_service:
  assumes inv: "ev_inv s" and r: "CoreCurrentSystemTime rst s = Some (Now, s')"
  shows "ev_service s s'" "Now = mEfiSystemTime s"
proof -
  from r obtain s1 where s1: "CoreAcquireLock SystemTimeLock s = Some s1" "Now = mEfiSystemTime s1"
    and s2: "CoreReleaseLock rst SystemTimeLock s1 = Some s'"
    by (auto simp: CoreCurrentSystemTime_def bind_eq_Some_conv Let_def)
  note q = acquired [OF s1(1) inv]
  show "ev_service s s'" by (rule section_service [OF inv s1(1) ev_inside_refl [OF q(2)] s2])
  show "Now = mEfiSystemTime s" using q(1) s1(2) by simp
qed

text \<open>The three outcomes of creating an event: refused, out of memory, created.\<close>

lemma CoreCreateEventInternal_cases:
  assumes r: "CoreCreateEventInternal rst Ty Level Fn Group w s = Some (st, eo, s')"
  obtains (refused) "s' = s" "st = EFI_INVALID_PARAMETER" "eo = None"
  | (no_memory) "s' = s\<lparr>next_event := Suc (next_event s)\<rparr>" "st = EFI_OUT_OF_RESOURCES" "eo = None"
  | (created) ev rs where "ev_valid ev" "SignalCount ev = 0" "st = EFI_SUCCESS" "eo = Some (next_event s)"
      "(if Type ev AND EVT_NOTIFY_SIGNAL \<noteq> 0 then
          do { s1 \<leftarrow> CoreAcquireLock EventQueueLock (ev_new ev rs s);
               CoreReleaseLock rst EventQueueLock (s1\<lparr>gEventSignalQueue := next_event s # gEventSignalQueue s1\<rparr>) }
        else Some (ev_new ev rs s)) = Some s'"
proof (cases "w \<and> Ty \<in> set mEventTable \<and> ev_type_group Ty Group \<noteq> None")
  case False
  then have "CoreCreateEventInternal rst Ty Level Fn Group w s = Some (EFI_INVALID_PARAMETER, None, s)"
    by (cases "w"; cases "Ty \<in> set mEventTable"; cases "ev_type_group Ty Group") (simp_all add: CoreCreateEventInternal_def)
  with r show thesis by (intro refused) simp_all
next
  case True
  then obtain Ty' Group' where g: "ev_type_group Ty Group = Some (Ty', Group')" by auto
  let ?n = "Ty' AND (EVT_NOTIFY_WAIT OR EVT_NOTIFY_SIGNAL) \<noteq> 0"
  show thesis
  proof (cases "?n \<and> (Fn = None \<or> Level \<le> TPL_APPLICATION \<or> Level \<ge> TPL_HIGH_LEVEL)")
    case bad: True
    with r True g show thesis by (intro refused) (auto simp: CoreCreateEventInternal_def)
  next
    case ok: False
    show thesis
    proof (cases "pool_ok s (next_event s)")
      case pool: False
      with r True g ok show thesis by (intro no_memory) (auto simp: CoreCreateEventInternal_def Let_def split: if_splits)
    next
      case pool: True
      define ev where "ev = \<lparr>Type = Ty', SignalCount = 0, NotifyTpl = (if ?n then Level else 0), NotifyFunction = (if ?n then Fn else None),
                      EventGroup = (case Group' of None \<Rightarrow> replicate 16 0 | Some g \<Rightarrow> g),
                      ExFlag = (case Group' of None \<Rightarrow> 0 | Some g \<Rightarrow> EVT_EXFLAG_EVENT_GROUP),
                      TriggerTime = 0, Period = 0\<rparr>"
      define rs where "rs = (if Ty' AND EVT_RUNTIME \<noteq> 0 then gRuntimeEvents s @ [next_event s] else gRuntimeEvents s)"
      have lf: "(if ?n then (Level, Fn) else (0, None)) = (NotifyTpl ev, NotifyFunction ev)" by (simp add: ev_def)
      have e: "\<lparr>Type = Ty', SignalCount = 0, NotifyTpl = NotifyTpl ev, NotifyFunction = NotifyFunction ev,
                      EventGroup = (case Group' of None \<Rightarrow> replicate 16 0 | Some g \<Rightarrow> g),
                      ExFlag = (case Group' of None \<Rightarrow> 0 | Some g \<Rightarrow> EVT_EXFLAG_EVENT_GROUP),
                      TriggerTime = 0, Period = 0\<rparr> = ev" by (simp add: ev_def)
      have n: "(if Ty' AND EVT_RUNTIME \<noteq> 0 then (s\<lparr>next_event := Suc (next_event s), events := (events s)(next_event s := Some ev)\<rparr>)
            \<lparr>gRuntimeEvents := gRuntimeEvents (s\<lparr>next_event := Suc (next_event s), events := (events s)(next_event s := Some ev)\<rparr>) @ [next_event s]\<rparr>
          else s\<lparr>next_event := Suc (next_event s), events := (events s)(next_event s := Some ev)\<rparr>) = ev_new ev rs s"
        by (simp add: ev_new_def rs_def)
      have "CoreCreateEventInternal rst Ty Level Fn Group w s =
          do { s' \<leftarrow> (if Ty' AND EVT_NOTIFY_SIGNAL \<noteq> 0 then
                    do { s1 \<leftarrow> CoreAcquireLock EventQueueLock (ev_new ev rs s);
                         CoreReleaseLock rst EventQueueLock (s1\<lparr>gEventSignalQueue := next_event s # gEventSignalQueue s1\<rparr>) }
                  else Some (ev_new ev rs s));
               Some (EFI_SUCCESS, Some (next_event s), s') }"
        unfolding CoreCreateEventInternal_def g option.case prod.case event_lock_defs Let_def lf e n
        using True ok pool by (simp only: simp_thms if_True if_False)
      with r show thesis
        by (intro created [of ev rs]) (use ok in \<open>auto simp: ev_def ev_valid_def bind_eq_Some_conv\<close>)
    qed
  qed
qed

lemma CoreCreateEventInternal_step:
  assumes inv: "ev_inv s" "ev_quiet (gEfiCurrentTpl s) s"
    and r: "CoreCreateEventInternal rst Ty Level Fn Group w s = Some (st, eo, s')"
  shows "ev_step (gEfiCurrentTpl s) s s'"
  using r
proof (cases rule: CoreCreateEventInternal_cases)
  case refused
  with inv show ?thesis by (simp add: ev_step_refl)
next
  case no_memory
  with inv ev_inv_next_event [OF inv(1)] show ?thesis by (simp add: ev_step_def ev_quiet_def ev_locks_same_def ev_preempted_def)
next
  case (created ev rs)
  let ?s = "ev_new ev rs s"
  have i: "ev_inv ?s" using ev_create_inv [OF inv(1) created(1)] by (simp add: ev_new_def)
  have f: "gEfiCurrentTpl ?s = gEfiCurrentTpl s" "locks ?s = locks s" "notified ?s = notified s" "ev_quiet t ?s = ev_quiet t s" for t
    by (simp_all add: ev_new_def ev_quiet_def)
  have "ev_step (gEfiCurrentTpl ?s) ?s s'"
  proof (cases "Type ev AND EVT_NOTIFY_SIGNAL \<noteq> 0")
    case True
    with created(5) obtain s1 where s1: "CoreAcquireLock EventQueueLock ?s = Some s1"
      and s2: "CoreReleaseLock rst EventQueueLock (s1\<lparr>gEventSignalQueue := next_event s # gEventSignalQueue s1\<rparr>) = Some s'"
      by (auto simp: bind_eq_Some_conv)
    note q = acquired [OF s1 i]
    have "next_event s \<notin> set (gEventSignalQueue s)"
      using ev_signalsD(2,3) [OF inv(1), of "next_event s"] by fastforce
    with True have "ev_inv (s1\<lparr>gEventSignalQueue := next_event s # gEventSignalQueue s1\<rparr>)"
      by (intro ev_signal_queue_inv [OF q(2), of _ ev]) (simp_all add: q ev_new_def)
    then have "ev_held s1 (s1\<lparr>gEventSignalQueue := next_event s # gEventSignalQueue s1\<rparr>)" by (intro ev_heldI) simp_all
    from section_held [OF i s1 this s2] show ?thesis .
  qed (use created(5) inv f ev_step_refl [OF i] in simp)
  with f show ?thesis by (auto intro: ev_step_same)
qed

text \<open>With the timer lock held, nothing interrupts the timer code.\<close>

lemma CoreSignalEvent_held:
  assumes "ev_inv s" "30 \<le> gEfiCurrentTpl s" "CoreSignalEvent rst e s = Some (st, s')"
  shows "ev_held s s'" "ev_timers_same s s'"
proof -
  have "ev_service s s'" by (rule CoreSignalEvent_service [OF assms(1) ev_quiet_high [OF assms(1,2)] assms(3)])
  then show "ev_held s s'" "ev_timers_same s s'" using assms(2) by (auto intro: ev_service_held ev_serviceD(7))
qed

text \<open>Arming: the trigger time is set, the timer inserted and, if it is due, the check signalled.\<close>

lemma arm_timer:
  assumes inv: "ev_inv s" and tpl: "gEfiCurrentTpl s = 30"
    and e: "e \<notin> set (mEfiTimerList s)" "events s e = Some ev" "Type ev AND EVT_TIMER \<noteq> 0"
    and r: "do { (Now, s) \<leftarrow> CoreCurrentSystemTime rst s;
                 s \<leftarrow> CoreInsertEventTimer e (ev_update e (\<lambda>ev. ev\<lparr>TriggerTime := Now + Time\<rparr>) s);
                 if Time = 0 then do { (Status, s) \<leftarrow> CoreSignalEvent rst (mEfiCheckTimerEvent s) s; Some s } else Some s } = Some s'"
  shows "ev_held s s'"
proof -
  from r obtain Now s1 s2 where s1: "CoreCurrentSystemTime rst s = Some (Now, s1)"
    and s2: "CoreInsertEventTimer e (ev_update e (\<lambda>ev. ev\<lparr>TriggerTime := Now + Time\<rparr>) s1) = Some s2"
    and s3: "(if Time = 0 then do { (Status, s) \<leftarrow> CoreSignalEvent rst (mEfiCheckTimerEvent s2) s2; Some s } else Some s2) = Some s'"
    by (auto simp: bind_eq_Some_conv)
  have A: "ev_service s s1" by (rule CoreCurrentSystemTime_service(1) [OF inv s1])
  have A': "ev_held s s1" "ev_timers_same s s1" using A tpl by (auto intro: ev_service_held ev_serviceD(7))
  then have in1: "ev_inv s1" "gEfiCurrentTpl s1 = 30" "e \<notin> set (mEfiTimerList s1)"
    using tpl e(1) by (simp_all add: ev_held_def ev_timers_same_def)
  from ev_timers_same_event [OF A'(2) e(2)] e(3) obtain ev1 where ev1: "events s1 e = Some ev1"
    and ty: "Type ev1 AND EVT_TIMER \<noteq> 0" by auto
  let ?u = "ev_update e (\<lambda>ev. ev\<lparr>TriggerTime := Now + Time\<rparr>) s1"
  have B: "ev_held s1 ?u" by (rule ev_update_held [OF in1(1) _ _ _ in1(3)]) simp_all
  have C: "ev_held ?u s2"
    by (rule CoreInsertEventTimer_held [OF _ s2, of "ev1\<lparr>TriggerTime := Now + Time\<rparr>"]) (use B in1 ev1 ty in \<open>simp_all add: ev_held_def\<close>)
  have in2: "ev_inv s2" "gEfiCurrentTpl s2 = 30" using B C in1 by (simp_all add: ev_held_def)
  have D: "ev_held s2 s'"
    using s3 CoreSignalEvent_held(1) [OF in2(1)] in2 ev_held_refl [OF in2(1)]
    by (auto simp: bind_eq_Some_conv split: if_splits)
  show ?thesis by (intro ev_held_trans [OF A'(1)] ev_held_trans [OF B] ev_held_trans [OF C] D)
qed

lemma CoreSetTimer_step:
  assumes inv: "ev_inv s" "ev_quiet (gEfiCurrentTpl s) s" and r: "CoreSetTimer rst e Ty Time s = Some (st, s')"
  shows "ev_step (gEfiCurrentTpl s) s s'"
proof (cases "\<exists>ev. events s e = Some ev \<and> \<not> (Ty > TimerRelative \<or> Type ev AND EVT_TIMER = 0)")
  case False
  with r inv show ?thesis by (auto simp: CoreSetTimer_def ev_step_refl split: option.splits if_splits)
next
  case True
  then obtain ev where ev: "events s e = Some ev" "\<not> (Ty > TimerRelative \<or> Type ev AND EVT_TIMER = 0)" by blast
  let ?c = "\<lambda>s. ev_update e (\<lambda>ev. ev\<lparr>TriggerTime := 0, Period := 0\<rparr>) (s\<lparr>mEfiTimerList := removeAll e (mEfiTimerList s)\<rparr>)"
  obtain s1 s2 where s1: "CoreAcquireLock TimerLock s = Some s1"
    and s2: "(if Ty \<noteq> TimerCancel then
        do { let Time = (if Ty = TimerPeriodic \<and> Time = 0 then gTimerPeriod (?c s1) else Time);
             let s = (if Ty = TimerPeriodic then ev_update e (\<lambda>ev. ev\<lparr>Period := Time\<rparr>) (?c s1) else ?c s1);
             (Now, s) \<leftarrow> CoreCurrentSystemTime rst s;
             s \<leftarrow> CoreInsertEventTimer e (ev_update e (\<lambda>ev. ev\<lparr>TriggerTime := Now + Time\<rparr>) s);
             if Time = 0 then do { (Status, s) \<leftarrow> CoreSignalEvent rst (mEfiCheckTimerEvent s) s; Some s } else Some s }
        else Some (?c s1)) = Some s2"
    and s3: "CoreReleaseLock rst TimerLock s2 = Some s'"
    using r ev unfolding CoreSetTimer_def Let_def by (auto simp: bind_eq_Some_conv)
  note q = acquired [OF s1 inv(1)]
  have tpl: "gEfiCurrentTpl s1 = 30" using q(1) ev_signalsD(5) [OF inv(1)] by simp
  have c: "ev_held s1 (?c s1)" "e \<notin> set (mEfiTimerList (?c s1))"
    using ev_heldI [OF ev_remove_timer_inv [OF q(2), of e], of s1]
      ev_update_held [OF ev_remove_timer_inv [OF q(2), of e], of "\<lambda>ev. ev\<lparr>TriggerTime := 0, Period := 0\<rparr>" e]
    by (auto intro: ev_held_trans)
  have "ev_held s1 s2"
  proof (cases "Ty = TimerCancel")
    case True
    with s2 c show ?thesis by simp
  next
    case False
    define T where "T = (if Ty = TimerPeriodic \<and> Time = 0 then gTimerPeriod (?c s1) else Time)"
    define sP where "sP = (if Ty = TimerPeriodic then ev_update e (\<lambda>ev. ev\<lparr>Period := T\<rparr>) (?c s1) else ?c s1)"
    have P: "ev_held (?c s1) sP"
      using ev_update_held [OF _ _ _ _ c(2), of "\<lambda>ev. ev\<lparr>Period := T\<rparr>"] c(1) ev_held_refl
      by (auto simp: sP_def ev_held_def)
    from s2 False have s2': "do { (Now, s) \<leftarrow> CoreCurrentSystemTime rst sP;
             s \<leftarrow> CoreInsertEventTimer e (ev_update e (\<lambda>ev. ev\<lparr>TriggerTime := Now + T\<rparr>) s);
             if T = 0 then do { (Status, s) \<leftarrow> CoreSignalEvent rst (mEfiCheckTimerEvent s) s; Some s } else Some s } = Some s2"
      unfolding Let_def T_def [symmetric] sP_def [symmetric] by (simp only: simp_thms if_True)
    have "\<exists>ev'. events sP e = Some ev' \<and> Type ev' AND EVT_TIMER \<noteq> 0" using ev q(3) by (auto simp: sP_def)
    then obtain ev' where ev': "events sP e = Some ev'" "Type ev' AND EVT_TIMER \<noteq> 0" by blast
    have "ev_held sP s2"
      by (rule arm_timer [OF _ _ _ ev' s2']) (use c P tpl in \<open>auto simp: sP_def ev_held_def\<close>)
    with c(1) P show ?thesis by (blast intro: ev_held_trans)
  qed
  from section_held [OF inv(1) s1 this s3] show ?thesis .
qed

text \<open>
  Closing an event. Between its removal from the lists and the end of its life nothing runs, because
  nothing is pending above the caller's priority; so the event is in no list when it is freed.
\<close>

lemma CoreSetTimer_cancel:
  assumes inv: "ev_inv s" "ev_quiet (gEfiCurrentTpl s) s" and ev: "events s e = Some ev" "Type ev AND EVT_TIMER \<noteq> 0"
    and r: "CoreSetTimer rst e TimerCancel Time s = Some (st, s')"
  shows "e \<notin> set (mEfiTimerList s')"
proof -
  let ?c = "\<lambda>s. ev_update e (\<lambda>ev. ev\<lparr>TriggerTime := 0, Period := 0\<rparr>) (s\<lparr>mEfiTimerList := removeAll e (mEfiTimerList s)\<rparr>)"
  from r ev obtain s1 where s1: "CoreAcquireLock TimerLock s = Some s1" and s2: "CoreReleaseLock rst TimerLock (?c s1) = Some s'"
    unfolding CoreSetTimer_def Let_def by (auto simp: bind_eq_Some_conv)
  have "s' = ev_lowered (gEfiCurrentTpl s) (ev_released TimerLock (?c s1))"
    by (rule critical_idle [OF s1 _ _ s2]) (use inv(2) acquired(1) [OF s1 inv(1)] in \<open>simp_all add: ev_quiet_def\<close>)
  then show ?thesis by simp
qed

lemma CoreCloseEvent_step:
  assumes inv: "ev_inv s" "ev_quiet (gEfiCurrentTpl s) s" and r: "CoreCloseEvent rst e s = Some (st, s')"
  shows "ev_step (gEfiCurrentTpl s) s s'"
proof (cases "events s e")
  case None
  with r inv show ?thesis by (simp add: CoreCloseEvent_def ev_step_refl)
next
  case (Some ev)
  let ?un = "\<lambda>s. if ev_queued s e then ev_unqueue e s else s"
  let ?d = "\<lambda>s. (?un (s\<lparr>gRuntimeEvents := removeAll e (gRuntimeEvents s)\<rparr>))
               \<lparr>gEventSignalQueue := removeAll e (gEventSignalQueue (?un (s\<lparr>gRuntimeEvents := removeAll e (gRuntimeEvents s)\<rparr>)))\<rparr>"
  let ?p = "\<lambda>ev s. if ExFlag ev AND EVT_EXFLAG_EVENT_PROTOCOL_NOTIFICATION \<noteq> 0
               then s\<lparr>unregistered := unregistered s @ [e]\<rparr> else s"
  obtain s1 s2 s3 ev3 where s1: "(if Type ev AND EVT_TIMER \<noteq> 0
        then do { (Status, s) \<leftarrow> CoreSetTimer rst e TimerCancel 0 s; Some s } else Some s) = Some s1"
    and s2: "CoreAcquireLock EventQueueLock s1 = Some s2" and s3: "CoreReleaseLock rst EventQueueLock (?d s2) = Some s3"
    and ev3: "events s3 e = Some ev3" and s': "s' = (?p ev3 s3)\<lparr>events := (events (?p ev3 s3))(e := None)\<rparr>"
    using r unfolding CoreCloseEvent_def event_lock_defs Let_def Some option.case bind_eq_Some_conv option.inject prod.inject by blast
  have A: "ev_step (gEfiCurrentTpl s) s s1 \<and> e \<notin> set (mEfiTimerList s1)"
  proof (cases "Type ev AND EVT_TIMER \<noteq> 0")
    case True
    with s1 obtain st1 where "CoreSetTimer rst e TimerCancel 0 s = Some (st1, s1)" by (auto simp: bind_eq_Some_conv)
    with CoreSetTimer_step [OF inv] CoreSetTimer_cancel [OF inv Some True] show ?thesis by blast
  next
    case False
    have "e \<notin> set (mEfiTimerList s)" using ev_timers_okD(2) [OF inv(1), of e] Some False by auto
    with False s1 ev_step_refl [OF inv] show ?thesis by auto
  qed
  have in1: "ev_inv s1" "gEfiCurrentTpl s1 = gEfiCurrentTpl s" "ev_quiet (gEfiCurrentTpl s1) s1"
    using A by (auto simp: ev_step_def)
  note q = acquired [OF s2 in1(1)]
  have un: "?un (s2\<lparr>gRuntimeEvents := removeAll e (gRuntimeEvents s2)\<rparr>) =
      s2\<lparr>gRuntimeEvents := removeAll e (gRuntimeEvents s2), gEventQueue := (\<lambda>p. removeAll e (gEventQueue s2 p))\<rparr>"
    using ev_unqueue_queued [of "s2\<lparr>gRuntimeEvents := removeAll e (gRuntimeEvents s2)\<rparr>" e] q(2) by simp
  let ?e = "s2\<lparr>gRuntimeEvents := removeAll e (gRuntimeEvents s2), gEventQueue := (\<lambda>p. removeAll e (gEventQueue s2 p)),
      gEventSignalQueue := removeAll e (gEventSignalQueue s2)\<rparr>"
  have d: "?d s2 = ?e" unfolding un by simp
  have "ev_inv ?e"
    using ev_unsignal_inv [OF ev_unqueue_inv [of "s2\<lparr>gRuntimeEvents := removeAll e (gRuntimeEvents s2)\<rparr>" e], of e] q(2)
    by (simp add: ev_unqueue_def)
  then have h: "ev_held s2 ?e" by (intro ev_heldI) simp_all
  note s3 = s3 [unfolded d]
  have B: "ev_step (gEfiCurrentTpl s) s1 s3" using section_held [OF in1(1) s2 h s3] in1(2) by simp
  have "s3 = ev_lowered (gEfiCurrentTpl s1) (ev_released EventQueueLock ?e)"
    by (rule critical_idle [OF s2 _ _ s3]) (use in1(3) q(1) in \<open>simp_all add: ev_quiet_def\<close>)
  then have out: "\<And>p. e \<notin> set (gEventQueue s3 p)" "e \<notin> set (gEventSignalQueue s3)" "e \<notin> set (mEfiTimerList s3)"
    using A q(1) by simp_all
  have "ev_inv s'" using ev_close_inv [of "?p ev3 s3" e] ev_stepD(1) [OF B] out by (simp add: s')
  with B have "ev_step (gEfiCurrentTpl s) s1 s'"
    by (simp add: ev_step_def s' ev_quiet_def ev_locks_same_def ev_preempted_def)
  with A show ?thesis by (blast intro: ev_step_trans)
qed

text \<open>The timer check: when its loop ends, only timers that are not due are left.\<close>

lemma rearm_timer:
  assumes inv: "ev_inv s" and tpl: "gEfiCurrentTpl s = 30"
    and e: "e \<notin> set (mEfiTimerList s)" "events s e = Some ev" "Type ev AND EVT_TIMER \<noteq> 0"
    and r: "do { s \<leftarrow> (if late then
                     do { (Status, s) \<leftarrow> CoreSignalEvent rst ct (ev_update e (\<lambda>ev. ev\<lparr>TriggerTime := Now\<rparr>) s); Some s }
                   else Some s);
                 CoreInsertEventTimer e s } = Some s'"
  shows "ev_held s s'"
proof -
  from r obtain s1 where s1: "(if late then
        do { (Status, s) \<leftarrow> CoreSignalEvent rst ct (ev_update e (\<lambda>ev. ev\<lparr>TriggerTime := Now\<rparr>) s); Some s }
      else Some s) = Some s1" and s2: "CoreInsertEventTimer e s1 = Some s'"
    unfolding bind_eq_Some_conv by blast
  let ?u = "ev_update e (\<lambda>ev. ev\<lparr>TriggerTime := Now\<rparr>) s"
  have u: "ev_held s ?u" by (rule ev_update_held [OF inv _ _ _ e(1)]) simp_all
  have "ev_held s s1 \<and> e \<notin> set (mEfiTimerList s1) \<and> (\<exists>ev1. events s1 e = Some ev1 \<and> Type ev1 AND EVT_TIMER \<noteq> 0)"
  proof (cases late)
    case True
    with s1 obtain st where st: "CoreSignalEvent rst ct ?u = Some (st, s1)" by (auto simp: bind_eq_Some_conv)
    have g: "ev_held ?u s1" "ev_timers_same ?u s1"
      using CoreSignalEvent_held [OF _ _ st] u tpl by (simp_all add: ev_held_def)
    from ev_timers_same_event [OF g(2), of e "ev\<lparr>TriggerTime := Now\<rparr>"] e
    have "\<exists>ev1. events s1 e = Some ev1 \<and> Type ev1 AND EVT_TIMER \<noteq> 0" by auto
    moreover have "e \<notin> set (mEfiTimerList s1)" using g(2) e(1) by (simp add: ev_timers_same_def)
    ultimately show ?thesis using ev_held_trans [OF u g(1)] by blast
  qed (use s1 e ev_held_refl [OF inv] in auto)
  then show ?thesis using CoreInsertEventTimer_held [OF _ s2] by (auto simp: ev_held_def intro: ev_locks_same_trans)
qed

lemma ev_check_timers_held:
  assumes "ev_inv s" "gEfiCurrentTpl s = 30" "ev_check_timers fuel rst Now s = Some s'"
  shows "ev_held s s' \<and> (\<forall>e \<in> set (mEfiTimerList s'). Now < ev_time s' e)"
  using assms
proof (induction fuel arbitrary: s)
  case (Suc fuel)
  show ?case
  proof (cases "mEfiTimerList s")
    case Nil
    with Suc.prems show ?thesis by (simp add: ev_held_refl)
  next
    case (Cons e Links)
    with Suc.prems(3) obtain ev where ev: "events s e = Some ev" by (auto simp: bind_eq_Some_conv)
    have ty: "Type ev AND EVT_TIMER \<noteq> 0" using ev_timers_okD(2) [OF Suc.prems(1), of e] Cons ev by auto
    show ?thesis
    proof (cases "TriggerTime ev > Now")
      case True
      with Suc.prems(3) Cons ev have s': "s' = s" by simp
      have "ev_time s e = TriggerTime ev" using ev by (simp add: ev_time_def)
      then have "\<forall>a \<in> set (mEfiTimerList s). Now < ev_time s a"
        using ev_timers_okD(3) [OF Suc.prems(1)] Cons True by (auto intro: order.strict_trans2)
      with s' Suc.prems(1) show ?thesis by (simp add: ev_held_refl)
    next
      case False
      let ?l = "s\<lparr>mEfiTimerList := Links\<rparr>"
      let ?p = "\<lambda>ev s. ev_update e (\<lambda>ev. ev\<lparr>TriggerTime := TriggerTime ev + Period ev\<rparr>) s"
      let ?re = "\<lambda>ev1 s1. if Period ev1 \<noteq> 0 then
            do { s \<leftarrow> (if TriggerTime ev1 + Period ev1 \<le> Now then
                     do { (Status, s) \<leftarrow> CoreSignalEvent rst (mEfiCheckTimerEvent s1) (ev_update e (\<lambda>ev. ev\<lparr>TriggerTime := Now\<rparr>) (?p ev1 s1)); Some s }
                   else Some (?p ev1 s1));
                 CoreInsertEventTimer e s } else Some s1"
      obtain st s1 ev1 s2 where s1: "CoreSignalEvent rst e ?l = Some (st, s1)" and ev1: "events s1 e = Some ev1"
        and s2: "?re ev1 s1 = Some s2" and rest: "ev_check_timers fuel rst Now s2 = Some s'"
        using Suc.prems(3) False
        unfolding ev_check_timers.simps Cons list.case ev bind.bind_lunit if_not_P [OF False] Let_def
          bind_eq_Some_conv split_paired_Ex prod.case ev_update_frame(8) by blast
      note l = ev_expire_timer_inv [OF Suc.prems(1) Cons]
      have A: "ev_held ?l s1" "ev_timers_same ?l s1" using CoreSignalEvent_held [OF l(1) _ s1] Suc.prems(2) by simp_all
      have in1: "ev_inv s1" "gEfiCurrentTpl s1 = 30" "e \<notin> set (mEfiTimerList s1)"
        using A l(2) Suc.prems(2) by (simp_all add: ev_held_def ev_timers_same_def)
      have ty1: "Type ev1 AND EVT_TIMER \<noteq> 0" using ev_timers_same_event [OF A(2), of e ev] ev ev1 ty by auto
      have "ev_held s1 s2"
      proof (cases "Period ev1 = 0")
        case True
        with s2 in1 show ?thesis by (simp add: ev_held_refl)
      next
        case per: False
        have P: "ev_held s1 (?p ev1 s1)" by (rule ev_update_held [OF in1(1) _ _ _ in1(3)]) simp_all
        have "ev_held (?p ev1 s1) s2"
          by (rule rearm_timer [OF _ _ _ _ _ s2 [unfolded if_P [OF per]], where ev = "ev1\<lparr>TriggerTime := TriggerTime ev1 + Period ev1\<rparr>"])
            (use P in1 ev1 ty1 in \<open>simp_all add: ev_held_def\<close>)
        with P show ?thesis by (rule ev_held_trans)
      qed
      with A(1) have h: "ev_held ?l s2" by (rule ev_held_trans)
      then have "ev_held s s2" by (simp add: ev_held_def ev_locks_same_def)
      moreover have "ev_held s2 s' \<and> (\<forall>e \<in> set (mEfiTimerList s'). Now < ev_time s' e)"
        using Suc.IH [OF _ _ rest] h Suc.prems(2) by (simp add: ev_held_def)
      ultimately show ?thesis by (blast intro: ev_held_trans)
    qed
  qed
qed simp

lemma CoreCheckTimers_step:
  assumes inv: "ev_inv s" and r: "CoreCheckTimers fuel rst s = Some s'"
  shows "ev_step (gEfiCurrentTpl s) s s'"
proof -
  from r obtain s1 Now s2 s3 where s1: "CoreAcquireLock TimerLock s = Some s1"
    and s2: "CoreCurrentSystemTime rst s1 = Some (Now, s2)" and s3: "ev_check_timers fuel rst Now s2 = Some s3"
    and s4: "CoreReleaseLock rst TimerLock s3 = Some s'"
    by (auto simp: CoreCheckTimers_def bind_eq_Some_conv)
  note q = acquired [OF s1 inv]
  have tpl: "gEfiCurrentTpl s1 = 30" using q(1) ev_signalsD(5) [OF inv] by simp
  have A: "ev_held s1 s2" using CoreCurrentSystemTime_service(1) [OF q(2) s2] tpl by (auto intro: ev_service_held)
  then have "ev_held s2 s3" using ev_check_timers_held [OF _ _ s3] tpl by (simp add: ev_held_def)
  with A have "ev_held s1 s3" by (rule ev_held_trans)
  from section_held [OF inv s1 this s4] show ?thesis .
qed

lemma CoreTimerTick_step:
  assumes inv: "ev_inv s" and r: "CoreTimerTick rst d s = Some s'"
  shows "ev_step (gEfiCurrentTpl s) s s'"
proof -
  let ?t = "\<lambda>s. s\<lparr>mEfiSystemTime := mEfiSystemTime s + d\<rparr>"
  from r obtain s1 s2 where s1: "CoreAcquireLock SystemTimeLock s = Some s1"
    and l: "(case mEfiTimerList (?t s1) of [] \<Rightarrow> Some (?t s1)
            | e # _ \<Rightarrow>
              do { Event \<leftarrow> events (?t s1) e;
                if TriggerTime Event \<le> mEfiSystemTime (?t s1)
                then do { (Status, s) \<leftarrow> CoreSignalEvent rst (mEfiCheckTimerEvent (?t s1)) (?t s1); Some s }
                else Some (?t s1) }) = Some s2"
    and s3: "CoreReleaseLock rst SystemTimeLock s2 = Some s'"
    unfolding CoreTimerTick_def bind_eq_Some_conv Let_def by blast
  have s2: "s2 = ?t s1 \<or> (\<exists>e st. CoreSignalEvent rst e (?t s1) = Some (st, s2))"
    using l by (auto simp: bind_eq_Some_conv split: list.splits if_splits)
  note q = acquired [OF s1 inv]
  have t: "ev_held s1 (?t s1)" using q(2) by (intro ev_heldI) simp_all
  have "gEfiCurrentTpl s1 = 31" using q(1) ev_signalsD(6) [OF inv] by simp
  then have "ev_held (?t s1) s2" using s2 CoreSignalEvent_held(1) [of "?t s1"] q(2) ev_held_refl [of "?t s1"] by auto
  with t have "ev_held s1 s2" by (rule ev_held_trans)
  from section_held [OF inv s1 this s3] show ?thesis .
qed

end

end
