(* ===== verification/Event_Restore.thy ===== *)
theory Event_Restore
  imports Event_Calls
begin

text \<open>
  Lowering the task priority: the notification functions of the drivers and of the timer check, the
  dispatch loop and \<open>CoreRestoreTpl\<close>, which is shown to implement the interface \<open>restoring\<close> by
  induction on the nesting depth.
\<close>

lemma ev_quiet_mono: "ev_quiet t s \<Longrightarrow> t \<le> u \<Longrightarrow> ev_quiet u s"
  by (auto simp: ev_quiet_def)

context restoring
begin

lemma ev_call_step:
  assumes "ev_inv s" "ev_quiet (gEfiCurrentTpl s) s" "ev_call rst c s = Some (st, s')"
  shows "ev_step (gEfiCurrentTpl s) s s'"
  using assms
proof (induction c arbitrary: s st s')
  case (AtTpl level c)
  from AtTpl.prems(3) obtain s1 s2 where old: "gEfiCurrentTpl s \<le> level" and s1: "s1 = ev_raised level s"
    and s2: "ev_call rst c s1 = Some (st, s2)" and s3: "rst (gEfiCurrentTpl s) s2 = Some s'"
    by (auto simp: bind_eq_Some_conv CoreRaiseTpl_eq split: if_splits)
  have q: "ev_inv s1" "gEfiCurrentTpl s1 = level" "locks s1 = locks s" "notified s1 = notified s"
    using AtTpl.prems(1) by (simp_all add: s1)
  have "ev_quiet level s1" using AtTpl.prems(2) old by (auto simp: s1 ev_quiet_def)
  with AtTpl.IH [OF q(1) _ s2] q(2) have "ev_step level s1 s2" by simp
  then have A: "ev_step level s s2" by (rule ev_step_same) (simp_all add: q)
  from sound [OF ev_stepD(1) [OF A] s3] have B: "ev_step (gEfiCurrentTpl s) s2 s'" .
  have "ev_preempted (gEfiCurrentTpl s) s s2"
    by (rule ev_preempted_trans [of _ s s level s2]) (use A old in \<open>simp_all add: ev_step_def\<close>)
  with A B show ?case
    by (auto simp: ev_step_def intro: ev_locks_same_trans ev_preempted_trans)
qed (auto simp: CoreCreateEventEx_def intro: ev_serviceD(6) CoreSignalEvent_service CoreCheckEvent_service
      CoreSetTimer_step CoreCloseEvent_step CoreCreateEventInternal_step)

lemma ev_driver_step:
  assumes "ev_inv s" "ev_quiet (gEfiCurrentTpl s) s" "ev_driver fuel rst code f e k st s = Some s'"
  shows "ev_step (gEfiCurrentTpl s) s s'"
  using assms
proof (induction fuel arbitrary: k st s)
  case (Suc fuel)
  show ?case
  proof (cases "code f e k st s")
    case None
    with Suc.prems show ?thesis by (simp add: ev_step_refl)
  next
    case (Some c)
    with Suc.prems(3) obtain st1 s1 where s1: "ev_call rst c s = Some (st1, s1)"
      and rest: "ev_driver fuel rst code f e (Suc k) st1 s1 = Some s'" by (auto simp: bind_eq_Some_conv)
    have A: "ev_step (gEfiCurrentTpl s) s s1" by (rule ev_call_step [OF Suc.prems(1,2) s1])
    with Suc.IH [OF _ _ rest] have "ev_step (gEfiCurrentTpl s) s1 s'" by (simp add: ev_step_def)
    with A show ?thesis by (rule ev_step_trans)
  qed
qed simp

lemma ev_notify_step:
  assumes "ev_inv s" "ev_quiet (gEfiCurrentTpl s) s" "ev_notify fuel rst code Fn e s = Some s'"
  shows "ev_step (gEfiCurrentTpl s) s s'"
  using assms
  by (cases Fn) (auto simp: ev_notify_def intro: ev_step_refl ev_driver_step CoreCheckTimers_step)

text \<open>
  One round of dispatching, from the head of the queue to the lock being held again. \<open>t\<close> is any lower
  priority.
\<close>

lemma ev_dispatch_round:
  assumes inv: "ev_inv s" and own: "OwnerTpl (locks s EventQueueLock) = P" and t: "t < P"
    and q: "gEventQueue s P = e # Links" and ev: "events s e = Some ev"
    and r: "CoreReleaseLock rst EventQueueLock
        ((if clear then ev_update e (\<lambda>ev. ev\<lparr>SignalCount := 0\<rparr>) (s\<lparr>gEventQueue := (gEventQueue s)(P := Links)\<rparr>)
          else s\<lparr>gEventQueue := (gEventQueue s)(P := Links)\<rparr>)) = Some s1"
    and n: "ev_notify fuel rst code Fn e (s1\<lparr>notified := notified s1 @ [(gEfiCurrentTpl s1, e)]\<rparr>) = Some s2"
    and a: "CoreAcquireLock EventQueueLock s2 = Some s3"
  shows "ev_inv s3" "ev_locks_same s s3" "ev_preempted t s s3" "gEfiCurrentTpl s1 = P"
    "OwnerTpl (locks s3 EventQueueLock) = P"
proof -
  let ?d = "s\<lparr>gEventQueue := (gEventQueue s)(P := Links)\<rparr>"
  let ?u = "if clear then ev_update e (\<lambda>ev. ev\<lparr>SignalCount := 0\<rparr>) ?d else ?d"
  have d: "ev_inv ?d" by (rule ev_dequeue_inv [OF inv q])
  have u: "ev_inv ?u" "locks ?u = locks s" "notified ?u = notified s"
    using d ev_update_inv [OF d, of "\<lambda>ev. ev\<lparr>SignalCount := 0\<rparr>" e] by simp_all
  from r have acq: "Lock (locks s EventQueueLock) = EfiLockAcquired"
    and r': "rst P (ev_released EventQueueLock ?u) = Some s1"
    by (simp_all add: CoreReleaseLock_eq own u split: if_splits)
  have A: "ev_step P (ev_released EventQueueLock ?u) s1" by (rule sound [OF _ r']) (simp only: ev_released_frame u)
  show tpl: "gEfiCurrentTpl s1 = P" by (rule ev_stepD(2) [OF A])
  let ?n = "s1\<lparr>notified := notified s1 @ [(gEfiCurrentTpl s1, e)]\<rparr>"
  have B: "ev_step P ?n s2" using ev_notify_step [OF _ _ n] A by (simp add: ev_step_def ev_quiet_def)
  note s3 = acquired [OF a ev_stepD(1) [OF B]]
  show "ev_inv s3" by (rule s3(2))
  show "OwnerTpl (locks s3 EventQueueLock) = P" using s3(1) ev_stepD(2) [OF B] by simp
  show "ev_locks_same s s3"
    using ev_stepD(4) [OF A] ev_stepD(4) [OF B] ev_stepD(2) [OF B] acq own s3(1) u(2) by (auto simp: ev_locks_same_def)
  have "ev_preempted t s s1"
    using ev_preempted_trans [OF _ ev_stepD(5) [OF A], of t s] t u(3) by (auto simp: ev_preempted_def)
  moreover have "ev_preempted t s1 ?n" using t tpl by (simp add: ev_preempted_def)
  moreover have "ev_preempted t s2 s3" by (simp add: s3(1) ev_preempted_def)
  ultimately show "ev_preempted t s s3"
    using ev_stepD(5) [OF B] t by (meson ev_preempted_trans less_imp_le order_refl)
qed

lemma ev_dispatch_step:
  assumes "ev_inv s" "OwnerTpl (locks s EventQueueLock) = P" "t < P" "ev_dispatch fuel rst code P s = Some s'"
  shows "ev_inv s' \<and> ev_locks_same s s' \<and> ev_preempted t s s' \<and> gEventQueue s' P = []"
  using assms
proof (induction fuel arbitrary: s)
  case (Suc fuel)
  show ?case
  proof (cases "gEventQueue s P")
    case Nil
    with Suc.prems show ?thesis by simp
  next
    case (Cons e Links)
    let ?d = "s\<lparr>gEventQueue := (gEventQueue s)(P := Links)\<rparr>"
    obtain ev s1 Fn s2 s3 where ev: "events s e = Some ev"
      and s1: "CoreReleaseLock rst EventQueueLock
        ((if Type ev AND EVT_NOTIFY_SIGNAL \<noteq> 0 then ev_update e (\<lambda>ev. ev\<lparr>SignalCount := 0\<rparr>) ?d else ?d)) = Some s1"
      and s2: "ev_notify fuel rst code Fn e (s1\<lparr>notified := notified s1 @ [(gEfiCurrentTpl s1, e)]\<rparr>) = Some s2"
      and s3: "CoreAcquireLock EventQueueLock s2 = Some s3" and rest: "ev_dispatch fuel rst code P s3 = Some s'"
      using Suc.prems(4) unfolding ev_dispatch.simps Cons list.case event_lock_defs Let_def bind_eq_Some_conv by blast
    note round = ev_dispatch_round [OF Suc.prems(1-3) Cons ev s1 s2 s3]
    from Suc.IH [OF round(1,5) Suc.prems(3) rest] round(2,3) show ?thesis
      by (auto intro: ev_locks_same_trans ev_preempted_trans)
  qed
qed simp

lemma CoreDispatchEventNotifies_step:
  assumes inv: "ev_inv s" and t: "t < P" and r: "CoreDispatchEventNotifies fuel rst code P s = Some s'"
  shows "ev_inv s'" "ev_locks_same s s'" "ev_preempted t s s'" "gEfiCurrentTpl s' = P" "ev_quiet P s'"
proof -
  let ?c = "\<lambda>s. s\<lparr>gEventPending := gEventPending s AND NOT (push_bit P 1)\<rparr>"
  obtain s1 s2 where s1: "CoreAcquireLock EventQueueLock s = Some s1" and own: "OwnerTpl (locks s1 EventQueueLock) = P"
    and s2: "ev_dispatch fuel rst code P s1 = Some s2" and s3: "CoreReleaseLock rst EventQueueLock (?c s2) = Some s'"
    using r unfolding CoreDispatchEventNotifies_def event_lock_defs Let_def bind_eq_Some_conv ev_assert_def
    by (auto split: if_splits)
  note q = acquired [OF s1 inv]
  have tpl: "gEfiCurrentTpl s = P" using own q(1) by simp
  have d: "ev_inv s2" "ev_locks_same s1 s2" "ev_preempted t s1 s2" "gEventQueue s2 P = []"
    using ev_dispatch_step [OF q(2) own t s2] by simp_all
  have c: "ev_inv (?c s2)" by (rule ev_clear_pending_inv [OF d(1,4)])
  have acq: "OwnerTpl (locks s2 EventQueueLock) = P" using d(2) q(1) tpl by (simp add: ev_locks_same_def)
  from s3 have r': "rst P (ev_released EventQueueLock (?c s2)) = Some s'"
    using acq by (simp add: CoreReleaseLock_eq split: if_splits)
  have E: "ev_step P (ev_released EventQueueLock (?c s2)) s'" by (rule sound [OF _ r']) (use c in simp)
  show "ev_inv s'" "gEfiCurrentTpl s' = P" "ev_quiet P s'" using E by (simp_all add: ev_step_def)
  have "Lock (locks s EventQueueLock) = EfiLockReleased" using s1 by (simp add: CoreAcquireLock_eq split: if_splits)
  then show "ev_locks_same s s'" using ev_stepD(4) [OF E] d(2) q(1) by (auto simp: ev_locks_same_def)
  have "ev_preempted t s s2" using d(3) q(1) by (simp add: ev_preempted_def)
  moreover have "ev_preempted P s2 s'" using ev_stepD(5) [OF E] by (simp add: ev_preempted_def)
  ultimately show "ev_preempted t s s'" using t by (meson ev_preempted_trans less_imp_le)
qed

end

section \<open>The loop over the pending priorities\<close>

lemma ev_quiet_iff: "ev_quiet t s \<longleftrightarrow> gEventPending s = 0 \<or> nat (HighBitSet64 (gEventPending s)) \<le> t"
proof (cases "gEventPending s = 0")
  case False
  from HighBitSet64_highest [OF False] obtain k where k: "HighBitSet64 (gEventPending s) = int k" "bit (gEventPending s) k"
    "\<And>j. bit (gEventPending s) j \<Longrightarrow> j \<le> k" by metis
  then show ?thesis using False by (auto simp: ev_quiet_def intro: order_trans)
qed (simp add: ev_quiet_def)

context restoring
begin

lemma ev_restore_loop_step:
  assumes "ev_inv s" "ev_restore_loop fuel rst code t s = Some s'"
  shows "ev_inv s' \<and> ev_quiet t s' \<and> ev_locks_same s s' \<and> ev_preempted t s s'"
  using assms
proof (induction fuel arbitrary: s)
  case (Suc fuel)
  show ?case
  proof (cases "ev_quiet t s")
    case True
    then have "s' = s" using Suc.prems(2) by (cases "gEventPending s = 0") (simp_all add: ev_quiet_iff Let_def)
    with True Suc.prems(1) show ?thesis by simp
  next
    case False
    define P where "P = nat (HighBitSet64 (gEventPending s))"
    let ?i = "if P < TPL_HIGH_LEVEL then CoreSetInterruptState True (s\<lparr>gEfiCurrentTpl := P\<rparr>) else s\<lparr>gEfiCurrentTpl := P\<rparr>"
    have nz: "gEventPending s \<noteq> 0" and lt: "t < P" using False by (auto simp: ev_quiet_iff P_def)
    obtain s1 where s1: "CoreDispatchEventNotifies fuel rst code P ?i = Some s1"
      and rest: "ev_restore_loop fuel rst code t s1 = Some s'"
      using Suc.prems(2) nz lt unfolding ev_restore_loop.simps Let_def P_def [symmetric] bind_eq_Some_conv
      by (auto simp: bind_eq_Some_conv)
    have i: "ev_inv ?i" "locks ?i = locks s" "notified ?i = notified s" using Suc.prems(1) by simp_all
    note d = CoreDispatchEventNotifies_step [OF i(1) lt s1]
    have "ev_locks_same s s1" "ev_preempted t s s1" using d(2,3) i(2,3) by (simp_all add: ev_locks_same_def ev_preempted_def)
    with Suc.IH [OF d(1) rest] show ?thesis by (auto intro: ev_locks_same_trans ev_preempted_trans)
  qed
qed simp

lemma ev_restore_sound:
  assumes inv: "ev_inv s" and r: "ev_restore fuel rst code t s = Some s'"
  shows "ev_step t s s'"
proof -
  let ?h = "if gEfiCurrentTpl s \<ge> TPL_HIGH_LEVEL \<and> t < TPL_HIGH_LEVEL then s\<lparr>gEfiCurrentTpl := TPL_HIGH_LEVEL\<rparr> else s"
  obtain s1 where s1: "ev_restore_loop fuel rst code t ?h = Some s1" and s': "s' = ev_lowered t s1"
    using r unfolding ev_restore_def Let_def bind_eq_Some_conv ev_assert_def ev_lowered_def by (auto split: if_splits)
  have "ev_inv ?h" "locks ?h = locks s" "notified ?h = notified s" using inv by simp_all
  with ev_restore_loop_step [OF _ s1] show ?thesis
    by (simp add: s' ev_step_def ev_quiet_def ev_locks_same_def ev_preempted_def)
qed

end

section \<open>CoreRestoreTpl implements the interface\<close>

text \<open>With nothing pending above the new priority, lowering it does nothing else.\<close>

lemma ev_restore_idle:
  assumes "ev_quiet t s"
  shows "ev_restore (Suc fuel) rst code t s = (if t \<le> gEfiCurrentTpl s \<and> t \<le> TPL_HIGH_LEVEL then Some (ev_lowered t s) else None)"
proof -
  let ?h = "if gEfiCurrentTpl s \<ge> TPL_HIGH_LEVEL \<and> t < TPL_HIGH_LEVEL then s\<lparr>gEfiCurrentTpl := TPL_HIGH_LEVEL\<rparr> else s"
  have "ev_quiet t ?h" using assms by (simp add: ev_quiet_def)
  then have "ev_restore_loop (Suc fuel) rst code t ?h = Some ?h" by (auto simp: ev_quiet_iff Let_def)
  moreover have "?h\<lparr>gEfiCurrentTpl := t\<rparr> = s\<lparr>gEfiCurrentTpl := t\<rparr>" by simp
  ultimately show ?thesis
    unfolding ev_restore_def Let_def ev_lowered_def ev_assert_def VALID_TPL_def
    by (cases "t \<le> gEfiCurrentTpl s"; cases "t \<le> TPL_HIGH_LEVEL") simp_all
qed

lemma ev_restore_idle_Some:
  assumes "ev_quiet t s" "ev_restore fuel rst code t s = Some s'"
  shows "s' = ev_lowered t s"
proof (cases fuel)
  case 0
  with assms(2) show ?thesis by (simp add: ev_restore_def Let_def ev_assert_def split: if_splits)
next
  case (Suc n)
  with assms show ?thesis by (simp add: ev_restore_idle split: if_splits)
qed

lemma restoring_CoreRestoreTpl: "restoring (CoreRestoreTpl code fuel)"
proof (induction fuel)
  case 0
  show ?case by unfold_locales simp_all
next
  case (Suc fuel)
  show ?case by unfold_locales (auto intro: restoring.ev_restore_sound [OF Suc] ev_restore_idle_Some)
qed

interpretation core: restoring "CoreRestoreTpl code fuel" for code fuel
  by (rule restoring_CoreRestoreTpl)

end
