(* ===== verification/Event_Order.thy ===== *)
theory Event_Order
  imports Event_Restore
begin

text \<open>
  That lowering the task priority returns, and in which order it notifies: for notification functions
  that return without calling a service, the queues above the new priority are emptied from the
  highest to the lowest, each from its head to its tail.
\<close>

section \<open>Lowering the priority returns when nothing is pending\<close>

locale restoring_total = restoring +
  assumes returns: "ev_quiet t s \<Longrightarrow> t \<le> gEfiCurrentTpl s \<Longrightarrow> t \<le> TPL_HIGH_LEVEL \<Longrightarrow> rst t s \<noteq> None"
begin

lemma idle_eq: "ev_quiet t s \<Longrightarrow> t \<le> gEfiCurrentTpl s \<Longrightarrow> t \<le> TPL_HIGH_LEVEL \<Longrightarrow> rst t s = Some (ev_lowered t s)"
  using returns [of t s] idle [of t s] by (cases "rst t s") auto

lemma release_eq:
  assumes "Lock (locks s L) = EfiLockAcquired" "ev_quiet (OwnerTpl (locks s L)) s"
    "OwnerTpl (locks s L) \<le> gEfiCurrentTpl s" "OwnerTpl (locks s L) \<le> TPL_HIGH_LEVEL"
  shows "CoreReleaseLock rst L s = Some (ev_lowered (OwnerTpl (locks s L)) (ev_released L s))"
  using assms idle_eq [of "OwnerTpl (locks s L)" "ev_released L s"] by (simp add: CoreReleaseLock_eq ev_quiet_def)

end

interpretation core_total: restoring_total "CoreRestoreTpl code (Suc (Suc fuel))" for code fuel
proof
  fix t s
  assume "ev_quiet t s" "t \<le> gEfiCurrentTpl s" "t \<le> TPL_HIGH_LEVEL"
  then show "CoreRestoreTpl code (Suc (Suc fuel)) t s \<noteq> None"
    by (simp add: ev_restore_idle del: CoreRestoreTpl.simps(2)) (simp add: ev_restore_idle CoreRestoreTpl.simps(2))
qed

section \<open>Dispatching one priority\<close>

text \<open>A driver's notification function that returns at once.\<close>

definition ev_leaf :: driver_code where
  "ev_leaf f e k st s = None"

definition ev_leaf_event :: "ev_state \<Rightarrow> EFI_EVENT \<Rightarrow> bool" where
  "ev_leaf_event s e \<longleftrightarrow> (\<exists>ev. events s e = Some ev \<and> NotifyFunction ev \<noteq> Some CoreCheckTimersFunction)"

text \<open>The dispatch lock is held for the priority.\<close>

definition ev_dispatching :: "EFI_TPL \<Rightarrow> ev_state \<Rightarrow> bool" where
  "ev_dispatching P s \<longleftrightarrow>
     ev_inv s \<and> ev_quiet P s \<and> P < TPL_HIGH_LEVEL \<and> gEfiCurrentTpl s = TPL_HIGH_LEVEL \<and>
     Lock (locks s EventQueueLock) = EfiLockAcquired \<and> OwnerTpl (locks s EventQueueLock) = P"

definition ev_fun_same :: "ev_state \<Rightarrow> ev_state \<Rightarrow> bool" where
  "ev_fun_same s s' \<longleftrightarrow>
     (\<forall>a. map_option NotifyFunction (events s' a) = map_option NotifyFunction (events s a)) \<and>
     mEfiTimerList s' = mEfiTimerList s \<and> mEfiSystemTime s' = mEfiSystemTime s \<and> gEventSignalQueue s' = gEventSignalQueue s"

lemma ev_fun_same_refl [simp]: "ev_fun_same s s"
  by (simp add: ev_fun_same_def)

lemma ev_fun_same_trans: "ev_fun_same s s1 \<Longrightarrow> ev_fun_same s1 s2 \<Longrightarrow> ev_fun_same s s2"
  by (simp add: ev_fun_same_def)

lemma ev_leaf_event_same: "ev_fun_same s s' \<Longrightarrow> ev_leaf_event s e \<Longrightarrow> ev_leaf_event s' e"
proof -
  assume f: "ev_fun_same s s'" and l: "ev_leaf_event s e"
  from l obtain ev where ev: "events s e = Some ev" "NotifyFunction ev \<noteq> Some CoreCheckTimersFunction" by (auto simp: ev_leaf_event_def)
  from f have "map_option NotifyFunction (events s' e) = Some (NotifyFunction ev)" by (simp add: ev_fun_same_def ev)
  with ev(2) show "ev_leaf_event s' e" by (auto simp: ev_leaf_event_def)
qed

lemma ev_notify_leaf:
  "Fn \<noteq> CoreCheckTimersFunction \<Longrightarrow> ev_notify (Suc fuel) rst ev_leaf Fn e s = Some s"
  by (cases Fn) (simp_all add: ev_notify_def ev_leaf_def)

context restoring_total
begin

lemma ev_dispatch_leaf_round:
  assumes d: "ev_dispatching P s" and q: "gEventQueue s P = e # Links" and l: "ev_leaf_event s e"
  obtains s' where "ev_dispatch (Suc (Suc fuel)) rst ev_leaf P s = ev_dispatch (Suc fuel) rst ev_leaf P s'"
    "ev_dispatching P s'" "gEventQueue s' = (gEventQueue s)(P := Links)" "gEventPending s' = gEventPending s"
    "notified s' = notified s @ [(P, e)]" "ev_locks_same s s'" "ev_fun_same s s'"
proof -
  have inv: "ev_inv s" "ev_quiet P s" "P < TPL_HIGH_LEVEL" "gEfiCurrentTpl s = TPL_HIGH_LEVEL"
    and lock: "Lock (locks s EventQueueLock) = EfiLockAcquired" "OwnerTpl (locks s EventQueueLock) = P"
    using d by (simp_all add: ev_dispatching_def)
  from l obtain ev where ev: "events s e = Some ev" "NotifyFunction ev \<noteq> Some CoreCheckTimersFunction" by (auto simp: ev_leaf_event_def)
  have p: "NotifyTpl ev = P" "ev_notifies ev" using ev_queues_okD(2) [OF inv(1), of e P] q ev by auto
  with ev_validD [OF inv(1) ev(1)] ev(2) obtain Fn where Fn: "NotifyFunction ev = Some Fn" "Fn \<noteq> CoreCheckTimersFunction" by auto
  let ?d = "s\<lparr>gEventQueue := (gEventQueue s)(P := Links)\<rparr>"
  define u where "u = (if Type ev AND EVT_NOTIFY_SIGNAL \<noteq> 0 then ev_update e (\<lambda>ev. ev\<lparr>SignalCount := 0\<rparr>) ?d else ?d)"
  have ui: "ev_inv u" using ev_dequeue_inv [OF inv(1) q] ev_update_inv [of ?d "\<lambda>ev. ev\<lparr>SignalCount := 0\<rparr>" e] by (simp add: u_def)
  have u: "locks u = locks s" "gEventPending u = gEventPending s" "gEfiCurrentTpl u = TPL_HIGH_LEVEL" "notified u = notified s"
    "gEventQueue u = (gEventQueue s)(P := Links)" using inv(4) by (simp_all add: u_def)
  have uf: "ev_fun_same s u" by (simp add: u_def ev_fun_same_def option.map_comp comp_def)
  have ue: "\<exists>ev'. events u e = Some ev' \<and> NotifyFunction ev' = Some Fn \<and> NotifyTpl ev' = P"
    using ev(1) Fn p by (simp add: u_def)
  then obtain ev' where ev': "events u e = Some ev'" "NotifyFunction ev' = Some Fn" "NotifyTpl ev' = P" by blast
  define s1 where "s1 = ev_lowered P (ev_released EventQueueLock u)"
  have r: "CoreReleaseLock rst EventQueueLock u = Some s1"
    using release_eq [of u EventQueueLock] lock inv u by (simp add: s1_def ev_quiet_def)
  define s2 where "s2 = s1\<lparr>notified := notified s1 @ [(gEfiCurrentTpl s1, e)]\<rparr>"
  define s3 where "s3 = ev_locked EventQueueLock s2"
  have tp: "Tpl (locks u EventQueueLock) = TPL_HIGH_LEVEL" using ev_signalsD(4) [OF ui] .
  have a: "CoreAcquireLock EventQueueLock s2 = Some s3"
    using inv tp by (simp add: CoreAcquireLock_eq s3_def s2_def s1_def)
  show thesis
  proof (rule that [of s3])
    show "ev_dispatch (Suc (Suc fuel)) rst ev_leaf P s = ev_dispatch (Suc fuel) rst ev_leaf P s3"
      unfolding ev_dispatch.simps(2) [of "Suc fuel" rst ev_leaf P s] q list.case ev(1) bind.bind_lunit Let_def u_def [symmetric]
        event_lock_defs r using ev' a Fn(2)
      by (simp add: s1_def ev_assert_def ev_notify_leaf s2_def [unfolded s1_def, simplified, symmetric])
    show "ev_dispatching P s3"
      using ui inv tp u by (simp add: ev_dispatching_def s3_def s2_def s1_def ev_quiet_def)
    show "gEventQueue s3 = (gEventQueue s)(P := Links)" "gEventPending s3 = gEventPending s" "notified s3 = notified s @ [(P, e)]"
      using u by (simp_all add: s3_def s2_def s1_def)
    show "ev_locks_same s s3" using lock u(1) by (simp add: ev_locks_same_def s3_def s2_def s1_def)
    show "ev_fun_same s s3" using uf by (simp add: ev_fun_same_def s3_def s2_def s1_def)
  qed
qed

lemma ev_dispatch_leaf:
  assumes "ev_dispatching P s" "gEventQueue s P = es" "\<forall>e \<in> set es. ev_leaf_event s e" "length es < n"
  shows "\<exists>s'. ev_dispatch (Suc n) rst ev_leaf P s = Some s' \<and> ev_dispatching P s' \<and>
     gEventQueue s' = (gEventQueue s)(P := []) \<and> gEventPending s' = gEventPending s \<and>
     notified s' = notified s @ map (Pair P) es \<and> ev_locks_same s s' \<and> ev_fun_same s s'"
  using assms
proof (induction es arbitrary: s n)
  case Nil
  then have "gEventQueue s = (gEventQueue s)(P := [])" by (simp add: fun_upd_idem)
  with Nil show ?case by simp
next
  case (Cons e es)
  from Cons.prems(4) obtain m where n: "n = Suc m" "length es < m" by (cases n) auto
  from Cons.prems(3) have "ev_leaf_event s e" by simp
  then obtain s1 where s1: "ev_dispatch (Suc (Suc m)) rst ev_leaf P s = ev_dispatch (Suc m) rst ev_leaf P s1"
    "ev_dispatching P s1" "gEventQueue s1 = (gEventQueue s)(P := es)" "gEventPending s1 = gEventPending s"
    "notified s1 = notified s @ [(P, e)]" "ev_locks_same s s1" "ev_fun_same s s1"
    using ev_dispatch_leaf_round [OF Cons.prems(1,2)] by metis
  have "\<forall>e \<in> set es. ev_leaf_event s1 e" using Cons.prems(3) ev_leaf_event_same [OF s1(7)] by simp
  moreover have "gEventQueue s1 P = es" by (simp add: s1(3))
  ultimately obtain s2 where s2: "ev_dispatch (Suc m) rst ev_leaf P s1 = Some s2" "ev_dispatching P s2"
    "gEventQueue s2 = (gEventQueue s1)(P := [])" "gEventPending s2 = gEventPending s1"
    "notified s2 = notified s1 @ map (Pair P) es" "ev_locks_same s1 s2" "ev_fun_same s1 s2"
    using Cons.IH [OF s1(2) _ _ n(2)] by blast
  show ?case
    unfolding n(1) s1(1)
    by (rule exI [of _ s2])
      (use s1 s2 in \<open>auto simp del: ev_dispatch.simps intro: ev_locks_same_trans ev_fun_same_trans\<close>)
qed

lemma CoreDispatchEventNotifies_leaf:
  assumes inv: "ev_inv s" "ev_quiet P s" "P < TPL_HIGH_LEVEL" and tpl: "gEfiCurrentTpl s = P"
    and lock: "Lock (locks s EventQueueLock) = EfiLockReleased"
    and l: "\<forall>e \<in> set (gEventQueue s P). ev_leaf_event s e" "length (gEventQueue s P) < n"
  shows "\<exists>s'. CoreDispatchEventNotifies (Suc n) rst ev_leaf P s = Some s' \<and> ev_inv s' \<and> gEfiCurrentTpl s' = P \<and>
     gEventQueue s' = (gEventQueue s)(P := []) \<and> gEventPending s' = gEventPending s AND NOT (push_bit P 1) \<and>
     notified s' = notified s @ map (Pair P) (gEventQueue s P) \<and> ev_locks_same s s' \<and> ev_fun_same s s'"
proof -
  define s1 where "s1 = ev_locked EventQueueLock s"
  have tp: "Tpl (locks s EventQueueLock) = TPL_HIGH_LEVEL" using ev_signalsD(4) [OF inv(1)] .
  have a: "CoreAcquireLock EventQueueLock s = Some s1" using tp lock tpl inv(3) by (simp add: CoreAcquireLock_eq s1_def)
  have d: "ev_dispatching P s1" using inv tp tpl by (simp add: ev_dispatching_def s1_def ev_quiet_def)
  have f: "ev_fun_same s s1" by (simp add: ev_fun_same_def s1_def)
  have q: "gEventQueue s1 = gEventQueue s" by (simp add: s1_def)
  from ev_dispatch_leaf [OF d q [THEN fun_cong] _ l(2)] l(1) ev_leaf_event_same [OF f]
  obtain s2 where s2: "ev_dispatch (Suc n) rst ev_leaf P s1 = Some s2" "ev_dispatching P s2"
    "gEventQueue s2 = (gEventQueue s1)(P := [])" "gEventPending s2 = gEventPending s1"
    "notified s2 = notified s1 @ map (Pair P) (gEventQueue s P)" "ev_locks_same s1 s2" "ev_fun_same s1 s2" by auto
  let ?c = "s2\<lparr>gEventPending := gEventPending s2 AND NOT (push_bit P 1)\<rparr>"
  define s3 where "s3 = ev_lowered P (ev_released EventQueueLock ?c)"
  have i2: "ev_inv s2" "gEfiCurrentTpl s2 = TPL_HIGH_LEVEL" and lk: "Lock (locks s2 EventQueueLock) = EfiLockAcquired" "OwnerTpl (locks s2 EventQueueLock) = P"
    using s2(2) by (simp_all add: ev_dispatching_def)
  have c: "ev_inv ?c" by (rule ev_clear_pending_inv [OF i2(1)]) (simp add: s2(3))
  have "ev_quiet P ?c" using inv(2) by (auto simp: ev_quiet_def s2(4) s1_def bit_and_iff)
  then have r: "CoreReleaseLock rst EventQueueLock ?c = Some s3"
    using release_eq [of ?c EventQueueLock] i2(2) lk inv(3) by (simp add: s3_def)
  have "CoreDispatchEventNotifies (Suc n) rst ev_leaf P s = Some s3"
    unfolding CoreDispatchEventNotifies_def event_lock_defs a bind.bind_lunit Let_def s2(1) r
    using tpl by (simp add: ev_assert_def s1_def r [simplified])
  moreover have "ev_locks_same s s3"
    using s2(6) lock by (auto simp: ev_locks_same_def s1_def s3_def)
  moreover have "ev_fun_same s s3" using ev_fun_same_trans [OF f s2(7)] by (simp add: ev_fun_same_def s3_def)
  ultimately show ?thesis using c s2(3-5) q by (intro exI [of _ s3]) (simp add: s3_def s1_def)
qed

text \<open>The loop over the pending priorities up to \<open>k\<close>; \<open>m\<close> bounds the lengths of the queues.\<close>

lemma ev_restore_loop_leaf:
  assumes "ev_inv s" "ev_quiet k s" "k < TPL_HIGH_LEVEL" "Lock (locks s EventQueueLock) = EfiLockReleased"
    "\<forall>p e. t < p \<longrightarrow> e \<in> set (gEventQueue s p) \<longrightarrow> ev_leaf_event s e" "\<forall>p. length (gEventQueue s p) < m" "k + m + 2 \<le> n"
  shows "\<exists>s'. ev_restore_loop n rst ev_leaf t s = Some s' \<and> ev_inv s' \<and> ev_quiet t s' \<and> ev_locks_same s s' \<and> ev_fun_same s s' \<and>
     notified s' = notified s @ concat (map (\<lambda>p. map (Pair p) (gEventQueue s p)) (rev [Suc t..<Suc k])) \<and>
     gEventQueue s' = (\<lambda>p. if t < p \<and> p \<le> k then [] else gEventQueue s p)"
  using assms
proof (induction k arbitrary: s n rule: less_induct)
  case (less k)
  from less.prems(7) obtain n' where n: "n = Suc n'" by (cases n) auto
  have empty: "gEventQueue s p = []" if "\<not> bit (gEventPending s) p" for p
    using ev_queues_okD(3) [OF less.prems(1)] that by blast
  show ?case
  proof (cases "ev_quiet t s")
    case True
    then have "ev_restore_loop n rst ev_leaf t s = Some s"
      by (cases "gEventPending s = 0") (simp_all add: n ev_quiet_iff Let_def)
    moreover have e: "gEventQueue s p = []" if "t < p" for p using True empty [of p] that by (metis ev_quiet_def not_le)
    moreover have "gEventQueue s = (\<lambda>p. if t < p \<and> p \<le> k then [] else gEventQueue s p)" by (rule ext) (simp add: e)
    moreover have "concat (map (\<lambda>p. map (Pair p) (gEventQueue s p)) (rev [Suc t..<Suc k])) = []" by (auto simp: e)
    ultimately show ?thesis using True less.prems(1) by simp
  next
    case False
    define P where "P = nat (HighBitSet64 (gEventPending s))"
    have nz: "gEventPending s \<noteq> 0" and lt: "t < P" using False by (auto simp: ev_quiet_iff P_def)
    have P: "P \<le> k" "ev_quiet P s" using less.prems(2) nz by (auto simp: ev_quiet_iff P_def)
    let ?i = "if P < TPL_HIGH_LEVEL then CoreSetInterruptState True (s\<lparr>gEfiCurrentTpl := P\<rparr>) else s\<lparr>gEfiCurrentTpl := P\<rparr>"
    have i: "ev_inv ?i" "locks ?i = locks s" "notified ?i = notified s" "gEfiCurrentTpl ?i = P" "ev_quiet P ?i"
      "gEventQueue ?i = gEventQueue s" "gEventPending ?i = gEventPending s" "ev_fun_same s ?i"
      using less.prems(1) P(2) by (simp_all add: ev_quiet_def ev_fun_same_def)
    from less.prems(7) obtain n'' where n': "n' = Suc n''" "m \<le> n''" using n by (cases n') auto
    have "\<exists>s'. CoreDispatchEventNotifies (Suc n'') rst ev_leaf P ?i = Some s' \<and> ev_inv s' \<and> gEfiCurrentTpl s' = P \<and>
       gEventQueue s' = (gEventQueue ?i)(P := []) \<and> gEventPending s' = gEventPending ?i AND NOT (push_bit P 1) \<and>
       notified s' = notified ?i @ map (Pair P) (gEventQueue ?i P) \<and> ev_locks_same ?i s' \<and> ev_fun_same ?i s'"
      by (rule CoreDispatchEventNotifies_leaf [OF i(1,5) _ i(4)])
        (use less.prems(3-6) P lt n' i(2,6) ev_leaf_event_same [OF i(8)] in \<open>auto intro: less_le_trans\<close>)
    then obtain s1 where s1: "CoreDispatchEventNotifies n' rst ev_leaf P ?i = Some s1" "ev_inv s1"
      "gEventQueue s1 = (gEventQueue s)(P := [])" "gEventPending s1 = gEventPending s AND NOT (push_bit P 1)"
      "notified s1 = notified s @ map (Pair P) (gEventQueue s P)" "ev_locks_same s s1" "ev_fun_same s s1"
      using i n' ev_fun_same_trans [OF i(8)] by (auto simp: ev_locks_same_def)
    have "ev_quiet (P - 1) s1" using P(2) by (auto simp: ev_quiet_def s1(4) bit_and_not_exp le_less)
    moreover have "P - 1 < k" "P - 1 < TPL_HIGH_LEVEL" "P - 1 + m + 2 \<le> n'" using P lt less.prems(3,7) n by simp_all
    moreover have "Lock (locks s1 EventQueueLock) = EfiLockReleased" using s1(6) less.prems(4) by (simp add: ev_locks_same_def)
    moreover have "\<forall>p e. t < p \<longrightarrow> e \<in> set (gEventQueue s1 p) \<longrightarrow> ev_leaf_event s1 e"
      using less.prems(5) ev_leaf_event_same [OF s1(7)] by (simp add: s1(3))
    moreover have "\<forall>p. length (gEventQueue s1 p) < m" using less.prems(6) spec [OF less.prems(6), of P] by (auto simp: s1(3))
    ultimately obtain s2 where s2: "ev_restore_loop n' rst ev_leaf t s1 = Some s2" "ev_inv s2" "ev_quiet t s2" "ev_locks_same s1 s2"
      "ev_fun_same s1 s2" "notified s2 = notified s1 @ concat (map (\<lambda>p. map (Pair p) (gEventQueue s1 p)) (rev [Suc t..<Suc (P - 1)]))"
      "gEventQueue s2 = (\<lambda>p. if t < p \<and> p \<le> P - 1 then [] else gEventQueue s1 p)"
      using less.IH [of "P - 1" s1 n'] s1(2) by blast
    have loop: "ev_restore_loop n rst ev_leaf t s = Some s2"
      using nz lt s1(1) s2(1) by (simp add: n Let_def P_def [symmetric])
    have "[Suc t..<Suc k] = [Suc t..<P] @ [P..<Suc k]" using upt_add_eq_append [of "Suc t" P "Suc k - P"] lt P by simp
    moreover have "[P..<Suc k] = P # [Suc P..<Suc k]" using P by (simp only: upt_conv_Cons less_Suc_eq_le)
    ultimately have split: "rev [Suc t..<Suc k] = rev [Suc P..<Suc k] @ P # rev [Suc t..<P]" by simp
    have above: "gEventQueue s p = []" if "P < p" for p using P(2) empty [of p] that by (metis ev_quiet_def not_le)
    have P1: "Suc (P - 1) = P" using lt by simp
    have below: "map (\<lambda>p. map (Pair p) (gEventQueue s1 p)) (rev [Suc t..<P]) = map (\<lambda>p. map (Pair p) (gEventQueue s p)) (rev [Suc t..<P])"
      by (rule map_cong) (auto simp: s1(3))
    have hi: "concat (map (\<lambda>p. map (Pair p) (gEventQueue s p)) (rev [Suc P..<Suc k])) = []" using above by auto
    have "notified s2 = notified s @ concat (map (\<lambda>p. map (Pair p) (gEventQueue s p)) (rev [Suc t..<Suc k]))"
      unfolding s2(6) s1(5) split map_append concat_append hi list.map concat.simps P1 below by simp
    moreover have "gEventQueue s2 = (\<lambda>p. if t < p \<and> p \<le> k then [] else gEventQueue s p)"
      unfolding s2(7) s1(3) using above lt P by (intro ext) auto
    ultimately show ?thesis
      using loop s2 s1 by (blast intro: ev_locks_same_trans ev_fun_same_trans)
  qed
qed

end

section \<open>CoreRestoreTpl for leaf notification functions\<close>

definition ev_pending_list :: "ev_state \<Rightarrow> EFI_TPL \<Rightarrow> (EFI_TPL \<times> EFI_EVENT) list" where
  "ev_pending_list s t = concat (map (\<lambda>p. map (Pair p) (gEventQueue s p)) (rev [Suc t..<TPL_HIGH_LEVEL]))"

lemma CoreRestoreTpl_leaf:
  assumes inv: "ev_inv s" and tpl: "t \<le> gEfiCurrentTpl s" "t < TPL_HIGH_LEVEL"
    and lock: "Lock (locks s EventQueueLock) = EfiLockReleased"
    and leaf: "\<forall>p e. t < p \<longrightarrow> e \<in> set (gEventQueue s p) \<longrightarrow> ev_leaf_event s e"
    and m: "\<forall>p. length (gEventQueue s p) < m"
  shows "\<exists>s'. CoreRestoreTpl ev_leaf (m + 33) t s = Some s' \<and> ev_step t s s' \<and>
     notified s' = notified s @ ev_pending_list s t \<and> (\<forall>p. t < p \<longrightarrow> gEventQueue s' p = [])"
proof -
  let ?h = "if gEfiCurrentTpl s \<ge> TPL_HIGH_LEVEL \<and> t < TPL_HIGH_LEVEL then s\<lparr>gEfiCurrentTpl := TPL_HIGH_LEVEL\<rparr> else s"
  have h: "ev_inv ?h" "locks ?h = locks s" "gEventQueue ?h = gEventQueue s" "notified ?h = notified s" "ev_fun_same s ?h"
    using inv by (simp_all add: ev_fun_same_def)
  have "\<exists>s'. ev_restore_loop (m + 32) (CoreRestoreTpl ev_leaf (Suc (Suc (m + 30)))) ev_leaf t ?h = Some s' \<and> ev_inv s' \<and> ev_quiet t s' \<and>
     ev_locks_same ?h s' \<and> ev_fun_same ?h s' \<and>
     notified s' = notified ?h @ concat (map (\<lambda>p. map (Pair p) (gEventQueue ?h p)) (rev [Suc t..<Suc 30])) \<and>
     gEventQueue s' = (\<lambda>p. if t < p \<and> p \<le> 30 then [] else gEventQueue ?h p)"
    by (rule core_total.ev_restore_loop_leaf [OF h(1), where m = m])
      (use ev_quiet_high [OF h(1)] lock m leaf h(2,3) ev_leaf_event_same [OF h(5)] in auto)
  moreover have f: "Suc (Suc (m + 30)) = m + 32" "Suc 30 = (31 :: nat)" by simp_all
  ultimately obtain s1 where s1: "ev_restore_loop (m + 32) (CoreRestoreTpl ev_leaf (m + 32)) ev_leaf t ?h = Some s1"
    "notified s1 = notified s @ ev_pending_list s t" "gEventQueue s1 = (\<lambda>p. if t < p \<and> p \<le> 30 then [] else gEventQueue s p)"
    unfolding h(3,4) ev_pending_list_def f by auto
  have "ev_restore (m + 32) (CoreRestoreTpl ev_leaf (m + 32)) ev_leaf t s = Some (ev_lowered t s1)"
    unfolding ev_restore_def Let_def s1(1) bind.bind_lunit using tpl s1(1)
    by (simp add: ev_assert_def VALID_TPL_def ev_lowered_def)
  then have r: "CoreRestoreTpl ev_leaf (m + 33) t s = Some (ev_lowered t s1)"
    using CoreRestoreTpl.simps(2) [of ev_leaf "m + 32" t s] by (simp add: add.commute)
  have "gEventQueue s p = []" if "30 < p" for p
    using ev_queues_okD(3,4) [OF inv, of p] that by fastforce
  then have "\<forall>p. t < p \<longrightarrow> gEventQueue (ev_lowered t s1) p = []" by (simp add: s1(3))
  with r core.sound [OF inv r] s1(2) show ?thesis by (intro exI [of _ "ev_lowered t s1"]) simp
qed

end
