(* ===== verification/Event_Timer.thy ===== *)
theory Event_Timer
  imports Event_Order
begin

text \<open>
  The timer check returns. Every due timer is signalled at most twice in one check, provided that the
  current time plus its period does not wrap around; without that the loop may not end.
\<close>

section \<open>Signalling at the highest priorities returns\<close>

lemma CoreNotifyEvent_returns:
  "Lock (locks s EventQueueLock) = EfiLockAcquired \<Longrightarrow> events s e \<noteq> None \<Longrightarrow> CoreNotifyEvent e s \<noteq> None"
  by (auto simp: CoreNotifyEvent_def ev_assert_def Let_def)

lemma ev_notify_group_returns:
  assumes "ev_inv s" "Lock (locks s EventQueueLock) = EfiLockAcquired" "set es \<subseteq> set (gEventSignalQueue s)"
  shows "ev_notify_group g es s \<noteq> None"
  using assms
proof (induction es arbitrary: s)
  case (Cons e es)
  then obtain ev where ev: "events s e = Some ev" "Type ev AND EVT_NOTIFY_SIGNAL \<noteq> 0"
    using ev_signalsD(2) [OF Cons.prems(1), of e] by auto
  show ?case
  proof (cases "EventGroup ev = g")
    case True
    obtain s1 where s1: "CoreNotifyEvent e s = Some s1" using CoreNotifyEvent_returns [OF Cons.prems(2), of e] ev by auto
    note i = CoreNotifyEvent_inside [OF Cons.prems(1) s1 ev(1) ev_notifies_signal [OF ev(2)]]
    from Cons.IH [of s1] i Cons.prems show ?thesis using ev True s1 by (simp add: ev_inside_def)
  qed (use Cons ev in simp)
qed simp

text \<open>The state is one of the timer code: a high priority, with the event lock free.\<close>

definition ev_high :: "ev_state \<Rightarrow> bool" where
  "ev_high s \<longleftrightarrow>
     ev_inv s \<and> 30 \<le> gEfiCurrentTpl s \<and> gEfiCurrentTpl s \<le> TPL_HIGH_LEVEL \<and> Lock (locks s EventQueueLock) = EfiLockReleased"

context restoring_total
begin

lemma high_acquire:
  assumes "ev_high s"
  shows "CoreAcquireLock EventQueueLock s = Some (ev_locked EventQueueLock s)"
  using assms ev_signalsD(4) [of s] by (simp add: ev_high_def CoreAcquireLock_eq)

lemma high_release:
  assumes "ev_high s" "ev_inside (ev_locked EventQueueLock s) s'"
  shows "\<exists>s''. CoreReleaseLock rst EventQueueLock s' = Some s'' \<and> ev_high s'' \<and> events s'' = events s'"
proof -
  have h: "ev_inv s" "30 \<le> gEfiCurrentTpl s" "gEfiCurrentTpl s \<le> TPL_HIGH_LEVEL" using assms(1) by (simp_all add: ev_high_def)
  have i: "ev_inv s'" "locks s' = locks (ev_locked EventQueueLock s)" "gEfiCurrentTpl s' = TPL_HIGH_LEVEL"
    using assms(2) ev_signalsD(4) [OF h(1)] by (simp_all add: ev_inside_def)
  have "CoreReleaseLock rst EventQueueLock s' = Some (ev_lowered (gEfiCurrentTpl s) (ev_released EventQueueLock s'))"
    using release_eq [of s' EventQueueLock] ev_quiet_high [OF i(1) h(2)] h(3) i(2,3) by simp
  moreover have "ev_high (ev_lowered (gEfiCurrentTpl s) (ev_released EventQueueLock s'))" using h i by (simp add: ev_high_def)
  ultimately show ?thesis by simp
qed

lemma CoreNotifySignalList_returns:
  assumes "ev_high s"
  shows "\<exists>s'. CoreNotifySignalList rst g s = Some s' \<and> ev_high s'"
proof -
  let ?s = "ev_locked EventQueueLock s"
  have inv: "ev_inv ?s" using assms by (simp add: ev_high_def)
  from ev_notify_group_returns [OF this, of "gEventSignalQueue ?s" g] obtain s1
    where s1: "ev_notify_group g (gEventSignalQueue ?s) ?s = Some s1" by auto
  from ev_notify_group_inside [OF inv s1] have "ev_inside ?s s1" by simp
  from high_release [OF assms this] obtain s2 where "CoreReleaseLock rst EventQueueLock s1 = Some s2" "ev_high s2" by blast
  with s1 show ?thesis using high_acquire [OF assms] by (simp add: CoreNotifySignalList_def event_lock_defs)
qed

lemma CoreSignalEvent_returns:
  assumes "ev_high s"
  shows "\<exists>st s'. CoreSignalEvent rst e s = Some (st, s') \<and> ev_high s'"
proof (cases "events s e")
  case None
  with assms show ?thesis by (simp add: CoreSignalEvent_def)
next
  case (Some ev)
  let ?s = "ev_locked EventQueueLock s" and ?f = "\<lambda>ev. ev\<lparr>SignalCount := SignalCount ev + 1\<rparr>"
  let ?u = "ev_update e ?f ?s"
  have inv: "ev_inv ?s" using assms by (simp add: ev_high_def)
  have u: "ev_inside ?s ?u"
    using ev_update_inv [OF inv, of ?f e] ev_timers_same_update [of ?f ?s e] by (simp add: ev_inside_def)
  consider (same) "SignalCount ev \<noteq> 0" | (silent) "SignalCount ev = 0" "Type ev AND EVT_NOTIFY_SIGNAL = 0"
    | (one) "SignalCount ev = 0" "Type ev AND EVT_NOTIFY_SIGNAL \<noteq> 0" "ExFlag ev AND EVT_EXFLAG_EVENT_GROUP = 0"
    | (grouped) "SignalCount ev = 0" "Type ev AND EVT_NOTIFY_SIGNAL \<noteq> 0" "ExFlag ev AND EVT_EXFLAG_EVENT_GROUP \<noteq> 0" by blast
  then show ?thesis
  proof cases
    case same
    from high_release [OF assms ev_inside_refl [OF inv]] obtain s2 where "CoreReleaseLock rst EventQueueLock ?s = Some s2" "ev_high s2" by blast
    with same Some show ?thesis by (simp add: CoreSignalEvent_def event_lock_defs high_acquire [OF assms])
  next
    case silent
    from high_release [OF assms u] obtain s2 where "CoreReleaseLock rst EventQueueLock ?u = Some s2" "ev_high s2" by blast
    with silent Some show ?thesis by (simp add: CoreSignalEvent_def event_lock_defs high_acquire [OF assms])
  next
    case one
    obtain s1 where s1: "CoreNotifyEvent e ?u = Some s1" using CoreNotifyEvent_returns [of ?u e] Some by auto
    have "ev_inside ?u s1"
      by (rule CoreNotifyEvent_inside(1) [OF _ s1, of "?f ev"]) (use u Some one in \<open>auto simp: ev_inside_def intro: ev_notifies_signal\<close>)
    with u have "ev_inside ?s s1" by (rule ev_inside_trans)
    from high_release [OF assms this] obtain s2 where "CoreReleaseLock rst EventQueueLock s1 = Some s2" "ev_high s2" by blast
    with one s1 Some show ?thesis by (simp add: CoreSignalEvent_def event_lock_defs high_acquire [OF assms])
  next
    case grouped
    from high_release [OF assms u] obtain s2 where s2: "CoreReleaseLock rst EventQueueLock ?u = Some s2" "ev_high s2"
      "events s2 = events ?u" by blast
    from CoreNotifySignalList_returns [OF s2(2)] obtain s3 where s3: "CoreNotifySignalList rst (EventGroup ev) s2 = Some s3" "ev_high s3" by blast
    have "ev_inv (ev_locked EventQueueLock s3)" using s3(2) by (simp add: ev_high_def)
    from high_release [OF s3(2) ev_inside_refl [OF this]] obtain s4
      where "CoreReleaseLock rst EventQueueLock (ev_locked EventQueueLock s3) = Some s4" "ev_high s4" by blast
    with grouped s2 s3 Some show ?thesis
      by (simp add: CoreSignalEvent_def event_lock_defs high_acquire [OF assms] high_acquire [OF s3(2)])
  qed
qed

end

section \<open>The rounds of the timer check\<close>

text \<open>How often a timer is signalled in one check at the time \<open>Now\<close>, at most.\<close>

definition ev_rounds :: "UINT64 \<Rightarrow> UINT64 \<Rightarrow> nat" where
  "ev_rounds Now time = (if time > Now then 0 else if time = Now then 1 else 2)"

definition ev_total_rounds :: "UINT64 \<Rightarrow> ev_state \<Rightarrow> nat" where
  "ev_total_rounds Now s = sum_list (map (\<lambda>e. ev_rounds Now (ev_time s e)) (mEfiTimerList s))"

text \<open>No period wraps around from \<open>Now\<close>.\<close>

definition ev_periods_ok :: "UINT64 \<Rightarrow> ev_state \<Rightarrow> bool" where
  "ev_periods_ok Now s \<longleftrightarrow>
     (\<forall>e \<in> set (mEfiTimerList s). \<forall>ev. events s e = Some ev \<longrightarrow> unat Now + unat (Period ev) < 2 ^ 64)"

lemma ev_total_rounds_bound: "ev_total_rounds Now s \<le> 2 * length (mEfiTimerList s)"
proof -
  have "sum_list (map (\<lambda>e. ev_rounds Now (f e)) xs) \<le> 2 * length xs" for f and xs :: "EFI_EVENT list"
    by (induction xs) (auto simp: ev_rounds_def)
  then show ?thesis by (simp add: ev_total_rounds_def)
qed

lemma sum_ev_insert_timer: "sum_list (map (w :: EFI_EVENT \<Rightarrow> nat) (ev_insert_timer time e xs)) = w e + sum_list (map w xs)"
  by (induction xs) auto

lemma ev_timers_same_time: "ev_timers_same s s' \<Longrightarrow> ev_time s' a = ev_time s a"
proof (cases "events s a")
  case None
  assume "ev_timers_same s s'"
  then have "map_option (\<lambda>ev. ev\<lparr>SignalCount := 0\<rparr>) (events s' a) = None" using None by (simp add: ev_timers_same_def)
  with None show ?thesis by (simp add: ev_time_def)
next
  case (Some ev)
  assume "ev_timers_same s s'"
  from ev_timers_same_event [OF this Some] Some show ?thesis by (auto simp: ev_time_def)
qed

text \<open>An expired periodic timer is due later, or now.\<close>

lemma ev_rounds_period:
  assumes "tt \<le> Now" "unat Now + unat p < 2 ^ 64" "p \<noteq> (0 :: UINT64)"
  shows "ev_rounds Now (if tt + p \<le> Now then Now else tt + p) < ev_rounds Now tt"
proof -
  have u: "unat (tt + p) = unat tt + unat p" using assms(1,2) by (simp add: word_le_nat_alt unat_add_lem [symmetric])
  have "unat p \<noteq> 0" using assms(3) by (simp add: unat_eq_0)
  with u have "tt = Now \<Longrightarrow> \<not> tt + p \<le> Now" by (simp add: word_le_nat_alt)
  then show ?thesis using assms(1) by (auto simp: ev_rounds_def)
qed

text \<open>The state of the timer check: the timer lock is held.\<close>

definition ev_checking :: "ev_state \<Rightarrow> bool" where
  "ev_checking s \<longleftrightarrow> ev_high s \<and> gEfiCurrentTpl s = 30 \<and> Lock (locks s TimerLock) = EfiLockAcquired"

lemma ev_checking_held: "ev_checking s \<Longrightarrow> ev_held s s' \<Longrightarrow> ev_checking s'"
  by (simp add: ev_checking_def ev_high_def ev_held_def ev_locks_same_def)

lemma ev_timers_same_period: "ev_timers_same s s' \<Longrightarrow> map_option Period (events s' a) = map_option Period (events s a)"
proof (cases "events s a")
  case None
  assume "ev_timers_same s s'"
  then have "map_option (\<lambda>ev. ev\<lparr>SignalCount := 0\<rparr>) (events s' a) = None" using None by (simp add: ev_timers_same_def)
  with None show ?thesis by simp
next
  case (Some ev)
  assume "ev_timers_same s s'"
  from ev_timers_same_event [OF this Some] Some show ?thesis by auto
qed

context restoring_total
begin

lemma signal_checking:
  assumes "ev_checking s"
  shows "\<exists>st s'. CoreSignalEvent rst e s = Some (st, s') \<and> ev_checking s' \<and> ev_timers_same s s'"
proof -
  have h: "ev_high s" "ev_inv s" "30 \<le> gEfiCurrentTpl s" using assms by (simp_all add: ev_checking_def ev_high_def)
  from CoreSignalEvent_returns [OF h(1), of e] obtain st s' where s': "CoreSignalEvent rst e s = Some (st, s')" by blast
  note g = CoreSignalEvent_held [OF h(2,3) s']
  show ?thesis using s' g ev_checking_held [OF assms g(1)] by blast
qed

lemma rearm_returns:
  assumes c: "ev_checking s" and e: "e \<notin> set (mEfiTimerList s)" "events s e = Some ev" "Type ev AND EVT_TIMER \<noteq> 0"
  shows "\<exists>s'. do { s \<leftarrow> (if late then
                     do { (Status, s) \<leftarrow> CoreSignalEvent rst ct (ev_update e (\<lambda>ev. ev\<lparr>TriggerTime := Now\<rparr>) s); Some s }
                   else Some s);
                 CoreInsertEventTimer e s } = Some s' \<and> ev_checking s' \<and>
     mEfiTimerList s' = ev_insert_timer (ev_time s') e (mEfiTimerList s) \<and>
     (\<forall>a. ev_time s' a = (if a = e \<and> late then Now else ev_time s a)) \<and>
     (\<forall>a. map_option Period (events s' a) = map_option Period (events s a))"
proof -
  let ?u = "ev_update e (\<lambda>ev. ev\<lparr>TriggerTime := Now\<rparr>) s"
  have inv: "ev_inv s" using c by (simp add: ev_checking_def ev_high_def)
  have cu: "ev_checking ?u" by (rule ev_checking_held [OF c ev_update_held [OF inv _ _ _ e(1)]]) simp_all
  obtain st s1 where s1: "CoreSignalEvent rst ct ?u = Some (st, s1)" "ev_checking s1" "ev_timers_same ?u s1"
    using signal_checking [OF cu] by blast
  define sl where "sl = (if late then s1 else s)"
  have sl: "ev_checking sl" "mEfiTimerList sl = mEfiTimerList s" "ev_time sl a = (if a = e \<and> late then Now else ev_time s a)"
    "map_option Period (events sl a) = map_option Period (events s a)" for a
    using c s1(2,3) ev_timers_same_time [OF s1(3), of a] ev_timers_same_period [OF s1(3), of a] e(2)
    by (auto simp: sl_def ev_timers_same_def ev_time_update option.map_comp comp_def split: if_splits)
  let ?i = "sl\<lparr>mEfiTimerList := ev_insert_timer (ev_time sl) e (mEfiTimerList sl)\<rparr>"
  have i: "CoreInsertEventTimer e sl = Some ?i"
    using sl(1) by (simp add: CoreInsertEventTimer_def ev_assert_def ev_checking_def)
  have ev: "\<exists>ev'. events sl e = Some ev' \<and> Type ev' AND EVT_TIMER \<noteq> 0"
    using e ev_timers_same_event [OF s1(3), of e "ev\<lparr>TriggerTime := Now\<rparr>"] by (auto simp: sl_def)
  then obtain ev' where ev': "events sl e = Some ev'" "Type ev' AND EVT_TIMER \<noteq> 0" by blast
  have "ev_held sl ?i"
    by (rule CoreInsertEventTimer_held [OF _ i _ ev']) (use sl e in \<open>simp_all add: ev_checking_def ev_high_def\<close>)
  then have ci: "ev_checking ?i" by (rule ev_checking_held [OF sl(1)])
  have t: "ev_time ?i = ev_time sl" by (simp add: ev_time_def [abs_def])
  have m: "mEfiTimerList ?i = ev_insert_timer (ev_time ?i) e (mEfiTimerList s)" unfolding t by (simp add: sl(2))
  have r: "do { s \<leftarrow> (if late then do { (Status, s) \<leftarrow> CoreSignalEvent rst ct ?u; Some s } else Some s);
             CoreInsertEventTimer e s } = Some ?i"
    using i s1(1) by (cases late) (simp_all add: sl_def)
  show ?thesis
  proof (intro exI [of _ ?i] conjI allI)
    show "ev_time ?i a = (if a = e \<and> late then Now else ev_time s a)" for a unfolding t by (rule sl(3))
    show "map_option Period (events ?i a) = map_option Period (events s a)" for a using sl(4) [of a] by simp
  qed (fact r ci m)+
qed

text \<open>One round of the loop, for a timer that is due.\<close>

lemma ev_check_timers_round:
  assumes c: "ev_checking s" and l: "mEfiTimerList s = e # Links" and ev: "events s e = Some ev" "TriggerTime ev \<le> Now"
  shows "\<exists>s'. ev_check_timers (Suc n) rst Now s = ev_check_timers n rst Now s' \<and> ev_checking s' \<and>
     mEfiTimerList s' = (if Period ev = 0 then Links else ev_insert_timer (ev_time s') e Links) \<and>
     (Period ev \<noteq> 0 \<longrightarrow> ev_time s' e = (if TriggerTime ev + Period ev \<le> Now then Now else TriggerTime ev + Period ev)) \<and>
     (\<forall>a. a \<noteq> e \<longrightarrow> ev_time s' a = ev_time s a) \<and>
     (\<forall>a. map_option Period (events s' a) = map_option Period (events s a))"
proof -
  let ?l = "s\<lparr>mEfiTimerList := Links\<rparr>"
  have inv: "ev_inv s" using c by (simp add: ev_checking_def ev_high_def)
  have ty: "Type ev AND EVT_TIMER \<noteq> 0" using ev_timers_okD(2) [OF inv, of e] l ev by auto
  note li = ev_expire_timer_inv [OF inv l]
  have cl: "ev_checking ?l" by (rule ev_checking_held [OF c ev_heldI]) (use li in simp_all)
  obtain st s1 where s1: "CoreSignalEvent rst e ?l = Some (st, s1)" "ev_checking s1" "ev_timers_same ?l s1"
    using signal_checking [OF cl] by blast
  have f1: "mEfiTimerList s1 = Links" "mEfiCheckTimerEvent s1 = mEfiCheckTimerEvent s" using s1(3) by (simp_all add: ev_timers_same_def)
  have t1: "ev_time s1 a = ev_time s a" "map_option Period (events s1 a) = map_option Period (events s a)" for a
    using ev_timers_same_time [OF s1(3), of a] ev_timers_same_period [OF s1(3), of a] by (simp_all add: ev_time_def)
  from ev_timers_same_event [OF s1(3), of e ev] ev obtain ev1 where ev1: "events s1 e = Some ev1" "Type ev1 AND EVT_TIMER \<noteq> 0"
    "TriggerTime ev1 = TriggerTime ev" "Period ev1 = Period ev" using ty by auto
  have unfold: "ev_check_timers (Suc n) rst Now s =
      do { s2 \<leftarrow> (if Period ev \<noteq> 0 then
             (let s = ev_update e (\<lambda>ev. ev\<lparr>TriggerTime := TriggerTime ev + Period ev\<rparr>) s1 in
              do { s \<leftarrow> (if TriggerTime ev + Period ev \<le> Now then
                     do { (Status, s) \<leftarrow> CoreSignalEvent rst (mEfiCheckTimerEvent s1) (ev_update e (\<lambda>ev. ev\<lparr>TriggerTime := Now\<rparr>) s); Some s }
                   else Some s);
                 CoreInsertEventTimer e s }) else Some s1);
           ev_check_timers n rst Now s2 }"
    unfolding ev_check_timers.simps l list.case ev(1) bind.bind_lunit Let_def s1(1) prod.case ev1(1,3,4) ev_update_frame(8)
    using ev(2) by (simp add: leD)
  show ?thesis
  proof (cases "Period ev = 0")
    case True
    with unfold s1 f1 t1 show ?thesis by (intro exI [of _ s1]) simp
  next
    case False
    let ?p = "ev_update e (\<lambda>ev. ev\<lparr>TriggerTime := TriggerTime ev + Period ev\<rparr>) s1"
    let ?late = "TriggerTime ev + Period ev \<le> Now"
    have in1: "ev_inv s1" "e \<notin> set (mEfiTimerList s1)" using s1(2) f1 li(2) by (simp_all add: ev_checking_def ev_high_def)
    have cp: "ev_checking ?p" by (rule ev_checking_held [OF s1(2) ev_update_held [OF in1(1) _ _ _ in1(2)]]) simp_all
    have pe: "e \<notin> set (mEfiTimerList ?p)" "events ?p e = Some (ev1\<lparr>TriggerTime := TriggerTime ev1 + Period ev1\<rparr>)"
      "Type (ev1\<lparr>TriggerTime := TriggerTime ev1 + Period ev1\<rparr>) AND EVT_TIMER \<noteq> 0" using in1(2) ev1 by simp_all
    from rearm_returns [OF cp pe, of ?late "mEfiCheckTimerEvent s1" Now] obtain s2 where
      s2: "do { s \<leftarrow> (if ?late then
                     do { (Status, s) \<leftarrow> CoreSignalEvent rst (mEfiCheckTimerEvent s1) (ev_update e (\<lambda>ev. ev\<lparr>TriggerTime := Now\<rparr>) ?p); Some s }
                   else Some ?p);
                 CoreInsertEventTimer e s } = Some s2" "ev_checking s2"
        "mEfiTimerList s2 = ev_insert_timer (ev_time s2) e (mEfiTimerList ?p)"
      and s2t: "\<And>a. ev_time s2 a = (if a = e \<and> ?late then Now else ev_time ?p a)"
        "\<And>a. map_option Period (events s2 a) = map_option Period (events ?p a)" by blast
    have "ev_check_timers (Suc n) rst Now s = ev_check_timers n rst Now s2"
      unfolding unfold Let_def if_P [OF False] s2(1) by simp
    moreover have "ev_time ?p a = (if a = e then TriggerTime ev + Period ev else ev_time s a)" for a
      using ev1 t1(1) [of a] by (simp add: ev_time_update)
    moreover have "map_option Period (events ?p a) = map_option Period (events s a)" for a
      using t1(2) [of a] t1(2) [of e] by (auto simp: option.map_comp comp_def)
    ultimately show ?thesis using s2(2,3) s2t False f1(1) by (intro exI [of _ s2]) simp
  qed
qed

lemma ev_check_timers_returns:
  assumes "ev_checking s" "ev_periods_ok Now s" "ev_total_rounds Now s < n"
  shows "ev_check_timers n rst Now s \<noteq> None"
  using assms
proof (induction n arbitrary: s)
  case (Suc n)
  have inv: "ev_inv s" using Suc.prems(1) by (simp add: ev_checking_def ev_high_def)
  show ?case
  proof (cases "mEfiTimerList s")
    case (Cons e Links)
    then obtain ev where ev: "events s e = Some ev" using ev_timers_okD(2) [OF inv, of e] by auto
    show ?thesis
    proof (cases "TriggerTime ev \<le> Now")
      case True
      from ev_check_timers_round [OF Suc.prems(1) Cons ev True, of n] obtain s'
        where s': "ev_check_timers (Suc n) rst Now s = ev_check_timers n rst Now s'" "ev_checking s'"
          "mEfiTimerList s' = (if Period ev = 0 then Links else ev_insert_timer (ev_time s') e Links)"
          "Period ev \<noteq> 0 \<Longrightarrow> ev_time s' e = (if TriggerTime ev + Period ev \<le> Now then Now else TriggerTime ev + Period ev)"
          and t': "\<And>a. a \<noteq> e \<Longrightarrow> ev_time s' a = ev_time s a" "\<And>a. map_option Period (events s' a) = map_option Period (events s a)"
        by blast
      have nin: "e \<notin> set Links" by (rule ev_expire_timer_inv(2) [OF inv Cons])
      have links: "map (\<lambda>e. ev_rounds Now (ev_time s' e)) Links = map (\<lambda>e. ev_rounds Now (ev_time s e)) Links"
        by (rule map_cong [OF refl]) (use nin t'(1) in metis)
      have te: "ev_time s e = TriggerTime ev" using ev by (simp add: ev_time_def)
      have "unat Now + unat (Period ev) < 2 ^ 64" using Suc.prems(2) Cons ev by (simp add: ev_periods_ok_def)
      then have "ev_total_rounds Now s' < ev_total_rounds Now s"
        using s'(3,4) ev_rounds_period [OF True, of "Period ev"] True
        by (cases "Period ev = 0") (simp_all add: ev_total_rounds_def Cons sum_ev_insert_timer links te, simp add: ev_rounds_def leD)
      moreover have "ev_periods_ok Now s'"
        unfolding ev_periods_ok_def
      proof (intro ballI allI impI)
        fix a eva assume a: "a \<in> set (mEfiTimerList s')" "events s' a = Some eva"
        then have "a \<in> set (mEfiTimerList s)" using s'(3) Cons by (auto split: if_splits)
        moreover obtain ev0 where "events s a = Some ev0" "Period ev0 = Period eva" using t'(2) [of a] a(2) by (cases "events s a") auto
        ultimately show "unat Now + unat (Period eva) < 2 ^ 64" using Suc.prems(2) by (auto simp: ev_periods_ok_def)
      qed
      ultimately show ?thesis using Suc.IH [OF s'(2)] Suc.prems(3) s'(1) by simp
    qed (use Cons ev in \<open>simp add: not_le\<close>)
  qed simp
qed simp

text \<open>A timer whose period wraps around from the current time: the loop does not end.\<close>

lemma ev_check_timers_loops:
  assumes "ev_checking s" "mEfiTimerList s = e # Links" "events s e = Some ev" "TriggerTime ev \<le> Now"
    "Period ev = p" "TriggerTime ev + p \<le> Now" "Now + p \<le> Now" "p \<noteq> 0" "\<forall>a \<in> set Links. Now < ev_time s a"
  shows "ev_check_timers n rst Now s = None"
  using assms
proof (induction n arbitrary: s ev)
  case (Suc n)
  have inv: "ev_inv s" using Suc.prems(1) by (simp add: ev_checking_def ev_high_def)
  have nin: "e \<notin> set Links" by (rule ev_expire_timer_inv(2) [OF inv Suc.prems(2)])
  from ev_check_timers_round [OF Suc.prems(1-4), of n] obtain s'
    where s': "ev_check_timers (Suc n) rst Now s = ev_check_timers n rst Now s'" "ev_checking s'"
      "mEfiTimerList s' = ev_insert_timer (ev_time s') e Links" "ev_time s' e = Now"
      and t': "\<And>a. a \<noteq> e \<Longrightarrow> ev_time s' a = ev_time s a" "\<And>a. map_option Period (events s' a) = map_option Period (events s a)"
    using Suc.prems(5,6,8) by auto
  have later: "\<forall>a \<in> set Links. Now < ev_time s' a" using Suc.prems(9) t'(1) nin by metis
  then have l: "mEfiTimerList s' = e # Links" using s'(3,4) by (cases Links) auto
  obtain ev' where ev': "events s' e = Some ev'" "Period ev' = p" using t'(2) [of e] Suc.prems(3,5) by (cases "events s' e") auto
  have tt: "TriggerTime ev' = Now" using s'(4) ev'(1) by (simp add: ev_time_def)
  have "ev_check_timers n rst Now s' = None"
    by (rule Suc.IH [OF s'(2) l ev'(1) _ ev'(2) _ Suc.prems(7,8) later]) (use tt Suc.prems(7) in simp_all)
  with s'(1) show ?case by simp
qed simp

text \<open>The check as it runs: it is notified at the priority of the timer lock.\<close>

lemma CoreCheckTimers_enters:
  assumes h: "ev_high s" "gEfiCurrentTpl s = 30" and lock: "\<forall>L. Lock (locks s L) = EfiLockReleased"
  shows "\<exists>s'. CoreCheckTimers n rst s = do { s \<leftarrow> ev_check_timers n rst (mEfiSystemTime s) s'; CoreReleaseLock rst TimerLock s } \<and>
     ev_checking s' \<and> mEfiTimerList s' = mEfiTimerList s \<and> events s' = events s \<and> OwnerTpl (locks s' TimerLock) = 30"
proof -
  have inv: "ev_inv s" using h by (simp add: ev_high_def)
  note tp = ev_signalsD(5,6) [OF inv]
  define s1 where "s1 = ev_locked TimerLock s"
  have a1: "CoreAcquireLock TimerLock s = Some s1" using lock tp h by (simp add: CoreAcquireLock_eq s1_def)
  have i1: "ev_inv s1" using inv by (simp add: s1_def)
  define s2 where "s2 = ev_lowered 30 (ev_released SystemTimeLock (ev_locked SystemTimeLock s1))"
  have a2: "CoreAcquireLock SystemTimeLock s1 = Some (ev_locked SystemTimeLock s1)"
    using lock tp h by (simp add: CoreAcquireLock_eq s1_def)
  have r2: "CoreReleaseLock rst SystemTimeLock (ev_locked SystemTimeLock s1) = Some s2"
    using release_eq [of "ev_locked SystemTimeLock s1" SystemTimeLock] ev_quiet_high [of "ev_locked SystemTimeLock s1" 30] i1 tp
    by (simp add: s2_def s1_def)
  have now: "CoreCurrentSystemTime rst s1 = Some (mEfiSystemTime s, s2)"
    by (simp add: CoreCurrentSystemTime_def a2 r2) (simp add: s1_def)
  have "ev_checking s2" using i1 lock tp h by (simp add: ev_checking_def ev_high_def s2_def s1_def)
  moreover have "mEfiTimerList s2 = mEfiTimerList s" "events s2 = events s" "OwnerTpl (locks s2 TimerLock) = 30"
    using h by (simp_all add: s2_def s1_def)
  ultimately show ?thesis by (intro exI [of _ s2]) (simp add: CoreCheckTimers_def a1 now)
qed

lemma CoreCheckTimers_returns:
  assumes h: "ev_high s" "gEfiCurrentTpl s = 30" and lock: "\<forall>L. Lock (locks s L) = EfiLockReleased"
    and p: "ev_periods_ok (mEfiSystemTime s) s" and n: "2 * length (mEfiTimerList s) < n"
  shows "\<exists>s'. CoreCheckTimers n rst s = Some s' \<and> (\<forall>e \<in> set (mEfiTimerList s'). mEfiSystemTime s < ev_time s' e)"
proof -
  let ?Now = "mEfiSystemTime s"
  from CoreCheckTimers_enters [OF h lock, of n] obtain s2
    where e: "CoreCheckTimers n rst s = do { s \<leftarrow> ev_check_timers n rst ?Now s2; CoreReleaseLock rst TimerLock s }"
      and c2: "ev_checking s2" and t2: "mEfiTimerList s2 = mEfiTimerList s" "events s2 = events s"
      and own: "OwnerTpl (locks s2 TimerLock) = 30" by blast
  have "ev_total_rounds ?Now s2 < n" using ev_total_rounds_bound [of ?Now s2] n t2 by simp
  moreover have "ev_periods_ok ?Now s2" using p t2 by (simp add: ev_periods_ok_def)
  ultimately obtain s3 where s3: "ev_check_timers n rst ?Now s2 = Some s3" using ev_check_timers_returns [OF c2] by blast
  have i2: "ev_inv s2" "gEfiCurrentTpl s2 = 30" using c2 by (simp_all add: ev_checking_def ev_high_def)
  note held = ev_check_timers_held [OF i2 s3]
  have lk: "Lock (locks s3 TimerLock) = EfiLockAcquired" "OwnerTpl (locks s3 TimerLock) = 30" "gEfiCurrentTpl s3 = 30" "ev_inv s3"
    using held c2 own by (simp_all add: ev_held_def ev_locks_same_def ev_checking_def)
  have "CoreReleaseLock rst TimerLock s3 = Some (ev_lowered 30 (ev_released TimerLock s3))"
    using release_eq [of s3 TimerLock] lk ev_quiet_high [OF lk(4), of 30] by simp
  then have "CoreCheckTimers n rst s = Some (ev_lowered 30 (ev_released TimerLock s3))" by (simp add: e s3)
  with held show ?thesis by (simp add: ev_time_def)
qed

lemma CoreCheckTimers_loops:
  assumes h: "ev_high s" "gEfiCurrentTpl s = 30" and lock: "\<forall>L. Lock (locks s L) = EfiLockReleased"
    and l: "mEfiTimerList s = [e]" "events s e = Some ev" "TriggerTime ev \<le> mEfiSystemTime s" "Period ev \<noteq> 0"
      "TriggerTime ev + Period ev \<le> mEfiSystemTime s" "mEfiSystemTime s + Period ev \<le> mEfiSystemTime s"
  shows "CoreCheckTimers n rst s = None"
proof -
  from CoreCheckTimers_enters [OF h lock, of n] obtain s2
    where e: "CoreCheckTimers n rst s = do { s \<leftarrow> ev_check_timers n rst (mEfiSystemTime s) s2; CoreReleaseLock rst TimerLock s }"
      and c2: "ev_checking s2" and t2: "mEfiTimerList s2 = mEfiTimerList s" "events s2 = events s" by blast
  have "ev_check_timers n rst (mEfiSystemTime s) s2 = None"
    by (rule ev_check_timers_loops [OF c2, where e = e and Links = "[]" and ev = ev]) (use l t2 in simp_all)
  then show ?thesis by (simp add: e)
qed

end

end
