(* ===== verification/Event_Properties.thy ===== *)
theory Event_Properties
  imports Event_Timer
begin

text \<open>
  The properties of the event, timer and task priority services, over runs of the whole component,
  with a sample state on which they are evaluated.
\<close>

section \<open>Runs\<close>




section \<open>A sample state\<close>

text \<open>
  At \<open>TPL_NOTIFY\<close>, with the timer check (1), an event at \<open>TPL_CALLBACK\<close> (2) and one at \<open>TPL_NOTIFY\<close> (3)
  pending, a periodic timer (4) and a plain event (5).
\<close>

definition ev_sample_event :: "UINT32 \<Rightarrow> EFI_TPL \<Rightarrow> EFI_EVENT_NOTIFY option \<Rightarrow> IEVENT" where
  "ev_sample_event ty level fn =
     \<lparr>Type = ty, SignalCount = 0, NotifyTpl = level, NotifyFunction = fn, EventGroup = replicate 16 0, ExFlag = 0,
      TriggerTime = 0, Period = 0\<rparr>"

definition ev_sample_pending :: UINTN where
  "ev_sample_pending = push_bit 8 1 OR push_bit 16 1"

definition ev_sample :: ev_state where
  "ev_sample = (ev_initial 10000 (\<lambda>_. True))
     \<lparr>gEfiCurrentTpl := TPL_NOTIFY,
      events := [1 \<mapsto> ev_sample_event EVT_NOTIFY_SIGNAL 30 (Some CoreCheckTimersFunction),
                 2 \<mapsto> (ev_sample_event EVT_NOTIFY_SIGNAL TPL_CALLBACK (Some (DriverFunction 0)))\<lparr>SignalCount := 1\<rparr>,
                 3 \<mapsto> (ev_sample_event EVT_NOTIFY_SIGNAL TPL_NOTIFY (Some (DriverFunction 1)))\<lparr>SignalCount := 1\<rparr>,
                 4 \<mapsto> (ev_sample_event EVT_TIMER 0 None)\<lparr>TriggerTime := 100, Period := 10\<rparr>,
                 5 \<mapsto> ev_sample_event 0 0 None],
      next_event := 6, mEfiCheckTimerEvent := 1, mEfiTimerList := [4], mEfiSystemTime := 50,
      gEventSignalQueue := [3, 2, 1], gEventQueue := (\<lambda>_. [])(8 := [2], 16 := [3]),
      gEventPending := ev_sample_pending\<rparr>"

lemma ev_sample_bits: "bit (gEventPending ev_sample) p \<longleftrightarrow> p = 8 \<or> p = 16"
proof -
  have "bit ev_sample_pending p \<longleftrightarrow> p = 8 \<or> p = 16"
    unfolding ev_sample_pending_def bit_or_iff bit_push_bit_iff bit_1_iff by auto
  then show ?thesis by (simp add: ev_sample_def)
qed

lemma ev_sample_fields:
  "events ev_sample = [1 \<mapsto> ev_sample_event EVT_NOTIFY_SIGNAL 30 (Some CoreCheckTimersFunction),
                 2 \<mapsto> (ev_sample_event EVT_NOTIFY_SIGNAL TPL_CALLBACK (Some (DriverFunction 0)))\<lparr>SignalCount := 1\<rparr>,
                 3 \<mapsto> (ev_sample_event EVT_NOTIFY_SIGNAL TPL_NOTIFY (Some (DriverFunction 1)))\<lparr>SignalCount := 1\<rparr>,
                 4 \<mapsto> (ev_sample_event EVT_TIMER 0 None)\<lparr>TriggerTime := 100, Period := 10\<rparr>,
                 5 \<mapsto> ev_sample_event 0 0 None]"
  "gEventQueue ev_sample = (\<lambda>_. [])(8 := [2], 16 := [3])" "gEventSignalQueue ev_sample = [3, 2, 1]"
  "mEfiTimerList ev_sample = [4]" "next_event ev_sample = 6" "gEfiCurrentTpl ev_sample = 16"
  "mEfiSystemTime ev_sample = 50" "notified ev_sample = []" "mEfiCheckTimerEvent ev_sample = 1"
  "locks ev_sample EventQueueLock = \<lparr>Tpl = 31, OwnerTpl = 4, Lock = EfiLockReleased\<rparr>"
  "locks ev_sample TimerLock = \<lparr>Tpl = 30, OwnerTpl = 4, Lock = EfiLockReleased\<rparr>"
  "locks ev_sample SystemTimeLock = \<lparr>Tpl = 31, OwnerTpl = 4, Lock = EfiLockReleased\<rparr>"
  by (simp_all add: ev_sample_def ev_initial_def)

lemma ev_sample_inv: "ev_inv ev_sample"
proof -
  note defs = ev_sample_fields ev_sample_event_def evt_defs
  have "ev_queues_ok ev_sample"
    unfolding ev_queues_ok_def ev_sample_bits by (auto simp: defs ev_notifies_def)
  moreover have "ev_timers_ok ev_sample" by (simp add: ev_timers_ok_def defs)
  moreover have "ev_valid ev \<and> e < next_event ev_sample" if "events ev_sample e = Some ev" for e ev
    using that by (auto simp: defs ev_valid_def split: if_splits)
  moreover have "\<forall>e \<in> set (gEventSignalQueue ev_sample). \<exists>ev. events ev_sample e = Some ev \<and> Type ev AND EVT_NOTIFY_SIGNAL \<noteq> 0"
    by (simp add: defs)
  moreover have "distinct (gEventSignalQueue ev_sample)" by (simp add: defs)
  ultimately show ?thesis by (simp add: ev_inv_def ev_sample_fields(10-12))
qed





text \<open>An application waiting: nothing pending, and the plain event is signalled.\<close>

definition ev_waiting :: ev_state where
  "ev_waiting = ev_update 5 (\<lambda>ev. ev\<lparr>SignalCount := 1\<rparr>)
     (ev_sample\<lparr>gEfiCurrentTpl := TPL_APPLICATION, gEventQueue := (\<lambda>_. []), gEventPending := 0\<rparr>)"

lemma ev_waiting_inv: "ev_inv ev_waiting"
proof -
  have "ev_inv (ev_sample\<lparr>gEfiCurrentTpl := TPL_APPLICATION, gEventQueue := (\<lambda>_. []), gEventPending := 0\<rparr>)"
    by (rule ev_inv_queue_update) (use ev_sample_inv in \<open>simp_all add: ev_queues_ok_def\<close>)
  then show ?thesis unfolding ev_waiting_def by (rule ev_update_inv) simp_all
qed

section \<open>Services that return\<close>

context restoring_total
begin

lemma acquire_event_lock:
  assumes "ev_inv s" "gEfiCurrentTpl s \<le> TPL_HIGH_LEVEL" "Lock (locks s EventQueueLock) = EfiLockReleased"
  shows "CoreAcquireLock EventQueueLock s = Some (ev_locked EventQueueLock s)"
  using assms ev_signalsD(4) [OF assms(1)] by (simp add: CoreAcquireLock_eq)

lemma release_event_lock:
  assumes "ev_inv s" "gEfiCurrentTpl s \<le> TPL_HIGH_LEVEL" "ev_quiet (gEfiCurrentTpl s) s'"
    "locks s' = locks (ev_locked EventQueueLock s)" "gEfiCurrentTpl s' = TPL_HIGH_LEVEL"
  shows "CoreReleaseLock rst EventQueueLock s' = Some (ev_lowered (gEfiCurrentTpl s) (ev_released EventQueueLock s'))"
  using release_eq [of s' EventQueueLock] assms by simp

lemma CoreSignalEvent_queued:
  assumes inv: "ev_inv s" "ev_quiet (gEfiCurrentTpl s) s" and tpl: "gEfiCurrentTpl s \<le> TPL_HIGH_LEVEL"
    and lock: "Lock (locks s EventQueueLock) = EfiLockReleased"
    and ev: "events s e = Some ev" "Type ev AND EVT_NOTIFY_SIGNAL \<noteq> 0" "ExFlag ev AND EVT_EXFLAG_EVENT_GROUP = 0" "SignalCount ev = 0"
      "NotifyTpl ev \<le> gEfiCurrentTpl s"
  shows "\<exists>s'. CoreSignalEvent rst e s = Some (EFI_SUCCESS, s') \<and> events s' = (events s)(e \<mapsto> ev\<lparr>SignalCount := 1\<rparr>) \<and>
    gEventQueue s' = (\<lambda>p. removeAll e (gEventQueue s p) @ (if p = NotifyTpl ev then [e] else [])) \<and>
    notified s' = notified s \<and> gEfiCurrentTpl s' = gEfiCurrentTpl s"
proof -
  let ?s = "ev_locked EventQueueLock s" and ?f = "\<lambda>ev. ev\<lparr>SignalCount := SignalCount ev + 1\<rparr>"
  let ?u = "ev_update e ?f ?s"
  have ui: "ev_inv ?u" using ev_update_inv [of ?s ?f e] inv(1) by simp
  let ?n = "?u\<lparr>gEventQueue := (\<lambda>p. removeAll e (gEventQueue s p))(NotifyTpl ev := removeAll e (gEventQueue s (NotifyTpl ev)) @ [e]),
               gEventPending := gEventPending s OR push_bit (NotifyTpl ev) 1\<rparr>"
  have un: "(if ev_queued ?u e then ev_unqueue e ?u else ?u) = ?u\<lparr>gEventQueue := (\<lambda>p. removeAll e (gEventQueue s p))\<rparr>"
    using ev_unqueue_queued [OF ui, of e] by simp
  have n: "CoreNotifyEvent e ?u = Some ?n"
    unfolding CoreNotifyEvent_def un Let_def using ev(1) by (simp add: ev_assert_def)
  have "bit (gEventPending ?n) p \<Longrightarrow> p \<le> gEfiCurrentTpl s" for p
    using inv(2) ev(5) by (auto simp: ev_quiet_def bit_or_exp)
  then have r: "CoreReleaseLock rst EventQueueLock ?n = Some (ev_lowered (gEfiCurrentTpl s) (ev_released EventQueueLock ?n))"
    by (intro release_event_lock [OF inv(1) tpl]) (use ev_signalsD(4) [OF inv(1)] in \<open>simp_all add: ev_quiet_def\<close>)
  have "CoreSignalEvent rst e s = Some (EFI_SUCCESS, ev_lowered (gEfiCurrentTpl s) (ev_released EventQueueLock ?n))"
    using ev n r by (simp add: CoreSignalEvent_def event_lock_defs acquire_event_lock [OF inv(1) tpl lock])
  moreover have "(\<lambda>p. removeAll e (gEventQueue s p))(NotifyTpl ev := removeAll e (gEventQueue s (NotifyTpl ev)) @ [e]) =
      (\<lambda>p. removeAll e (gEventQueue s p) @ (if p = NotifyTpl ev then [e] else []))" by auto
  ultimately show ?thesis using ev by (intro exI) auto
qed

lemma CoreCheckEvent_plain:
  assumes inv: "ev_inv s" "ev_quiet (gEfiCurrentTpl s) s" and tpl: "gEfiCurrentTpl s \<le> TPL_HIGH_LEVEL"
    and lock: "Lock (locks s EventQueueLock) = EfiLockReleased"
    and ev: "events s e = Some ev" "\<not> ev_notifies ev"
  shows "SignalCount ev = 0 \<Longrightarrow> CoreCheckEvent rst e s = Some (EFI_NOT_READY, s)"
    and "SignalCount ev \<noteq> 0 \<Longrightarrow> \<exists>s'. CoreCheckEvent rst e s = Some (EFI_SUCCESS, s') \<and>
      events s' = (events s)(e \<mapsto> ev\<lparr>SignalCount := 0\<rparr>) \<and> gEfiCurrentTpl s' = gEfiCurrentTpl s \<and> notified s' = notified s"
proof -
  have ty: "Type ev AND EVT_NOTIFY_SIGNAL = 0" "Type ev AND EVT_NOTIFY_WAIT = 0"
    using ev(2) ev_notifies_signal ev_notifies_wait by blast+
  show "SignalCount ev = 0 \<Longrightarrow> CoreCheckEvent rst e s = Some (EFI_NOT_READY, s)"
    using ev ty by (simp add: CoreCheckEvent_def)
  assume sc: "SignalCount ev \<noteq> 0"
  let ?s = "ev_locked EventQueueLock s"
  let ?u = "ev_update e (\<lambda>ev. ev\<lparr>SignalCount := 0\<rparr>) ?s"
  have "CoreReleaseLock rst EventQueueLock ?u = Some (ev_lowered (gEfiCurrentTpl s) (ev_released EventQueueLock ?u))"
    by (rule release_event_lock [OF inv(1) tpl]) (use inv(2) ev_signalsD(4) [OF inv(1)] in \<open>simp_all add: ev_quiet_def\<close>)
  then have "CoreCheckEvent rst e s = Some (EFI_SUCCESS, ev_lowered (gEfiCurrentTpl s) (ev_released EventQueueLock ?u))"
    using ev ty sc by (simp add: CoreCheckEvent_def event_lock_defs acquire_event_lock [OF inv(1) tpl lock])
  then show "\<exists>s'. CoreCheckEvent rst e s = Some (EFI_SUCCESS, s') \<and>
      events s' = (events s)(e \<mapsto> ev\<lparr>SignalCount := 0\<rparr>) \<and> gEfiCurrentTpl s' = gEfiCurrentTpl s \<and> notified s' = notified s"
    using ev(1) by simp
qed

text \<open>The first signalled event of an array of events without notification.\<close>

lemma ev_check_all_first:
  assumes inv: "ev_inv s" "ev_quiet (gEfiCurrentTpl s) s" and tpl: "gEfiCurrentTpl s \<le> TPL_HIGH_LEVEL"
    and lock: "Lock (locks s EventQueueLock) = EfiLockReleased"
    and k: "k < length es" "\<forall>j < k. \<exists>ev. events s (es ! j) = Some ev \<and> \<not> ev_notifies ev \<and> SignalCount ev = 0"
    and ev: "events s (es ! k) = Some ev" "\<not> ev_notifies ev" "SignalCount ev \<noteq> 0"
  shows "\<exists>s'. ev_check_all rst es i s = Some (Some (EFI_SUCCESS, i + k), s') \<and>
      events s' = (events s)(es ! k \<mapsto> ev\<lparr>SignalCount := 0\<rparr>) \<and> gEfiCurrentTpl s' = gEfiCurrentTpl s \<and> notified s' = notified s"
  using k ev
proof (induction es arbitrary: i k)
  case (Cons e es)
  show ?case
  proof (cases k)
    case 0
    with Cons.prems CoreCheckEvent_plain(2) [OF inv tpl lock, of e ev] show ?thesis by (auto simp: fun_upd_def)
  next
    case (Suc j)
    have "\<exists>ev. events s e = Some ev \<and> \<not> ev_notifies ev \<and> SignalCount ev = 0" using Cons.prems(2) Suc by fastforce
    then have "CoreCheckEvent rst e s = Some (EFI_NOT_READY, s)" using CoreCheckEvent_plain(1) [OF inv tpl lock] by blast
    moreover have "\<forall>j' < j. \<exists>ev. events s (es ! j') = Some ev \<and> \<not> ev_notifies ev \<and> SignalCount ev = 0"
      using Cons.prems(2) Suc by fastforce
    ultimately show ?thesis using Cons.IH [of j "Suc i"] Cons.prems Suc by simp
  qed
qed simp

lemma CoreCreateEventInternal_returns:
  assumes inv: "ev_inv s" "ev_quiet (gEfiCurrentTpl s) s" and tpl: "gEfiCurrentTpl s \<le> TPL_HIGH_LEVEL"
    and lock: "Lock (locks s EventQueueLock) = EfiLockReleased"
  shows "CoreCreateEventInternal rst Ty Level Fn Group w s \<noteq> None"
proof -
  have r: "CoreAcquireLock EventQueueLock x = Some (ev_locked EventQueueLock x) \<and>
      CoreReleaseLock rst EventQueueLock ((ev_locked EventQueueLock x)\<lparr>gEventSignalQueue := q\<rparr>) =
        Some (ev_lowered (gEfiCurrentTpl s) (ev_released EventQueueLock ((ev_locked EventQueueLock x)\<lparr>gEventSignalQueue := q\<rparr>)))"
    if "locks x = locks s" "gEfiCurrentTpl x = gEfiCurrentTpl s" "gEventPending x = gEventPending s" for x q
    using that inv tpl lock ev_signalsD(4) [OF inv(1)] release_eq [of "(ev_locked EventQueueLock x)\<lparr>gEventSignalQueue := q\<rparr>" EventQueueLock]
    by (simp add: CoreAcquireLock_eq ev_quiet_def)
  show ?thesis
    unfolding CoreCreateEventInternal_def event_lock_defs Let_def by (auto split: option.splits prod.splits simp: r)
qed

end

section \<open>Start-up\<close>



section \<open>Properties\<close>





text \<open>
  (C15) Lowering the task priority, when the notification functions call no service: it returns, having
  notified every event that was pending above the new priority, from the highest priority down and
  each queue in its order, and nothing else; no such event is left.
\<close>

theorem CoreRestoreTpl_dispatch_order:
  assumes "ev_inv s" "t \<le> gEfiCurrentTpl s" "t < TPL_HIGH_LEVEL" "Lock (locks s EventQueueLock) = EfiLockReleased"
    "\<forall>p e. t < p \<longrightarrow> e \<in> set (gEventQueue s p) \<longrightarrow> ev_leaf_event s e" "\<forall>p. length (gEventQueue s p) < m"
  shows "\<exists>s'. CoreRestoreTpl ev_leaf (m + 33) t s = Some s' \<and> gEfiCurrentTpl s' = t \<and> ev_inv s' \<and>
    notified s' = notified s @ concat (map (\<lambda>p. map (Pair p) (gEventQueue s p)) (rev [Suc t..<TPL_HIGH_LEVEL])) \<and>
    (\<forall>p. t < p \<longrightarrow> gEventQueue s' p = [])"
  using CoreRestoreTpl_leaf [OF assms] unfolding ev_pending_list_def ev_step_def by blast

theorem CoreRestoreTpl_dispatch_order_witness:
  "\<exists>s'. CoreRestoreTpl ev_leaf 35 4 ev_sample = Some s' \<and> notified s' = [(16, 3), (8, 2)]"
proof -
  have l: "ev_leaf_event ev_sample 2" "ev_leaf_event ev_sample 3"
    by (simp_all add: ev_leaf_event_def ev_sample_fields ev_sample_event_def)
  have "\<exists>s'. CoreRestoreTpl ev_leaf (2 + 33) 4 ev_sample = Some s' \<and> gEfiCurrentTpl s' = 4 \<and> ev_inv s' \<and>
    notified s' = notified ev_sample @ concat (map (\<lambda>p. map (Pair p) (gEventQueue ev_sample p)) (rev [Suc 4..<TPL_HIGH_LEVEL])) \<and>
    (\<forall>p. 4 < p \<longrightarrow> gEventQueue s' p = [])"
    by (rule CoreRestoreTpl_dispatch_order [OF ev_sample_inv]) (use l in \<open>auto simp: ev_sample_fields\<close>)
  moreover have "concat (map (\<lambda>p. map (Pair p) (gEventQueue ev_sample p)) (rev [Suc 4..<TPL_HIGH_LEVEL])) = [(16, 3), (8, 2)]" by code_simp
  ultimately show ?thesis by (auto simp: ev_sample_fields(8))
qed

text \<open>
  (C16) The timer check runs at the priority of the timer lock. If no period wraps around from the
  current system time, it returns after at most twice as many rounds as there are timers, and leaves
  only timers that are not due.
\<close>

theorem CoreCheckTimers_terminates:
  assumes "ev_inv s" "gEfiCurrentTpl s = TPL_HIGH_LEVEL - 1" "\<forall>L. Lock (locks s L) = EfiLockReleased"
    "\<forall>e \<in> set (mEfiTimerList s). \<forall>ev. events s e = Some ev \<longrightarrow> unat (mEfiSystemTime s) + unat (Period ev) < 2 ^ 64"
    "2 * length (mEfiTimerList s) < n"
  shows "\<exists>s'. CoreCheckTimers n (CoreRestoreTpl code (Suc (Suc fuel))) s = Some s' \<and>
    (\<forall>e \<in> set (mEfiTimerList s'). mEfiSystemTime s < ev_time s' e)"
  by (rule core_total.CoreCheckTimers_returns) (use assms in \<open>simp_all add: ev_high_def ev_periods_ok_def\<close>)

theorem CoreCheckTimers_terminates_witness:
  "\<exists>s'. CoreCheckTimers 3 (CoreRestoreTpl ev_leaf (Suc (Suc 0))) (ev_sample\<lparr>gEfiCurrentTpl := 30, mEfiSystemTime := 105\<rparr>) = Some s' \<and>
    (\<forall>e \<in> set (mEfiTimerList s'). 105 < ev_time s' e)"
proof -
  let ?s = "ev_sample\<lparr>gEfiCurrentTpl := 30, mEfiSystemTime := 105\<rparr>"
  have l: "Lock (locks ?s L) = EfiLockReleased" for L by (cases L) (simp_all add: ev_sample_fields)
  have "\<exists>s'. CoreCheckTimers 3 (CoreRestoreTpl ev_leaf (Suc (Suc 0))) ?s = Some s' \<and> (\<forall>e \<in> set (mEfiTimerList s'). mEfiSystemTime ?s < ev_time s' e)"
    by (rule CoreCheckTimers_terminates) (use ev_sample_inv l in \<open>simp_all add: ev_sample_fields ev_sample_event_def\<close>)
  then show ?thesis by simp
qed



text \<open>
  (C18) Signalling an event at a priority not above the caller's queues it: once, at the end of the queue
  of its own priority, without notifying it; the event is then signalled.
\<close>

theorem CoreSignalEvent_queues_once:
  assumes "ev_inv s" "\<forall>p. bit (gEventPending s) p \<longrightarrow> p \<le> gEfiCurrentTpl s" "gEfiCurrentTpl s \<le> TPL_HIGH_LEVEL"
    "Lock (locks s EventQueueLock) = EfiLockReleased" "events s e = Some ev" "Type ev AND EVT_NOTIFY_SIGNAL \<noteq> 0"
    "ExFlag ev AND EVT_EXFLAG_EVENT_GROUP = 0" "SignalCount ev = 0" "NotifyTpl ev \<le> gEfiCurrentTpl s"
  shows "\<exists>s'. CoreSignalEvent (CoreRestoreTpl code (Suc (Suc fuel))) e s = Some (EFI_SUCCESS, s') \<and>
    events s' = (events s)(e \<mapsto> ev\<lparr>SignalCount := 1\<rparr>) \<and>
    gEventQueue s' = (\<lambda>p. removeAll e (gEventQueue s p) @ (if p = NotifyTpl ev then [e] else [])) \<and>
    notified s' = notified s \<and> gEfiCurrentTpl s' = gEfiCurrentTpl s"
  by (rule core_total.CoreSignalEvent_queued) (use assms in \<open>simp_all add: ev_quiet_def\<close>)

theorem CoreSignalEvent_queues_once_witness:
  "\<exists>s'. CoreSignalEvent (CoreRestoreTpl ev_leaf (Suc (Suc 0))) 1 (ev_sample\<lparr>gEfiCurrentTpl := 30\<rparr>) = Some (EFI_SUCCESS, s') \<and>
    gEventQueue s' 30 = [1] \<and> gEventQueue s' 16 = [3]"
proof -
  let ?s = "ev_sample\<lparr>gEfiCurrentTpl := 30\<rparr>" and ?ev = "ev_sample_event EVT_NOTIFY_SIGNAL 30 (Some CoreCheckTimersFunction)"
  have q: "\<forall>p. bit (gEventPending ?s) p \<longrightarrow> p \<le> gEfiCurrentTpl ?s" using ev_sample_bits by auto
  have "\<exists>s'. CoreSignalEvent (CoreRestoreTpl ev_leaf (Suc (Suc 0))) 1 ?s = Some (EFI_SUCCESS, s') \<and>
    events s' = (events ?s)(1 \<mapsto> ?ev\<lparr>SignalCount := 1\<rparr>) \<and>
    gEventQueue s' = (\<lambda>p. removeAll 1 (gEventQueue ?s p) @ (if p = NotifyTpl ?ev then [1] else [])) \<and>
    notified s' = notified ?s \<and> gEfiCurrentTpl s' = gEfiCurrentTpl ?s"
    by (rule CoreSignalEvent_queues_once [OF _ q])
      (use ev_sample_inv in \<open>simp_all add: ev_sample_fields ev_sample_event_def evt_defs EVT_EXFLAG_EVENT_GROUP_def\<close>)
  then show ?thesis by (auto simp: ev_sample_fields ev_sample_event_def)
qed

text \<open>
  (C19) Waiting for events without a notification function, at the application priority: the result is
  the first event of the array that is signalled, and its signal is consumed.
\<close>

theorem CoreWaitForEvent_first_signalled:
  assumes "ev_inv s" "\<forall>p. bit (gEventPending s) p \<longrightarrow> p \<le> TPL_APPLICATION" "gEfiCurrentTpl s = TPL_APPLICATION"
    "Lock (locks s EventQueueLock) = EfiLockReleased" "k < length es"
    "\<forall>j < k. \<exists>ev. events s (es ! j) = Some ev \<and> Type ev AND (EVT_NOTIFY_WAIT OR EVT_NOTIFY_SIGNAL) = 0 \<and> SignalCount ev = 0"
    "events s (es ! k) = Some ev" "Type ev AND (EVT_NOTIFY_WAIT OR EVT_NOTIFY_SIGNAL) = 0" "SignalCount ev \<noteq> 0"
  shows "\<exists>s'. CoreWaitForEvent (Suc n) (CoreRestoreTpl code (Suc (Suc fuel))) idle (Some es) (length es) s = Some (EFI_SUCCESS, Some k, s') \<and>
    events s' = (events s)(es ! k \<mapsto> ev\<lparr>SignalCount := 0\<rparr>) \<and> gEfiCurrentTpl s' = TPL_APPLICATION"
proof -
  have "\<exists>s'. ev_check_all (CoreRestoreTpl code (Suc (Suc fuel))) es 0 s = Some (Some (EFI_SUCCESS, 0 + k), s') \<and>
      events s' = (events s)(es ! k \<mapsto> ev\<lparr>SignalCount := 0\<rparr>) \<and> gEfiCurrentTpl s' = gEfiCurrentTpl s \<and> notified s' = notified s"
    by (rule core_total.ev_check_all_first) (use assms in \<open>simp_all add: ev_quiet_def ev_notifies_def\<close>)
  moreover have "length es \<noteq> 0" using assms(5) by auto
  ultimately show ?thesis using assms(3)
    by (auto simp: CoreWaitForEvent_def CoreWaitForEventInternal_def simp del: CoreRestoreTpl.simps)
qed

theorem CoreWaitForEvent_first_signalled_witness:
  "\<exists>s'. CoreWaitForEvent 1 (CoreRestoreTpl ev_leaf (Suc (Suc 0))) Some (Some [4, 5]) 2 ev_waiting = Some (EFI_SUCCESS, Some 1, s')"
proof -
  have q: "\<forall>p. bit (gEventPending ev_waiting) p \<longrightarrow> p \<le> TPL_APPLICATION" by (simp add: ev_waiting_def)
  have "\<exists>s'. CoreWaitForEvent (Suc 0) (CoreRestoreTpl ev_leaf (Suc (Suc 0))) Some (Some [4, 5]) (length [4 :: nat, 5]) ev_waiting =
      Some (EFI_SUCCESS, Some 1, s') \<and>
    events s' = (events ev_waiting)([4, 5] ! 1 \<mapsto> ((ev_sample_event 0 0 None)\<lparr>SignalCount := 1\<rparr>)\<lparr>SignalCount := 0\<rparr>) \<and> gEfiCurrentTpl s' = TPL_APPLICATION"
    by (rule CoreWaitForEvent_first_signalled [OF ev_waiting_inv q])
      (simp_all add: ev_waiting_def ev_sample_fields ev_sample_event_def evt_defs ev_update_def)
  then show ?thesis by (auto simp: numeral_2_eq_2)
qed



text \<open>
  (C21) The bit scan \<open>HighBitSet64\<close>, which picks the priority to dispatch, returns the highest bit that is
  set, and \<open>-1\<close> for zero.
\<close>

theorem HighBitSet64_scans:
  "(x = 0 \<longrightarrow> HighBitSet64 x = -1) \<and>
   (x \<noteq> 0 \<longrightarrow> (\<exists>k < 64. HighBitSet64 x = int k \<and> bit x k \<and> (\<forall>j. bit x j \<longrightarrow> j \<le> k)))"
proof -
  have "HighBitSet64 0 = -1" by (simp add: HighBitSet64_def HighBitSet32_def)
  moreover have "\<exists>k < 64. HighBitSet64 x = int k \<and> bit x k \<and> (\<forall>j. bit x j \<longrightarrow> j \<le> k)" if "x \<noteq> 0"
    by (rule HighBitSet64_highest [OF that]) blast
  ultimately show ?thesis by blast
qed

theorem HighBitSet64_scans_witness: "HighBitSet64 0x8000000000000001 = 63 \<and> bit (0x8000000000000001 :: UINT64) 63"
proof -
  have b: "bit (0x8000000000000001 :: UINT64) 63" by simp
  from HighBitSet64_scans [of "0x8000000000000001"] obtain k where k: "k < 64" "HighBitSet64 0x8000000000000001 = int k"
    "\<forall>j. bit (0x8000000000000001 :: UINT64) j \<longrightarrow> j \<le> k" by auto
  from k(1,3) b have "k = 63" by fastforce
  with k(2) b show ?thesis by simp
qed

end
