(* ===== verification/Device_Path.thy ===== *)
theory Device_Path
  imports Prelude "HOL-Library.Monad_Syntax"
begin

text \<open>
  The device path library, \<^verbatim>\<open>MdePkg/Library/UefiDevicePathLib/DevicePathUtilities.c\<close> with the
  exported wrappers of \<^verbatim>\<open>UefiDevicePathLib.c\<close>.

  A pointer to a device path is the list of the bytes from that address to the end of the memory
  the caller may read, or \<^const>\<open>None\<close> when it is \<open>NULL\<close>.  Every routine returns an option: it is
  \<^const>\<open>None\<close> when an \<open>ASSERT\<close> fails, when a byte outside the memory is read or written, or when a
  loop does not end.  Sizes are natural numbers; \<open>uintn\<close> writes out the places where the code adds
  two \<open>UINTN\<close> values without a check.  What a call of the pool allocator returns is an argument of
  the routine that makes it: \<^const>\<open>None\<close> when it fails, and otherwise the bytes the fresh buffer
  happens to hold.
\<close>

type_synonym dp_ptr = "UINT8 list option"
type_synonym pool_answer = "(nat \<Rightarrow> UINT8) option"

definition END_DEVICE_PATH_TYPE :: UINT8 where "END_DEVICE_PATH_TYPE = 0x7f"
definition END_ENTIRE_DEVICE_PATH_SUBTYPE :: UINT8 where "END_ENTIRE_DEVICE_PATH_SUBTYPE = 0xFF"
definition END_INSTANCE_DEVICE_PATH_SUBTYPE :: UINT8 where "END_INSTANCE_DEVICE_PATH_SUBTYPE = 0x01"
definition MEDIA_DEVICE_PATH :: UINT8 where "MEDIA_DEVICE_PATH = 0x04"
definition MEDIA_FILEPATH_DP :: UINT8 where "MEDIA_FILEPATH_DP = 0x04"
definition END_DEVICE_PATH_LENGTH :: nat where "END_DEVICE_PATH_LENGTH = 4"
definition SIZE_OF_FILEPATH_DEVICE_PATH :: nat where "SIZE_OF_FILEPATH_DEVICE_PATH = 4"
definition MAX_UINTN :: nat where "MAX_UINTN = 2 ^ 64 - 1"

definition uintn :: "nat \<Rightarrow> nat" where
  "uintn n = n mod 2 ^ 64"

definition mUefiDevicePathLibEndDevicePath :: "UINT8 list" where
  "mUefiDevicePathLibEndDevicePath =
     [END_DEVICE_PATH_TYPE, END_ENTIRE_DEVICE_PATH_SUBTYPE, of_nat END_DEVICE_PATH_LENGTH, 0]"

section \<open>Memory\<close>

text \<open>\<open>AllocatePool\<close>, \<open>AllocateZeroPool\<close> and \<open>CopyMem\<close> with a byte offset into the destination, the
  store of one byte, and the little-endian 16-bit accesses of \<^verbatim>\<open>BaseLib/Unaligned.c\<close>.\<close>

definition AllocatePool :: "pool_answer \<Rightarrow> nat \<Rightarrow> dp_ptr" where
  "AllocatePool pool n = map_option (\<lambda>g. map g [0..<n]) pool"

definition AllocateZeroPool :: "pool_answer \<Rightarrow> nat \<Rightarrow> dp_ptr" where
  "AllocateZeroPool pool n = map_option (\<lambda>_. replicate n 0) pool"

definition CopyMem :: "UINT8 list \<Rightarrow> nat \<Rightarrow> UINT8 list \<Rightarrow> nat \<Rightarrow> UINT8 list option" where
  "CopyMem dst off src n =
     (if n \<le> length src \<and> off + n \<le> length dst
      then Some (take off dst @ take n src @ drop (off + n) dst) else None)"

definition AllocateCopyPool :: "pool_answer \<Rightarrow> nat \<Rightarrow> UINT8 list \<Rightarrow> dp_ptr option" where
  "AllocateCopyPool pool n src =
     (case AllocatePool pool n of
        None \<Rightarrow> Some None
      | Some Memory \<Rightarrow> map_option Some (CopyMem Memory 0 src n))"

definition store8 :: "UINT8 list \<Rightarrow> nat \<Rightarrow> UINT8 \<Rightarrow> UINT8 list option" where
  "store8 buf i v = (if i < length buf then Some (buf[i := v]) else None)"

definition load8 :: "UINT8 list \<Rightarrow> nat \<Rightarrow> UINT8 option" where
  "load8 buf i = (if i < length buf then Some (buf ! i) else None)"

definition ReadUnaligned16 :: "UINT8 list \<Rightarrow> nat \<Rightarrow> nat option" where
  "ReadUnaligned16 buf i = do {
     lo \<leftarrow> load8 buf i;
     hi \<leftarrow> load8 buf (Suc i);
     Some (unat lo + 256 * unat hi) }"

definition WriteUnaligned16 :: "UINT8 list \<Rightarrow> nat \<Rightarrow> nat \<Rightarrow> UINT8 list option" where
  "WriteUnaligned16 buf i v = do {
     buf \<leftarrow> store8 buf i (of_nat v);
     store8 buf (Suc i) (of_nat (v div 256)) }"

section \<open>Nodes\<close>

text \<open>A node is addressed by the buffer it lies in and its offset there.\<close>

definition DevicePathType :: "UINT8 list \<Rightarrow> nat \<Rightarrow> UINT8 option" where
  "DevicePathType path off = load8 path off"

definition DevicePathSubType :: "UINT8 list \<Rightarrow> nat \<Rightarrow> UINT8 option" where
  "DevicePathSubType path off = load8 path (off + 1)"

definition DevicePathNodeLength :: "UINT8 list \<Rightarrow> nat \<Rightarrow> nat option" where
  "DevicePathNodeLength path off = ReadUnaligned16 path (off + 2)"

definition NextDevicePathNode :: "UINT8 list \<Rightarrow> nat \<Rightarrow> nat option" where
  "NextDevicePathNode path off = map_option (\<lambda>n. off + n) (DevicePathNodeLength path off)"

definition IsDevicePathEndType :: "UINT8 list \<Rightarrow> nat \<Rightarrow> bool option" where
  "IsDevicePathEndType path off = map_option (\<lambda>t. t = END_DEVICE_PATH_TYPE) (DevicePathType path off)"

definition IsDevicePathEnd :: "UINT8 list \<Rightarrow> nat \<Rightarrow> bool option" where
  "IsDevicePathEnd path off = do {
     e \<leftarrow> IsDevicePathEndType path off;
     if e then map_option (\<lambda>s. s = END_ENTIRE_DEVICE_PATH_SUBTYPE) (DevicePathSubType path off)
     else Some False }"

definition IsDevicePathEndInstance :: "UINT8 list \<Rightarrow> nat \<Rightarrow> bool option" where
  "IsDevicePathEndInstance path off = do {
     e \<leftarrow> IsDevicePathEndType path off;
     if e then map_option (\<lambda>s. s = END_INSTANCE_DEVICE_PATH_SUBTYPE) (DevicePathSubType path off)
     else Some False }"

definition SetDevicePathNodeLength :: "UINT8 list \<Rightarrow> nat \<Rightarrow> nat \<Rightarrow> UINT8 list option" where
  "SetDevicePathNodeLength path off Length =
     (if END_DEVICE_PATH_LENGTH \<le> Length \<and> Length < 0x10000
      then WriteUnaligned16 path (off + 2) Length else None)"

definition SetDevicePathEndNode :: "UINT8 list \<Rightarrow> nat \<Rightarrow> UINT8 list option" where
  "SetDevicePathEndNode path off =
     CopyMem path off mUefiDevicePathLibEndDevicePath END_DEVICE_PATH_LENGTH"

lemma load8_Some_iff: "load8 buf i = Some v \<longleftrightarrow> i < length buf \<and> v = buf ! i"
  by (auto simp: load8_def)

lemma DevicePathNodeLength_Some: "DevicePathNodeLength path off = Some n \<Longrightarrow> off + 3 < length path"
  by (auto simp: DevicePathNodeLength_def ReadUnaligned16_def bind_eq_Some_conv load8_Some_iff)

section \<open>Validation\<close>

text \<open>The string of a file path node has to end in a zero \<open>CHAR16\<close>.\<close>

definition filepath_unterminated :: "UINT8 list \<Rightarrow> nat \<Rightarrow> nat \<Rightarrow> bool option" where
  "filepath_unterminated path off NodeLength = do {
     t \<leftarrow> DevicePathType path off;
     if t \<noteq> MEDIA_DEVICE_PATH then Some False
     else do {
       s \<leftarrow> DevicePathSubType path off;
       if s \<noteq> MEDIA_FILEPATH_DP then Some False
       else map_option (\<lambda>c. c \<noteq> 0) (ReadUnaligned16 path (off + NodeLength - 2)) } }"

text \<open>The loop of \<open>IsDevicePathValid\<close>: \<open>off\<close> is the address in \<open>DevicePath\<close> and \<open>pcd\<close> is
  \<open>PcdMaximumDevicePathNodeCount\<close>.\<close>

function valid_loop :: "nat \<Rightarrow> nat \<Rightarrow> UINT8 list \<Rightarrow> nat \<Rightarrow> nat \<Rightarrow> nat \<Rightarrow> bool option" where
  "valid_loop pcd MaxSize path off Count Size =
     (case IsDevicePathEnd path off of
        None \<Rightarrow> None
      | Some True \<Rightarrow> map_option (\<lambda>n. n = END_DEVICE_PATH_LENGTH) (DevicePathNodeLength path off)
      | Some False \<Rightarrow>
          (case DevicePathNodeLength path off of
             None \<Rightarrow> None
           | Some NodeLength \<Rightarrow>
               if NodeLength < 4 then Some False
               else if MAX_UINTN - Size < NodeLength then Some False
               else if MaxSize - END_DEVICE_PATH_LENGTH < Size + NodeLength then Some False
               else if 0 < pcd \<and> pcd \<le> Count + 1 then Some False
               else
                 (case filepath_unterminated path off NodeLength of
                    None \<Rightarrow> None
                  | Some True \<Rightarrow> Some False
                  | Some False \<Rightarrow>
                      valid_loop pcd MaxSize path (off + NodeLength)
                        (if 0 < pcd then Count + 1 else Count) (Size + NodeLength))))"
  by pat_completeness auto
termination
  by (relation "measure (\<lambda>(pcd, m, path, off, c, s). length path - off)")
    (auto dest: DevicePathNodeLength_Some)

declare valid_loop.simps [simp del]

definition IsDevicePathValid :: "nat \<Rightarrow> dp_ptr \<Rightarrow> nat \<Rightarrow> bool option" where
  "IsDevicePathValid pcd DevicePath MaxSize =
     (case DevicePath of
        None \<Rightarrow> Some False
      | Some path \<Rightarrow>
          if 0 < MaxSize \<and> MaxSize < END_DEVICE_PATH_LENGTH then Some False
          else valid_loop pcd (if MaxSize = 0 then MAX_UINTN else MaxSize) path 0 0 0)"

section \<open>Size, copies and concatenation\<close>

text \<open>The loops that step from node to node until a test holds; they do not return when they meet a
  node of length zero.\<close>

partial_function (option) dp_seek ::
    "(UINT8 list \<Rightarrow> nat \<Rightarrow> bool option) \<Rightarrow> UINT8 list \<Rightarrow> nat \<Rightarrow> nat option" where
  "dp_seek stop path off = do {
     b \<leftarrow> stop path off;
     if b then Some off
     else do {
       off' \<leftarrow> NextDevicePathNode path off;
       dp_seek stop path off' } }"

definition UefiDevicePathLibGetDevicePathSize :: "nat \<Rightarrow> dp_ptr \<Rightarrow> nat option" where
  "UefiDevicePathLibGetDevicePathSize pcd DevicePath =
     (case DevicePath of
        None \<Rightarrow> Some 0
      | Some path \<Rightarrow> do {
          v \<leftarrow> IsDevicePathValid pcd DevicePath 0;
          if \<not> v then Some 0
          else do {
            off \<leftarrow> dp_seek IsDevicePathEnd path 0;
            n \<leftarrow> DevicePathNodeLength path off;
            Some (uintn (off + n)) } })"

definition GetDevicePathSize :: "nat \<Rightarrow> dp_ptr \<Rightarrow> nat option" where
  "GetDevicePathSize pcd DevicePath = UefiDevicePathLibGetDevicePathSize pcd DevicePath"

definition UefiDevicePathLibDuplicateDevicePath :: "nat \<Rightarrow> pool_answer \<Rightarrow> dp_ptr \<Rightarrow> dp_ptr option" where
  "UefiDevicePathLibDuplicateDevicePath pcd pool DevicePath = do {
     Size \<leftarrow> GetDevicePathSize pcd DevicePath;
     if Size = 0 then Some None
     else do {
       path \<leftarrow> DevicePath;
       AllocateCopyPool pool Size path } }"

definition DuplicateDevicePath :: "nat \<Rightarrow> pool_answer \<Rightarrow> dp_ptr \<Rightarrow> dp_ptr option" where
  "DuplicateDevicePath pcd pool DevicePath = UefiDevicePathLibDuplicateDevicePath pcd pool DevicePath"

definition UefiDevicePathLibAppendDevicePath ::
    "nat \<Rightarrow> pool_answer \<Rightarrow> dp_ptr \<Rightarrow> dp_ptr \<Rightarrow> dp_ptr option" where
  "UefiDevicePathLibAppendDevicePath pcd pool FirstDevicePath SecondDevicePath =
     (case FirstDevicePath of
        None \<Rightarrow> DuplicateDevicePath pcd pool
                 (if SecondDevicePath \<noteq> None then SecondDevicePath
                  else Some mUefiDevicePathLibEndDevicePath)
      | Some path1 \<Rightarrow>
          (case SecondDevicePath of
             None \<Rightarrow> DuplicateDevicePath pcd pool FirstDevicePath
           | Some path2 \<Rightarrow> do {
               v1 \<leftarrow> IsDevicePathValid pcd FirstDevicePath 0;
               v2 \<leftarrow> (if v1 then IsDevicePathValid pcd SecondDevicePath 0 else Some False);
               if \<not> v2 then Some None
               else do {
                 Size1 \<leftarrow> GetDevicePathSize pcd FirstDevicePath;
                 Size2 \<leftarrow> GetDevicePathSize pcd SecondDevicePath;
                 case AllocatePool pool (uintn (Size1 + Size2 - END_DEVICE_PATH_LENGTH)) of
                   None \<Rightarrow> Some None
                 | Some NewDevicePath \<Rightarrow> do {
                     NewDevicePath \<leftarrow> CopyMem NewDevicePath 0 path1 Size1;
                     NewDevicePath \<leftarrow> CopyMem NewDevicePath (Size1 - END_DEVICE_PATH_LENGTH) path2 Size2;
                     Some (Some NewDevicePath) } } }))"

definition AppendDevicePath :: "nat \<Rightarrow> pool_answer \<Rightarrow> dp_ptr \<Rightarrow> dp_ptr \<Rightarrow> dp_ptr option" where
  "AppendDevicePath pcd pool FirstDevicePath SecondDevicePath =
     UefiDevicePathLibAppendDevicePath pcd pool FirstDevicePath SecondDevicePath"

text \<open>\<open>temp\<close> is what the pool answers for the temporary path, \<open>pool\<close> what it answers after that.\<close>

definition UefiDevicePathLibAppendDevicePathNode ::
    "nat \<Rightarrow> pool_answer \<Rightarrow> pool_answer \<Rightarrow> dp_ptr \<Rightarrow> dp_ptr \<Rightarrow> dp_ptr option" where
  "UefiDevicePathLibAppendDevicePathNode pcd temp pool DevicePath DevicePathNode =
     (case DevicePathNode of
        None \<Rightarrow> DuplicateDevicePath pcd pool
                 (if DevicePath \<noteq> None then DevicePath else Some mUefiDevicePathLibEndDevicePath)
      | Some node \<Rightarrow> do {
          NodeLength \<leftarrow> DevicePathNodeLength node 0;
          case AllocatePool temp (NodeLength + END_DEVICE_PATH_LENGTH) of
            None \<Rightarrow> Some None
          | Some TempDevicePath \<Rightarrow> do {
              TempDevicePath \<leftarrow> CopyMem TempDevicePath 0 node NodeLength;
              NextNode \<leftarrow> NextDevicePathNode TempDevicePath 0;
              TempDevicePath \<leftarrow> SetDevicePathEndNode TempDevicePath NextNode;
              AppendDevicePath pcd pool DevicePath (Some TempDevicePath) } })"

definition UefiDevicePathLibAppendDevicePathInstance ::
    "nat \<Rightarrow> pool_answer \<Rightarrow> dp_ptr \<Rightarrow> dp_ptr \<Rightarrow> dp_ptr option" where
  "UefiDevicePathLibAppendDevicePathInstance pcd pool DevicePath DevicePathInstance =
     (case DevicePath of
        None \<Rightarrow> DuplicateDevicePath pcd pool DevicePathInstance
      | Some path \<Rightarrow>
          (case DevicePathInstance of
             None \<Rightarrow> Some None
           | Some inst \<Rightarrow> do {
               v1 \<leftarrow> IsDevicePathValid pcd DevicePath 0;
               v2 \<leftarrow> (if v1 then IsDevicePathValid pcd DevicePathInstance 0 else Some False);
               if \<not> v2 then Some None
               else do {
                 SrcSize \<leftarrow> GetDevicePathSize pcd DevicePath;
                 InstanceSize \<leftarrow> GetDevicePathSize pcd DevicePathInstance;
                 case AllocatePool pool (uintn (SrcSize + InstanceSize)) of
                   None \<Rightarrow> Some None
                 | Some NewDevicePath \<Rightarrow> do {
                     NewDevicePath \<leftarrow> CopyMem NewDevicePath 0 path SrcSize;
                     TempDevicePath \<leftarrow> dp_seek IsDevicePathEnd NewDevicePath 0;
                     NewDevicePath \<leftarrow> store8 NewDevicePath (TempDevicePath + 1) END_INSTANCE_DEVICE_PATH_SUBTYPE;
                     TempDevicePath \<leftarrow> NextDevicePathNode NewDevicePath TempDevicePath;
                     NewDevicePath \<leftarrow> CopyMem NewDevicePath TempDevicePath inst InstanceSize;
                     Some (Some NewDevicePath) } } }))"

text \<open>The result is the copy, the new value of \<open>*DevicePath\<close> and of \<open>*Size\<close>; the latter is
  \<^const>\<open>None\<close> on the path where the code leaves it as it was.  The byte the code changes in the
  caller's path for the time of the copy is back when it returns.\<close>

definition UefiDevicePathLibGetNextDevicePathInstance ::
    "nat \<Rightarrow> pool_answer \<Rightarrow> dp_ptr \<Rightarrow> (dp_ptr \<times> dp_ptr \<times> nat option) option" where
  "UefiDevicePathLibGetNextDevicePathInstance pcd pool DevicePath =
     (case DevicePath of
        None \<Rightarrow> Some (None, None, Some 0)
      | Some path \<Rightarrow> do {
          v \<leftarrow> IsDevicePathValid pcd DevicePath 0;
          if \<not> v then Some (None, DevicePath, None)
          else do {
            DevPath \<leftarrow> dp_seek IsDevicePathEndType path 0;
            Temp \<leftarrow> load8 path (DevPath + 1);
            path \<leftarrow> store8 path (DevPath + 1) END_ENTIRE_DEVICE_PATH_SUBTYPE;
            ReturnValue \<leftarrow> DuplicateDevicePath pcd pool (Some path);
            path \<leftarrow> store8 path (DevPath + 1) Temp;
            SubType \<leftarrow> DevicePathSubType path DevPath;
            if SubType = END_ENTIRE_DEVICE_PATH_SUBTYPE
            then Some (ReturnValue, None, Some (uintn (DevPath + 4)))
            else do {
              off \<leftarrow> NextDevicePathNode path DevPath;
              Some (ReturnValue, Some (drop off path), Some (uintn (DevPath + 4))) } } })"

definition UefiDevicePathLibCreateDeviceNode ::
    "pool_answer \<Rightarrow> UINT8 \<Rightarrow> UINT8 \<Rightarrow> UINT16 \<Rightarrow> dp_ptr option" where
  "UefiDevicePathLibCreateDeviceNode pool NodeType NodeSubType NodeLength =
     (if unat NodeLength < 4 then Some None
      else (case AllocateZeroPool pool (unat NodeLength) of
              None \<Rightarrow> Some None
            | Some DevicePath \<Rightarrow> do {
                DevicePath \<leftarrow> store8 DevicePath 0 NodeType;
                DevicePath \<leftarrow> store8 DevicePath 1 NodeSubType;
                DevicePath \<leftarrow> SetDevicePathNodeLength DevicePath 0 (unat NodeLength);
                Some (Some DevicePath) }))"

partial_function (option) multi_instance_loop :: "UINT8 list \<Rightarrow> nat \<Rightarrow> bool option" where
  "multi_instance_loop path Node = do {
     e \<leftarrow> IsDevicePathEnd path Node;
     if e then Some False
     else do {
       i \<leftarrow> IsDevicePathEndInstance path Node;
       if i then Some True
       else do {
         Node \<leftarrow> NextDevicePathNode path Node;
         multi_instance_loop path Node } } }"

definition UefiDevicePathLibIsDevicePathMultiInstance :: "nat \<Rightarrow> dp_ptr \<Rightarrow> bool option" where
  "UefiDevicePathLibIsDevicePathMultiInstance pcd DevicePath =
     (case DevicePath of
        None \<Rightarrow> Some False
      | Some path \<Rightarrow> do {
          v \<leftarrow> IsDevicePathValid pcd DevicePath 0;
          if \<not> v then Some False else multi_instance_loop path 0 })"

text \<open>\<open>FileDevicePath\<close>: the name is its characters, read up to the zero; \<open>device\<close> is what
  \<open>DevicePathFromHandle\<close> returns for the handle, \<^const>\<open>None\<close> also when the handle is \<open>NULL\<close>.\<close>

fun str_bytes :: "UINT16 list \<Rightarrow> UINT8 list option" where
  "str_bytes [] = None"
| "str_bytes (c # cs) =
     (if c = 0 then Some [0, 0]
      else map_option (\<lambda>bs. ucast c # ucast (drop_bit 8 c) # bs) (str_bytes cs))"

definition FileDevicePath ::
    "nat \<Rightarrow> pool_answer \<Rightarrow> pool_answer \<Rightarrow> dp_ptr \<Rightarrow> UINT16 list \<Rightarrow> dp_ptr option" where
  "FileDevicePath pcd temp pool device FileName = do {
     name \<leftarrow> str_bytes FileName;
     let Size = length name;
     case AllocatePool temp (Size + SIZE_OF_FILEPATH_DEVICE_PATH + END_DEVICE_PATH_LENGTH) of
       None \<Rightarrow> Some None
     | Some FilePath \<Rightarrow> do {
         FilePath \<leftarrow> store8 FilePath 0 MEDIA_DEVICE_PATH;
         FilePath \<leftarrow> store8 FilePath 1 MEDIA_FILEPATH_DP;
         FilePath \<leftarrow> CopyMem FilePath 4 name Size;
         FilePath \<leftarrow> SetDevicePathNodeLength FilePath 0 (Size + SIZE_OF_FILEPATH_DEVICE_PATH);
         off \<leftarrow> NextDevicePathNode FilePath 0;
         FilePath \<leftarrow> SetDevicePathEndNode FilePath off;
         AppendDevicePath pcd pool device (Some FilePath) } }"

end
