(* ===== verification/Device_Path_Valid.thy ===== *)
theory Device_Path_Valid
  imports Device_Path_Nodes
begin

text \<open>
  \<open>IsDevicePathValid\<close> against the abstract paths: it accepts exactly the layouts of well-formed paths
  that fit the size and the node count, and never reads outside \<open>MaxSize\<close> bytes.
\<close>

definition dp_fits :: "nat \<Rightarrow> nat \<Rightarrow> dp_node list \<Rightarrow> bool" where
  "dp_fits pcd MaxSize ns \<longleftrightarrow>
     (\<forall>n\<in>set ns. node_ok n) \<and> length (dp_encode ns) \<le> MaxSize \<and> (0 < pcd \<longrightarrow> length ns < pcd)"

section \<open>The loop\<close>

lemma valid_loop_end:
  "valid_loop pcd m (xs @ encode_node end_node @ rest) (length xs) c s = Some True"
  by (subst valid_loop.simps) simp

lemma valid_loop_step:
  assumes "node_ok n" "s + node_length n + 4 \<le> m" "m \<le> MAX_UINTN" "0 < pcd \<longrightarrow> c + 1 < pcd"
  shows "valid_loop pcd m (xs @ encode_node n @ ys) (length xs) c s
    = valid_loop pcd m (xs @ encode_node n @ ys) (length (xs @ encode_node n))
        (if 0 < pcd then c + 1 else c) (s + node_length n)"
  using assms node_length_ge [of n]
  by (subst valid_loop.simps) (auto simp: node_ok_def filepath_unterminated_node split: bool.split)

lemma valid_loop_encode:
  assumes "\<forall>n\<in>set ns. node_ok n" "s + length (dp_encode ns) \<le> m" "m \<le> MAX_UINTN"
    "0 < pcd \<longrightarrow> c + length ns < pcd"
  shows "valid_loop pcd m (xs @ dp_encode ns @ rest) (length xs) c s = Some True"
  using assms(1,2,4)
proof (induction ns arbitrary: xs c s)
  case Nil
  then show ?case using valid_loop_end by (simp add: dp_encode_end)
next
  case (Cons n ns)
  have e: "xs @ dp_encode (n # ns) @ rest = xs @ encode_node n @ dp_encode ns @ rest"
    by (simp add: dp_encode_def)
  have "valid_loop pcd m (xs @ encode_node n @ dp_encode ns @ rest) (length xs) c s
    = valid_loop pcd m ((xs @ encode_node n) @ dp_encode ns @ rest) (length (xs @ encode_node n))
        (if 0 < pcd then c + 1 else c) (s + node_length n)"
    unfolding append_assoc using Cons.prems assms(3)
    by (intro valid_loop_step) (auto simp: length_dp_encode)
  also have "\<dots> = Some True"
    using Cons.prems by (intro Cons.IH) (auto simp: length_dp_encode)
  finally show ?case unfolding e .
qed

text \<open>One iteration read backwards.\<close>

lemma valid_loop_True_cases:
  assumes "valid_loop pcd m path off c s = Some True"
  obtains "IsDevicePathEnd path off = Some True" "DevicePathNodeLength path off = Some 4"
  | k where "IsDevicePathEnd path off = Some False" "DevicePathNodeLength path off = Some k" "4 \<le> k"
      "s + k \<le> m - 4" "0 < pcd \<longrightarrow> c + 1 < pcd" "filepath_unterminated path off k = Some False"
      "valid_loop pcd m path (off + k) (if 0 < pcd then c + 1 else c) (s + k) = Some True"
  using assms
  by (subst (asm) valid_loop.simps) (auto split: option.splits bool.splits if_splits)

lemma valid_loop_bound: "valid_loop pcd m path off c s = Some True \<Longrightarrow> off + 4 \<le> length path"
  by (erule valid_loop_True_cases) (drule DevicePathNodeLength_Some, simp)+

lemma decode_end_node:
  assumes "IsDevicePathEnd path off = Some True" "DevicePathNodeLength path off = Some 4"
  shows "path = take off path @ dp_encode [] @ drop (off + 4) path"
proof -
  have "off + 4 \<le> length path" using DevicePathNodeLength_Some [OF assms(2)] by simp
  then obtain n where n: "path = take off path @ encode_node n @ drop (off + 4) path" "node_length n = 4"
    using decode_node [OF assms(2)] by blast
  have l: "length (take off path) = off" using \<open>off + 4 \<le> length path\<close> by simp
  have "node_end_type n \<and> nsub n = END_ENTIRE_DEVICE_PATH_SUBTYPE"
    using assms(1) n(1) node_tests(2) [of "take off path" n "drop (off + 4) path"] l by simp
  with n(2) have "n = end_node" by (cases n) (simp add: end_node_def node_end_type_def node_length_def)
  with n(1) show ?thesis by (simp add: dp_encode_end)
qed

lemma valid_loop_decode:
  assumes "valid_loop pcd m path off c s = Some True" "m \<le> MAX_UINTN" "s + 4 \<le> m" "0 < pcd \<longrightarrow> c < pcd"
  shows "\<exists>ns rest. path = take off path @ dp_encode ns @ rest \<and> (\<forall>n\<in>set ns. node_ok n)
    \<and> s + length (dp_encode ns) \<le> m \<and> (0 < pcd \<longrightarrow> c + length ns < pcd)"
  using assms
proof (induction pcd m path off c s rule: valid_loop.induct)
  case (1 pcd m path off c s)
  show ?case
  proof (cases rule: valid_loop_True_cases [OF "1.prems"(1)])
    case 1
    from decode_end_node [OF this] show ?thesis
      using \<open>s + 4 \<le> m\<close> \<open>0 < pcd \<longrightarrow> c < pcd\<close>
      by (intro exI [of _ "[]"] exI [of _ "drop (off + 4) path"]) (simp add: length_dp_encode)
  next
    case (2 k)
    note u = valid_loop_bound [OF 2(7)]
    then obtain n where n: "path = take off path @ encode_node n @ drop (off + k) path" "node_length n = k" "k < 0x10000"
      using decode_node [OF 2(2,3)] by (metis add_leD1)
    have l: "length (take off path) = off" using u by simp
    have "node_ok n"
      using 2(1,6) n l node_tests(2) [of "take off path" n "drop (off + k) path"]
        filepath_unterminated_node [of n "take off path" "drop (off + k) path"]
      by (simp add: node_ok_def)
    have b: "k \<le> MAX_UINTN - s" "s + k + 4 \<le> m" using 2(3,4) "1.prems"(2,3) by linarith+
    then obtain ns rest where r: "path = take (off + k) path @ dp_encode ns @ rest" "\<forall>n\<in>set ns. node_ok n"
      "s + k + length (dp_encode ns) \<le> m" "0 < pcd \<longrightarrow> (if 0 < pcd then c + 1 else c) + length ns < pcd"
      using "1.IH" [OF 2(1) refl 2(2) _ _ _ _ 2(6) refl 2(7)] 2(3-5) "1.prems" by (auto simp: not_less)
    have "take (off + k) path = take off path @ encode_node n"
      using arg_cong [OF n(1), of "take (off + k)"] l n(2) by simp
    with r \<open>node_ok n\<close> show ?thesis
      by (intro exI [of _ "n # ns"] exI [of _ rest]) (auto simp: dp_encode_def n(2))
  qed
qed

text \<open>The size the loop has counted and four bytes more are inside the buffer whenever a node is read.\<close>

lemma valid_loop_safe:
  assumes "s + 4 \<le> m" "m \<le> MAX_UINTN" "off + (m - s) \<le> length path"
  shows "valid_loop pcd m path off c s \<noteq> None"
  using assms
proof (induction pcd m path off c s rule: valid_loop.induct)
  case (1 pcd m path off c s)
  have r: "i < 4 \<Longrightarrow> load8 path (off + i) \<noteq> None" for i
    using "1.prems" by (simp add: load8_def)
  have "IsDevicePathEnd path off \<noteq> None"
    using r [of 0] r [of 1] by (auto simp: IsDevicePathEnd_def IsDevicePathEndType_def DevicePathType_def
        DevicePathSubType_def)
  moreover have "DevicePathNodeLength path off \<noteq> None"
    using r [of 2] r [of 3] by (auto simp: DevicePathNodeLength_def ReadUnaligned16_def numeral_3_eq_3)
  ultimately obtain e k where ek: "IsDevicePathEnd path off = Some e" "DevicePathNodeLength path off = Some k"
    by blast
  show ?case
  proof (cases "e \<or> k < 4 \<or> MAX_UINTN - s < k \<or> m - 4 < s + k \<or> 0 < pcd \<and> pcd \<le> c + 1")
    case True
    then show ?thesis using ek by (subst valid_loop.simps) (auto split: bool.split)
  next
    case False
    then have f: "\<not> e" "\<not> k < 4" "\<not> MAX_UINTN - s < k" "\<not> m - END_DEVICE_PATH_LENGTH < s + k" "\<not> (0 < pcd \<and> pcd \<le> c + 1)"
      by simp_all
    have "filepath_unterminated path off k \<noteq> None"
      using r [of 0] r [of 1] f "1.prems"
      by (auto simp: filepath_unterminated_def DevicePathType_def DevicePathSubType_def
          ReadUnaligned16_def load8_def)
    then obtain b where b: "filepath_unterminated path off k = Some b" by blast
    have "valid_loop pcd m path (off + k) (if 0 < pcd then c + 1 else c) (s + k) \<noteq> None" if "\<not> b"
      using that "1.prems" f ek b
      by (intro "1.IH" [OF ek(1) _ ek(2) f(2-5) b]) auto
    then show ?thesis using ek b f by (subst valid_loop.simps) (auto split: bool.split)
  qed
qed

section \<open>The routine\<close>

definition max_size :: "nat \<Rightarrow> nat" where
  "max_size MaxSize = (if MaxSize = 0 then MAX_UINTN else MaxSize)"

lemma IsDevicePathValid_iff:
  assumes "MaxSize \<le> MAX_UINTN"
  shows "IsDevicePathValid pcd (Some path) MaxSize = Some True \<longleftrightarrow>
    (\<exists>ns rest. path = dp_encode ns @ rest \<and> dp_fits pcd (max_size MaxSize) ns)"
    (is "?l \<longleftrightarrow> ?r")
proof (cases "0 < MaxSize \<and> MaxSize < 4")
  case True
  then show ?thesis by (simp add: IsDevicePathValid_def dp_fits_def max_size_def length_dp_encode)
next
  case False
  then have m: "4 \<le> max_size MaxSize" "max_size MaxSize \<le> MAX_UINTN"
    using assms by (auto simp: max_size_def MAX_UINTN_def)
  have l: "?l \<longleftrightarrow> valid_loop pcd (max_size MaxSize) path 0 0 0 = Some True"
    using False by (auto simp: IsDevicePathValid_def max_size_def)
  show ?thesis
  proof
    assume ?l
    with valid_loop_decode [of pcd "max_size MaxSize" path 0 0 0] m show ?r
      by (auto simp: l dp_fits_def)
  next
    assume ?r
    then show ?l using valid_loop_encode [of _ 0 "max_size MaxSize" pcd 0 "[]"] m
      by (auto simp: l dp_fits_def)
  qed
qed

lemma IsDevicePathValid_encode:
  "dp_fits pcd MAX_UINTN ns \<Longrightarrow> IsDevicePathValid pcd (Some (dp_encode ns @ rest)) 0 = Some True"
  using IsDevicePathValid_iff [of 0 pcd "dp_encode ns @ rest"] by (auto simp: max_size_def)

lemma IsDevicePathValid_bounded:
  assumes "0 < MaxSize" "MaxSize \<le> MAX_UINTN" "MaxSize \<le> length path"
  shows "\<exists>b. IsDevicePathValid pcd (Some path) MaxSize = Some b"
  using assms valid_loop_safe [of 0 MaxSize 0 path pcd 0] by (auto simp: IsDevicePathValid_def)

text \<open>A layout determines its nodes.\<close>

lemma encode_node_inj:
  assumes "encode_node n @ xs = encode_node m @ ys" "node_length n < 0x10000" "node_length m < 0x10000"
  shows "n = m" "xs = ys"
proof -
  have "node_length n = node_length m"
    using node_reads_length(1) [of n "[]" xs] node_reads_length(1) [of m "[]" ys] assms by simp
  with assms(1) have "encode_node n = encode_node m" "xs = ys" by simp_all
  then show "n = m" "xs = ys" by (simp_all add: encode_node_def dp_node.equality)
qed

lemma dp_encode_inj:
  assumes "dp_encode ns @ xs = dp_encode ms @ ys" "\<forall>n\<in>set ns. node_ok n" "\<forall>n\<in>set ms. node_ok n"
  shows "ns = ms"
  using assms
proof (induction ns arbitrary: ms)
  case Nil
  show ?case
  proof (cases ms)
    case (Cons m ms')
    then have "encode_node end_node @ xs = encode_node m @ encode_nodes ms' @ encode_node end_node @ ys"
      using Nil.prems(1) by (simp add: dp_encode_end)
    then have "end_node = m" using Nil.prems(3) Cons by (intro encode_node_inj(1)) (auto simp: node_ok_def)
    then show ?thesis using Nil.prems(3) Cons by (auto simp: node_ok_def)
  qed simp
next
  case (Cons n ns)
  show ?case
  proof (cases ms)
    case Nil
    then have "encode_node n @ encode_nodes ns @ encode_node end_node @ xs = encode_node end_node @ ys"
      using Cons.prems(1) by (simp add: dp_encode_end)
    then have "n = end_node" using Cons.prems(2) by (intro encode_node_inj(1)) (auto simp: node_ok_def)
    then show ?thesis using Cons.prems(2) by (auto simp: node_ok_def)
  next
    case (Cons m ms')
    then have "encode_node n @ dp_encode ns @ xs = encode_node m @ dp_encode ms' @ ys"
      using Cons.prems(1) by (simp add: dp_encode_def)
    then have "n = m" "dp_encode ns @ xs = dp_encode ms' @ ys"
      using Cons.prems(2,3) Cons by (auto simp: node_ok_def dest: encode_node_inj)
    then show ?thesis using Cons Cons.IH Cons.prems(2,3) by simp
  qed
qed

end
