(* ===== verification/Device_Path_Properties.thy ===== *)
theory Device_Path_Properties
  imports Device_Path_Valid
begin

text \<open>
  What the routines that size, copy, join and split device paths compute on the abstract paths, and
  the properties of the library.
\<close>

section \<open>Memory\<close>

lemma AllocatePool_Some [simp]: "AllocatePool (Some g) n = Some (map g [0..<n])"
  by (simp add: AllocatePool_def)

lemma AllocatePool_None [simp]: "AllocatePool None n = None"
  by (simp add: AllocatePool_def)

lemma CopyMem_whole [simp]: "length buf = n \<Longrightarrow> n \<le> length src \<Longrightarrow> CopyMem buf 0 src n = Some (take n src)"
  by (simp add: CopyMem_def)

lemma CopyMem_mid:
  assumes "length xs = off" "n \<le> length ys" "n \<le> length src"
  shows "CopyMem (xs @ ys) off src n = Some (xs @ take n src @ drop n ys)"
  using assms by (simp add: CopyMem_def)

text \<open>Two copies fill a buffer the second of which overwrites the end of the first.\<close>

lemma CopyMem_twice:
  assumes "length buf = off + n" "off \<le> k" "k \<le> off + n" "k \<le> length a" "n \<le> length b"
  shows "do {buf \<leftarrow> CopyMem buf 0 a k; buf \<leftarrow> CopyMem buf off b n; Some (Some buf)}
    = Some (Some (take off a @ take n b))"
  using assms by (simp add: CopyMem_def take_map min_absorb1)

lemma store8_subtype:
  "store8 (xs @ encode_node n @ ys) (Suc (length xs)) v = Some (xs @ encode_node (n\<lparr>nsub := v\<rparr>) @ ys)"
  by (simp add: store8_def encode_node_def node_length_def list_update_append)

lemma load8_subtype: "load8 (xs @ encode_node n @ ys) (Suc (length xs)) = Some (nsub n)"
  using node_reads(2) [of xs n ys] by (simp add: DevicePathSubType_def)

section \<open>Size and copy\<close>

lemma dp_fits_nodes: "dp_fits pcd m ns \<Longrightarrow> \<forall>n\<in>set ns. node_ok n"
  by (simp add: dp_fits_def)

lemma dp_fits_length: "dp_fits pcd MAX_UINTN ns \<Longrightarrow> length (encode_nodes ns) + 4 < 2 ^ 64"
  unfolding dp_fits_def length_dp_encode MAX_UINTN_def by simp

lemma GetDevicePathSize_encode:
  assumes "dp_fits pcd MAX_UINTN ns"
  shows "GetDevicePathSize pcd (Some (dp_encode ns @ rest)) = Some (length (encode_nodes ns) + 4)"
proof -
  have "uintn (length (encode_nodes ns) + 4) = length (encode_nodes ns) + 4"
    unfolding uintn_def using dp_fits_length [OF assms] by (rule mod_less)
  then show ?thesis
    using IsDevicePathValid_encode [OF assms, of rest] dp_seek_end [OF dp_fits_nodes [OF assms], of rest]
    by (simp add: GetDevicePathSize_def UefiDevicePathLibGetDevicePathSize_def end_node_length)
qed

lemma DuplicateDevicePath_encode:
  assumes "dp_fits pcd MAX_UINTN ns"
  shows "DuplicateDevicePath pcd pool (Some (dp_encode ns @ rest)) =
    Some (map_option (\<lambda>_. dp_encode ns) pool)"
  using assms
  by (cases pool) (simp_all add: DuplicateDevicePath_def UefiDevicePathLibDuplicateDevicePath_def
      GetDevicePathSize_encode AllocateCopyPool_def length_dp_encode)

lemma DuplicateDevicePath_end:
  "DuplicateDevicePath pcd pool (Some mUefiDevicePathLibEndDevicePath) =
    Some (map_option (\<lambda>_. dp_encode []) pool)"
  using DuplicateDevicePath_encode [of pcd "[]" pool "[]"]
  by (simp add: dp_encode_def dp_fits_def MAX_UINTN_def)

section \<open>Joining\<close>

lemma AppendDevicePath_encode:
  assumes "dp_fits pcd MAX_UINTN a" "dp_fits pcd MAX_UINTN b" "length (dp_encode (a @ b)) < 2 ^ 64"
  shows "AppendDevicePath pcd pool (Some (dp_encode a @ r)) (Some (dp_encode b @ r'))
    = Some (map_option (\<lambda>_. dp_encode (a @ b)) pool)"
proof (cases pool)
  case (Some g)
  let ?a = "length (encode_nodes a)" and ?b = "length (encode_nodes b)"
  have u: "uintn (?a + 4 + ?b) = ?a + (?b + 4)"
    using assms(3) by (simp add: uintn_def length_dp_encode)
  show ?thesis
    using CopyMem_twice [of "map g [0..<?a + (?b + 4)]" ?a "?b + 4" "?a + 4" "dp_encode a @ r" "dp_encode b @ r'"]
      IsDevicePathValid_encode [OF assms(1), of r] IsDevicePathValid_encode [OF assms(2), of r'] Some u
    by (simp add: AppendDevicePath_def UefiDevicePathLibAppendDevicePath_def
        GetDevicePathSize_encode assms(1,2) length_dp_encode)
      (simp add: dp_encode_def)
qed (use assms IsDevicePathValid_encode in
    \<open>simp add: AppendDevicePath_def UefiDevicePathLibAppendDevicePath_def GetDevicePathSize_encode\<close>)

lemma AppendDevicePathNode_encode:
  assumes "dp_fits pcd MAX_UINTN a" "dp_fits pcd MAX_UINTN [n]" "length (dp_encode (a @ [n])) < 2 ^ 64"
  shows "UefiDevicePathLibAppendDevicePathNode pcd (Some g) pool (Some (dp_encode a @ r)) (Some (encode_node n @ r'))
    = Some (map_option (\<lambda>_. dp_encode (a @ [n])) pool)"
proof -
  have l: "node_length n < 0x10000" using assms(2) by (simp add: dp_fits_def node_ok_def)
  have nl: "DevicePathNodeLength (encode_node n @ r') 0 = Some (node_length n)"
    using node_reads_length(1) [OF l, of "[]" r'] by simp
  let ?buf = "map g [0..<node_length n + 4]"
  have c: "CopyMem ?buf 0 (encode_node n @ r') (node_length n) = Some (encode_node n @ drop (node_length n) ?buf)"
    by (simp add: CopyMem_def)
  have nx: "NextDevicePathNode (encode_node n @ drop (node_length n) ?buf) 0 = Some (node_length n)"
    using node_reads_length(2) [OF l, of "[]" "drop (node_length n) ?buf"] by simp
  have e: "SetDevicePathEndNode (encode_node n @ drop (node_length n) ?buf) (node_length n) = Some (dp_encode [n] @ [])"
    by (simp add: SetDevicePathEndNode_def CopyMem_def dp_encode_def)
  show ?thesis
    unfolding UefiDevicePathLibAppendDevicePathNode_def
    using AppendDevicePath_encode [OF assms(1,2), of pool r "[]"] assms(3) nl c nx e
    by (simp add: length_dp_encode)
qed

definition end_instance :: dp_node where
  "end_instance = \<lparr>ntype = END_DEVICE_PATH_TYPE, nsub = END_INSTANCE_DEVICE_PATH_SUBTYPE, ndata = []\<rparr>"

lemma end_instance_simps [simp]:
  "node_length end_instance = 4" "node_end_type end_instance" "nsub end_instance = END_INSTANCE_DEVICE_PATH_SUBTYPE"
  "node_ok end_instance" "end_node\<lparr>nsub := END_INSTANCE_DEVICE_PATH_SUBTYPE\<rparr> = end_instance"
  by (simp_all add: end_instance_def end_node_def node_length_def node_end_type_def node_ok_def node_terminated_def dp_consts)

lemma AppendDevicePathInstance_encode:
  assumes "dp_fits pcd MAX_UINTN a" "dp_fits pcd MAX_UINTN b" "length (dp_encode (a @ end_instance # b)) < 2 ^ 64"
  shows "UefiDevicePathLibAppendDevicePathInstance pcd pool (Some (dp_encode a @ r)) (Some (dp_encode b @ r'))
    = Some (map_option (\<lambda>_. dp_encode (a @ end_instance # b)) pool)"
proof (cases pool)
  case None
  then show ?thesis using assms IsDevicePathValid_encode
    by (simp add: UefiDevicePathLibAppendDevicePathInstance_def GetDevicePathSize_encode)
next
  case (Some g)
  let ?a = "length (encode_nodes a)" and ?b = "length (encode_nodes b)"
  have u: "uintn (?a + 4 + (?b + 4)) = ?a + 4 + (?b + 4)"
    using assms(3) by (simp add: uintn_def length_dp_encode)
  define t where "t = drop (?a + 4) (map g [0..<?a + 4 + (?b + 4)])"
  have t: "length t = ?b + 4" by (simp add: t_def)
  have c: "CopyMem (map g [0..<?a + 4 + (?b + 4)]) 0 (dp_encode a @ r) (?a + 4) = Some (dp_encode a @ t)"
    unfolding CopyMem_def t_def by (simp add: length_dp_encode)
  have s: "store8 (dp_encode a @ t) (?a + 1) END_INSTANCE_DEVICE_PATH_SUBTYPE
      = Some (encode_nodes a @ encode_node end_instance @ t)"
    using store8_subtype [of "encode_nodes a" end_node t END_INSTANCE_DEVICE_PATH_SUBTYPE]
    by (simp add: dp_encode_end)
  have n: "NextDevicePathNode (encode_nodes a @ encode_node end_instance @ t) ?a = Some (?a + 4)"
    using node_reads_length(2) [of end_instance "encode_nodes a" t] by simp
  have c2: "CopyMem (encode_nodes a @ encode_node end_instance @ t) (?a + 4) (dp_encode b @ r') (?b + 4)
      = Some (dp_encode (a @ end_instance # b))"
    using CopyMem_mid [of "encode_nodes a @ encode_node end_instance" "?a + 4" "?b + 4" t "dp_encode b @ r'"] t
    by (simp add: dp_encode_def)
  have v: "IsDevicePathValid pcd (Some (dp_encode a @ r)) 0 = Some True"
    "IsDevicePathValid pcd (Some (dp_encode b @ r')) 0 = Some True"
    using IsDevicePathValid_encode assms(1,2) by blast+
  show ?thesis
    unfolding UefiDevicePathLibAppendDevicePathInstance_def option.case v bind.bind_lunit if_True not_True_eq_False
      if_False GetDevicePathSize_encode [OF assms(1)] GetDevicePathSize_encode [OF assms(2)] Some u
      AllocatePool_Some c dp_seek_end [OF dp_fits_nodes [OF assms(1)]] s n c2
    by simp
qed

section \<open>Splitting\<close>

lemma dp_seek_end_type:
  assumes "\<forall>n\<in>set a. node_ok n \<and> \<not> node_end_type n" "node_end_type e"
  shows "dp_seek IsDevicePathEndType (encode_nodes a @ encode_node e @ ys) 0 = Some (length (encode_nodes a))"
  using dp_seek_nodes [of a IsDevicePathEndType e "[]" ys] assms by simp

lemma dp_fits_prefix: "dp_fits pcd m (a @ b) \<Longrightarrow> dp_fits pcd m a"
  by (auto simp: dp_fits_def length_dp_encode)

lemma GetNextDevicePathInstance_encode:
  assumes "dp_fits pcd MAX_UINTN (a @ end_instance # b)" "\<forall>n\<in>set a. \<not> node_end_type n"
  shows "UefiDevicePathLibGetNextDevicePathInstance pcd pool (Some (dp_encode (a @ end_instance # b) @ r)) =
    Some (map_option (\<lambda>_. dp_encode a) pool, Some (dp_encode b @ r), Some (length (dp_encode a)))"
proof -
  let ?a = "length (encode_nodes a)"
  let ?p = "encode_nodes a @ encode_node end_instance @ dp_encode b @ r"
  have e: "dp_encode (a @ end_instance # b) @ r = ?p" by (simp add: dp_encode_def)
  have fa: "dp_fits pcd MAX_UINTN a" by (rule dp_fits_prefix [OF assms(1)])
  have u: "uintn (?a + 4) = ?a + 4" unfolding uintn_def using dp_fits_length [OF fa] by (rule mod_less)
  have v: "IsDevicePathValid pcd (Some ?p) 0 = Some True"
    using IsDevicePathValid_encode [OF assms(1), of r] by (simp add: e)
  have k: "dp_seek IsDevicePathEndType ?p 0 = Some ?a"
    using assms by (intro dp_seek_end_type) (auto simp: dp_fits_def)
  have s: "store8 ?p (?a + 1) END_ENTIRE_DEVICE_PATH_SUBTYPE = Some (dp_encode a @ dp_encode b @ r)"
    using store8_subtype [of "encode_nodes a" end_instance "dp_encode b @ r" END_ENTIRE_DEVICE_PATH_SUBTYPE]
    by (simp add: dp_encode_end end_node_def end_instance_def)
  have s2: "store8 (dp_encode a @ dp_encode b @ r) (?a + 1) END_INSTANCE_DEVICE_PATH_SUBTYPE = Some ?p"
    using store8_subtype [of "encode_nodes a" end_node "dp_encode b @ r" END_INSTANCE_DEVICE_PATH_SUBTYPE]
    by (simp add: dp_encode_end)
  have l: "load8 ?p (?a + 1) = Some END_INSTANCE_DEVICE_PATH_SUBTYPE" "DevicePathSubType ?p ?a = Some END_INSTANCE_DEVICE_PATH_SUBTYPE"
    using load8_subtype [of "encode_nodes a" end_instance] by simp_all
  have n: "NextDevicePathNode ?p ?a = Some (?a + 4)"
    using node_reads_length(2) [of end_instance "encode_nodes a" "dp_encode b @ r"] by simp
  have d: "drop (?a + 4) ?p = dp_encode b @ r" by simp
  have ne: "END_INSTANCE_DEVICE_PATH_SUBTYPE \<noteq> END_ENTIRE_DEVICE_PATH_SUBTYPE" by (simp add: dp_consts)
  show ?thesis
    unfolding e UefiDevicePathLibGetNextDevicePathInstance_def option.case v k l s s2 n d u
      DuplicateDevicePath_encode [OF fa] bind.bind_lunit
    using ne by (simp add: length_dp_encode)
qed

lemma GetNextDevicePathInstance_last:
  assumes "dp_fits pcd MAX_UINTN a" "\<forall>n\<in>set a. \<not> node_end_type n"
  shows "UefiDevicePathLibGetNextDevicePathInstance pcd pool (Some (dp_encode a @ r)) =
    Some (map_option (\<lambda>_. dp_encode a) pool, None, Some (length (dp_encode a)))"
proof -
  let ?a = "length (encode_nodes a)"
  let ?p = "dp_encode a @ r"
  have u: "uintn (?a + 4) = ?a + 4" unfolding uintn_def using dp_fits_length [OF assms(1)] by (rule mod_less)
  have k: "dp_seek IsDevicePathEndType ?p 0 = Some ?a"
    using assms dp_seek_end_type [of a end_node r] by (auto simp: dp_fits_def dp_encode_end)
  have s: "store8 ?p (?a + 1) END_ENTIRE_DEVICE_PATH_SUBTYPE = Some ?p"
    using store8_subtype [of "encode_nodes a" end_node r END_ENTIRE_DEVICE_PATH_SUBTYPE]
    by (simp add: dp_encode_end end_node_def)
  have l: "load8 ?p (?a + 1) = Some END_ENTIRE_DEVICE_PATH_SUBTYPE" "DevicePathSubType ?p ?a = Some END_ENTIRE_DEVICE_PATH_SUBTYPE"
    using load8_subtype [of "encode_nodes a" end_node] node_reads(2) [of "encode_nodes a" end_node]
    by (simp_all add: dp_encode_end)
  show ?thesis
    unfolding UefiDevicePathLibGetNextDevicePathInstance_def option.case IsDevicePathValid_encode [OF assms(1)] k l s u
      DuplicateDevicePath_encode [OF assms(1)] bind.bind_lunit
    by (simp add: length_dp_encode)
qed


lemma MultiInstance_encode:
  assumes "dp_fits pcd MAX_UINTN ns"
  shows "UefiDevicePathLibIsDevicePathMultiInstance pcd (Some (dp_encode ns @ r)) =
    Some (\<exists>n\<in>set ns. node_end_type n \<and> nsub n = END_INSTANCE_DEVICE_PATH_SUBTYPE)"
  using IsDevicePathValid_encode [OF assms, of r] multi_instance_nodes [OF dp_fits_nodes [OF assms], of "[]" r]
  by (simp add: UefiDevicePathLibIsDevicePathMultiInstance_def)

text \<open>An end node whose length is not four stops the validation.\<close>

lemma valid_loop_long_end:
  assumes "\<forall>n\<in>set a. node_ok n" "s + length (encode_nodes a) + 4 \<le> m" "m \<le> MAX_UINTN"
    "0 < pcd \<longrightarrow> c + length a < pcd"
    "node_end_type e" "nsub e = END_ENTIRE_DEVICE_PATH_SUBTYPE" "node_length e < 0x10000" "ndata e \<noteq> []"
  shows "valid_loop pcd m (xs @ encode_nodes a @ encode_node e @ ys) (length xs) c s = Some False"
  using assms(1,2,4)
proof (induction a arbitrary: xs c s)
  case Nil
  then show ?case using assms(5-8) by (subst valid_loop.simps) (simp add: node_length_def)
next
  case (Cons n a)
  have "valid_loop pcd m (xs @ encode_node n @ encode_nodes a @ encode_node e @ ys) (length xs) c s
    = valid_loop pcd m ((xs @ encode_node n) @ encode_nodes a @ encode_node e @ ys) (length (xs @ encode_node n))
        (if 0 < pcd then c + 1 else c) (s + node_length n)"
    unfolding append_assoc using Cons.prems assms(3) by (intro valid_loop_step) auto
  also have "\<dots> = Some False" using Cons.prems by (intro Cons.IH) auto
  finally show ?case by simp
qed

lemma GetNextDevicePathInstance_long_end:
  assumes "dp_fits pcd MAX_UINTN (a @ e # b)" "\<forall>n\<in>set a. \<not> node_end_type n"
    "node_end_type e" "ndata e \<noteq> []"
  shows "UefiDevicePathLibGetNextDevicePathInstance pcd pool (Some (dp_encode (a @ e # b) @ r)) =
    Some (None, Some (dp_encode b @ r), Some (length (dp_encode a)))"
proof -
  let ?a = "length (encode_nodes a)"
  let ?e = "e\<lparr>nsub := END_ENTIRE_DEVICE_PATH_SUBTYPE\<rparr>"
  let ?p = "encode_nodes a @ encode_node e @ dp_encode b @ r"
  let ?q = "encode_nodes a @ encode_node ?e @ dp_encode b @ r"
  have e: "dp_encode (a @ e # b) @ r = ?p" by (simp add: dp_encode_def)
  have fa: "dp_fits pcd MAX_UINTN a" by (rule dp_fits_prefix [OF assms(1)])
  have ok: "node_ok e" "node_length e < 0x10000" using assms(1) by (auto simp: dp_fits_def node_ok_def)
  have l: "node_length ?e = node_length e" by (simp add: node_length_def)
  have u: "uintn (?a + 4) = ?a + 4" unfolding uintn_def using dp_fits_length [OF fa] by (rule mod_less)
  have v: "IsDevicePathValid pcd (Some ?p) 0 = Some True"
    using IsDevicePathValid_encode [OF assms(1), of r] by (simp add: e)
  have "valid_loop pcd MAX_UINTN ?q 0 0 0 = Some False"
    using fa assms(3,4) ok l valid_loop_long_end [of a 0 MAX_UINTN pcd 0 ?e "[]" "dp_encode b @ r"]
    by (auto simp: dp_fits_def length_dp_encode node_end_type_def)
  then have d: "DuplicateDevicePath pcd pool (Some ?q) = Some None"
    by (simp add: DuplicateDevicePath_def UefiDevicePathLibDuplicateDevicePath_def GetDevicePathSize_def
        UefiDevicePathLibGetDevicePathSize_def IsDevicePathValid_def)
  have k: "dp_seek IsDevicePathEndType ?p 0 = Some ?a"
    using assms by (intro dp_seek_end_type) (auto simp: dp_fits_def)
  have s: "store8 ?p (?a + 1) END_ENTIRE_DEVICE_PATH_SUBTYPE = Some ?q" "store8 ?q (?a + 1) (nsub e) = Some ?p"
    using store8_subtype [of "encode_nodes a" e] store8_subtype [of "encode_nodes a" ?e "dp_encode b @ r" "nsub e"]
    by simp_all
  have ld: "load8 ?p (?a + 1) = Some (nsub e)" using load8_subtype [of "encode_nodes a" e] by simp
  have n: "NextDevicePathNode ?p ?a = Some (?a + node_length e)"
    using node_reads_length(2) [OF ok(2), of "encode_nodes a" "dp_encode b @ r"] by simp
  have dr: "drop (?a + node_length e) ?p = dp_encode b @ r" by simp
  have ne: "nsub e \<noteq> END_ENTIRE_DEVICE_PATH_SUBTYPE" using ok(1) assms(3) by (simp add: node_ok_def)
  show ?thesis
    unfolding e UefiDevicePathLibGetNextDevicePathInstance_def option.case v k ld s d n dr u node_reads bind.bind_lunit
    using ne by (simp add: length_dp_encode)
qed

section \<open>Building nodes\<close>

lemma SetDevicePathNodeLength_header:
  assumes "4 \<le> len" "len < 0x10000"
  shows "SetDevicePathNodeLength ([a, b, c, d] @ t) 0 len = Some ([a, b, of_nat len, of_nat (len div 256)] @ t)"
  unfolding SetDevicePathNodeLength_def WriteUnaligned16_def store8_def using assms by (simp add: numeral_2_eq_2)

lemma list_header: "4 \<le> length xs \<Longrightarrow> \<exists>a b c d t. xs = [a, b, c, d] @ t"
  by (auto simp: numeral_eq_Suc Suc_le_length_iff)

lemma CreateDeviceNode_encode:
  assumes "4 \<le> unat len"
  shows "UefiDevicePathLibCreateDeviceNode (Some g) t s len =
    Some (Some (encode_node \<lparr>ntype = t, nsub = s, ndata = replicate (unat len - 4) 0\<rparr>))"
proof -
  obtain k where k: "unat len = 4 + k" using assms le_Suc_ex by blast
  have z: "replicate (4 + k) (0 :: UINT8) = [0, 0, 0, 0] @ replicate k 0" by (simp add: numeral_eq_Suc)
  have s8: "store8 ([0, 0, 0, 0] @ replicate k 0) 0 t = Some ([t, 0, 0, 0] @ replicate k 0)"
    "store8 ([t, 0, 0, 0] @ replicate k 0) 1 s = Some ([t, s, 0, 0] @ replicate k 0)"
    by (simp_all add: store8_def)
  have "unat len < 0x10000" using unsigned_less [of len] by simp
  with k have l: "SetDevicePathNodeLength ([t, s, 0, 0] @ replicate k 0) 0 (4 + k)
      = Some ([t, s, of_nat (4 + k), of_nat ((4 + k) div 256)] @ replicate k 0)"
    by (intro SetDevicePathNodeLength_header) simp_all
  show ?thesis
    unfolding UefiDevicePathLibCreateDeviceNode_def AllocateZeroPool_def k option.map option.case z s8 l bind.bind_lunit
      encode_node_def node_length_def
    by simp
qed

definition file_node :: "UINT8 list \<Rightarrow> dp_node" where
  "file_node name = \<lparr>ntype = MEDIA_DEVICE_PATH, nsub = MEDIA_FILEPATH_DP, ndata = name\<rparr>"

lemma str_bytes_terminated: "str_bytes cs = Some bs \<Longrightarrow> \<exists>b. bs = b @ [0, 0]"
proof (induction cs arbitrary: bs)
  case (Cons c cs)
  then show ?case
  proof (cases "c = 0")
    case False
    with Cons.prems obtain b where "str_bytes cs = Some b" "bs = ucast c # ucast (drop_bit 8 c) # b" by auto
    with Cons.IH show ?thesis by (metis append_Cons)
  qed simp
qed simp

lemma file_node_ok:
  assumes "str_bytes cs = Some bs" "length bs + 4 < 0x10000"
  shows "node_ok (file_node bs)"
proof -
  obtain b where b: "bs = b @ [0, 0]" using str_bytes_terminated [OF assms(1)] by blast
  let ?n = "node_length (file_node bs)"
  let ?h = "[MEDIA_DEVICE_PATH, MEDIA_FILEPATH_DP, of_nat ?n, of_nat (?n div 256)] @ b"
  have "encode_node (file_node bs) = ?h @ [0, 0]" "?n - 2 = length ?h" "?n < 0x10000"
    using assms(2) by (simp_all add: file_node_def encode_node_def node_length_def b)
  then have "drop (?n - 2) (encode_node (file_node bs)) = [0, 0]" by (metis append_eq_conv_conj)
  with \<open>?n < 0x10000\<close> show ?thesis
    by (simp add: node_ok_def node_terminated_def node_end_type_def) (simp add: file_node_def dp_consts)
qed

lemma FileDevicePath_encode:
  assumes "str_bytes name = Some bs" "length bs + 4 < 0x10000" "dp_fits pcd MAX_UINTN a" "pcd = 0 \<or> 1 < pcd"
    "length (dp_encode (a @ [file_node bs])) < 2 ^ 64"
  shows "FileDevicePath pcd (Some g) pool (Some (dp_encode a @ r)) name
    = Some (map_option (\<lambda>_. dp_encode (a @ [file_node bs])) pool)"
proof -
  let ?k = "length bs"
  have f: "dp_fits pcd MAX_UINTN [file_node bs]"
    using file_node_ok [OF assms(1,2)] assms(2,4)
    by (auto simp: dp_fits_def length_dp_encode node_length_def file_node_def MAX_UINTN_def)
  obtain b0 b1 b2 b3 t where t: "map g [0..<?k + 4 + 4] = [b0, b1, b2, b3] @ t"
    using list_header [of "map g [0..<?k + 4 + 4]"] by auto
  then have t2: "length t = ?k + 4" using arg_cong [OF t, of length] unfolding length_map length_upt by simp
  let ?h = "[MEDIA_DEVICE_PATH, MEDIA_FILEPATH_DP, b2, b3]"
  have c: "CopyMem (?h @ t) 4 bs ?k = Some (?h @ bs @ drop ?k t)"
    using CopyMem_mid [of ?h 4 ?k t bs] t2 by simp
  have l: "SetDevicePathNodeLength (?h @ bs @ drop ?k t) 0 (?k + 4) = Some (encode_node (file_node bs) @ drop ?k t)"
    using assms(2) SetDevicePathNodeLength_header [of "?k + 4"]
    by (simp add: encode_node_def file_node_def node_length_def add.commute)
  have k: "node_length (file_node bs) = ?k + 4" by (simp add: node_length_def file_node_def)
  have n: "NextDevicePathNode (encode_node (file_node bs) @ drop ?k t) 0 = Some (?k + 4)"
    using node_reads_length(2) [of "file_node bs" "[]" "drop ?k t"] assms(2) k by simp
  have e: "SetDevicePathEndNode (encode_node (file_node bs) @ drop ?k t) (?k + 4) = Some (dp_encode [file_node bs] @ [])"
    using t2 k by (simp add: SetDevicePathEndNode_def CopyMem_def dp_encode_def)
  have s: "store8 ([b0, b1, b2, b3] @ t) 0 MEDIA_DEVICE_PATH = Some ([MEDIA_DEVICE_PATH, b1, b2, b3] @ t)"
    "store8 ([MEDIA_DEVICE_PATH, b1, b2, b3] @ t) 1 MEDIA_FILEPATH_DP = Some (?h @ t)"
    by (simp_all add: store8_def)
  show ?thesis
    unfolding FileDevicePath_def assms(1) bind.bind_lunit Let_def end_length AllocatePool_Some option.case t s c l n e
    by (rule AppendDevicePath_encode [OF assms(3) f assms(5)])
qed

lemma starts_with: "(\<exists>r. xs = e @ r) \<longleftrightarrow> take (length e) xs = e"
  by (metis append_eq_conv_conj append_take_drop_id)

section \<open>Properties\<close>

text \<open>(C22) \<open>IsDevicePathValid\<close> decides well-formedness: it accepts a buffer exactly when it starts with
  the layout of a list of nodes, each shorter than 64 KB, none of them an end-entire node, every file
  path node zero terminated, closed by an end node of length four, within \<open>MaxSize\<close> bytes (any size
  when \<open>MaxSize\<close> is zero) and below the node count of the platform; and the list is unique.\<close>

theorem IsDevicePathValid_decides:
  assumes "MaxSize \<le> MAX_UINTN"
  shows "IsDevicePathValid pcd (Some path) MaxSize = Some True \<longleftrightarrow>
    (\<exists>!ns. dp_fits pcd (max_size MaxSize) ns \<and> (\<exists>rest. path = dp_encode ns @ rest))"
proof -
  have "(\<exists>!ns. dp_fits pcd (max_size MaxSize) ns \<and> (\<exists>rest. path = dp_encode ns @ rest)) \<longleftrightarrow>
    (\<exists>ns rest. path = dp_encode ns @ rest \<and> dp_fits pcd (max_size MaxSize) ns)"
    by (metis dp_encode_inj dp_fits_nodes)
  then show ?thesis using IsDevicePathValid_iff [OF assms] by simp
qed

definition sample_node :: dp_node where
  "sample_node = \<lparr>ntype = 1, nsub = 1, ndata = [5, 7]\<rparr>"

lemma sample_node_fits: "m \<ge> 10 \<Longrightarrow> dp_fits 0 m [sample_node]"
  by (simp add: sample_node_def dp_fits_def length_dp_encode node_length_def node_ok_def node_end_type_def
      node_terminated_def dp_consts)

lemma sample_node_bytes: "dp_encode [sample_node] = [1, 1, 6, 0, 5, 7, 0x7f, 0xff, 4, 0]"
  by (simp add: sample_node_def dp_encode_def encode_node_def node_length_def
      mUefiDevicePathLibEndDevicePath_def dp_consts)

theorem IsDevicePathValid_decides_witness:
  "(\<exists>!ns. dp_fits 0 12 ns \<and> (\<exists>rest. [1, 1, 6, 0, 5, 7, 0x7f, 0xff, 4, 0, 3, 3] = dp_encode ns @ rest))"
proof -
  have "IsDevicePathValid 0 (Some (dp_encode [sample_node] @ [3, 3])) 12 = Some True"
    using IsDevicePathValid_iff [of 12 0] sample_node_fits [of 12] by (auto simp: max_size_def MAX_UINTN_def)
  then show ?thesis
    using IsDevicePathValid_decides [of 12 0 "[1, 1, 6, 0, 5, 7, 0x7f, 0xff, 4, 0, 3, 3]"]
    by (simp add: sample_node_bytes max_size_def MAX_UINTN_def)
qed

text \<open>(C23) With a size given, \<open>IsDevicePathValid\<close> reads only the first \<open>MaxSize\<close> bytes, whatever they
  hold: on a buffer of that many bytes it returns, with no access outside, and its answer does not
  depend on what lies behind them.\<close>

theorem IsDevicePathValid_reads_within:
  assumes "0 < MaxSize" "MaxSize \<le> MAX_UINTN" "length path = MaxSize"
  shows "\<exists>b. \<forall>rest. IsDevicePathValid pcd (Some (path @ rest)) MaxSize = Some b"
proof -
  obtain b where b: "IsDevicePathValid pcd (Some (path @ [])) MaxSize = Some b"
    using IsDevicePathValid_bounded [OF assms(1,2), of path] assms(3) by auto
  have "IsDevicePathValid pcd (Some (path @ rest)) MaxSize = Some b" for rest
  proof -
    obtain b' where b': "IsDevicePathValid pcd (Some (path @ rest)) MaxSize = Some b'"
      using IsDevicePathValid_bounded [OF assms(1,2), of "path @ rest"] assms(3) by auto
    have "(\<exists>r. path @ rest = dp_encode ns @ r) \<longleftrightarrow> (\<exists>r. path @ [] = dp_encode ns @ r)"
      if "dp_fits pcd (max_size MaxSize) ns" for ns
      using that assms(1,3) by (simp add: dp_fits_def max_size_def starts_with)
    then have "b' \<longleftrightarrow> b"
      using IsDevicePathValid_iff [OF assms(2), of pcd "path @ rest"]
        IsDevicePathValid_iff [OF assms(2), of pcd "path @ []"] b b'
      unfolding b b' option.inject eq_True by blast
    with b' show ?thesis by simp
  qed
  then show ?thesis by blast
qed

theorem IsDevicePathValid_reads_within_witness:
  "\<exists>b. \<forall>rest. IsDevicePathValid 0 (Some ([1, 1, 9, 0, 7] @ rest)) 5 = Some b"
  by (rule IsDevicePathValid_reads_within) (simp_all add: MAX_UINTN_def)

text \<open>(C24) Size, copy and concatenation of device paths are length, identity and append of node lists:
  for well-formed paths, \<open>GetDevicePathSize\<close> is the length of the layout, \<open>DuplicateDevicePath\<close>
  returns it, \<open>AppendDevicePath\<close> and \<open>AppendDevicePathNode\<close> return the layout of the concatenation,
  whatever lies behind the arguments and in the fresh buffers, and \<open>NULL\<close> when the pool is empty.\<close>

theorem device_paths_append:
  assumes "dp_fits pcd MAX_UINTN a" "dp_fits pcd MAX_UINTN b" "dp_fits pcd MAX_UINTN [n]"
    "length (dp_encode (a @ b)) < 2 ^ 64" "length (dp_encode (a @ [n])) < 2 ^ 64"
  shows "GetDevicePathSize pcd (Some (dp_encode a @ r)) = Some (length (dp_encode a))
    \<and> DuplicateDevicePath pcd pool (Some (dp_encode a @ r)) = Some (map_option (\<lambda>_. dp_encode a) pool)
    \<and> AppendDevicePath pcd pool (Some (dp_encode a @ r)) (Some (dp_encode b @ r'))
        = Some (map_option (\<lambda>_. dp_encode (a @ b)) pool)
    \<and> UefiDevicePathLibAppendDevicePathNode pcd (Some g) pool (Some (dp_encode a @ r)) (Some (encode_node n @ r'))
        = Some (map_option (\<lambda>_. dp_encode (a @ [n])) pool)"
  using assms
  by (simp add: GetDevicePathSize_encode DuplicateDevicePath_encode AppendDevicePath_encode
      AppendDevicePathNode_encode length_dp_encode)

theorem device_paths_append_witness:
  "AppendDevicePath 0 (Some (\<lambda>i. of_nat i)) (Some (dp_encode [sample_node] @ [9])) (Some (dp_encode [sample_node]))
    = Some (Some [1, 1, 6, 0, 5, 7, 1, 1, 6, 0, 5, 7, 0x7f, 0xff, 4, 0])"
  using device_paths_append [of 0 "[sample_node]" "[sample_node]" sample_node "[9]" "Some (\<lambda>i. of_nat i)" "[]" "\<lambda>i. 0"]
    sample_node_fits [of MAX_UINTN]
  by (simp add: MAX_UINTN_def length_dp_encode)
    (simp add: sample_node_def dp_encode_def encode_node_def node_length_def mUefiDevicePathLibEndDevicePath_def dp_consts)

text \<open>(C25) Instances round trip: appending the instance \<open>b\<close> to a single-instance path \<open>a\<close> and taking the
  next instance of the result gives back a copy of \<open>a\<close> and its size, and leaves \<open>*DevicePath\<close> at
  \<open>b\<close>; taking the next instance again, when \<open>b\<close> is single-instance, gives a copy of \<open>b\<close> and \<open>NULL\<close>;
  and the joined path is recognised as multi-instance.\<close>

theorem device_path_instances_roundtrip:
  assumes "dp_fits pcd MAX_UINTN (a @ end_instance # b)" "dp_fits pcd MAX_UINTN b"
    "\<forall>n\<in>set a. \<not> node_end_type n" "\<forall>n\<in>set b. \<not> node_end_type n"
  shows "\<exists>joined.
    UefiDevicePathLibAppendDevicePathInstance pcd (Some g) (Some (dp_encode a)) (Some (dp_encode b)) = Some (Some joined)
    \<and> UefiDevicePathLibIsDevicePathMultiInstance pcd (Some joined) = Some True
    \<and> UefiDevicePathLibGetNextDevicePathInstance pcd (Some g) (Some joined)
        = Some (Some (dp_encode a), Some (dp_encode b), Some (length (dp_encode a)))
    \<and> UefiDevicePathLibGetNextDevicePathInstance pcd (Some g) (Some (dp_encode b))
        = Some (Some (dp_encode b), None, Some (length (dp_encode b)))"
proof (intro exI conjI)
  have f: "dp_fits pcd MAX_UINTN a" by (rule dp_fits_prefix [OF assms(1)])
  have l: "length (dp_encode (a @ end_instance # b)) < 2 ^ 64"
    using dp_fits_length [OF assms(1)] by (simp add: length_dp_encode)
  show "UefiDevicePathLibAppendDevicePathInstance pcd (Some g) (Some (dp_encode a)) (Some (dp_encode b))
      = Some (Some (dp_encode (a @ end_instance # b)))"
    using AppendDevicePathInstance_encode [OF f assms(2) l, of "Some g" "[]" "[]"] by simp
  show "UefiDevicePathLibIsDevicePathMultiInstance pcd (Some (dp_encode (a @ end_instance # b))) = Some True"
    using MultiInstance_encode [OF assms(1), of "[]"] by simp
  show "UefiDevicePathLibGetNextDevicePathInstance pcd (Some g) (Some (dp_encode (a @ end_instance # b)))
        = Some (Some (dp_encode a), Some (dp_encode b), Some (length (dp_encode a)))"
    using GetNextDevicePathInstance_encode [OF assms(1,3), of "Some g" "[]"] by simp
  show "UefiDevicePathLibGetNextDevicePathInstance pcd (Some g) (Some (dp_encode b))
        = Some (Some (dp_encode b), None, Some (length (dp_encode b)))"
    using GetNextDevicePathInstance_last [OF assms(2,4), of "Some g" "[]"] by simp
qed

theorem device_path_instances_roundtrip_witness:
  "\<exists>joined.
    UefiDevicePathLibAppendDevicePathInstance 0 (Some (\<lambda>i. of_nat i)) (Some (dp_encode [sample_node]))
      (Some (dp_encode [sample_node])) = Some (Some joined)
    \<and> UefiDevicePathLibGetNextDevicePathInstance 0 (Some (\<lambda>i. of_nat i)) (Some joined)
        = Some (Some [1, 1, 6, 0, 5, 7, 0x7f, 0xff, 4, 0], Some [1, 1, 6, 0, 5, 7, 0x7f, 0xff, 4, 0], Some 10)"
proof -
  have "dp_fits 0 MAX_UINTN ([sample_node] @ end_instance # [sample_node])" "dp_fits 0 MAX_UINTN [sample_node]"
    "\<forall>n\<in>set [sample_node]. \<not> node_end_type n"
    using sample_node_fits [of MAX_UINTN]
    by (simp_all add: dp_fits_def length_dp_encode MAX_UINTN_def)
      (simp_all add: sample_node_def node_length_def node_end_type_def dp_consts)
  from device_path_instances_roundtrip [OF this this(3), of "\<lambda>i. of_nat i"] show ?thesis
    unfolding sample_node_bytes by auto
qed

text \<open>(C26) \<open>GetNextDevicePathInstance\<close> loses an instance whose terminator is longer than four bytes:
  \<open>IsDevicePathValid\<close> accepts such a path, and yet the routine returns \<open>NULL\<close>, together with a nonzero
  size and a step to the next instance, as if the pool were exhausted.\<close>

theorem GetNextDevicePathInstance_loses:
  assumes "dp_fits pcd MAX_UINTN (a @ e # b)" "\<forall>n\<in>set a. \<not> node_end_type n" "node_end_type e" "ndata e \<noteq> []"
  shows "IsDevicePathValid pcd (Some (dp_encode (a @ e # b))) 0 = Some True
    \<and> UefiDevicePathLibGetNextDevicePathInstance pcd pool (Some (dp_encode (a @ e # b)))
      = Some (None, Some (dp_encode b), Some (length (dp_encode a)))"
  using IsDevicePathValid_encode [OF assms(1), of "[]"] GetNextDevicePathInstance_long_end [OF assms, of pool "[]"]
  by simp

theorem GetNextDevicePathInstance_loses_witness:
  "UefiDevicePathLibGetNextDevicePathInstance 0 (Some (\<lambda>i. 0))
     (Some (dp_encode ([sample_node] @ \<lparr>ntype = 0x7f, nsub = 1, ndata = [0]\<rparr> # [])))
   = Some (None, Some (dp_encode []), Some 10)"
proof -
  have "dp_fits 0 MAX_UINTN ([sample_node] @ \<lparr>ntype = 0x7f, nsub = 1, ndata = [0]\<rparr> # [])"
    using sample_node_fits [of MAX_UINTN]
    by (simp add: dp_fits_def length_dp_encode MAX_UINTN_def node_ok_def)
      (simp add: sample_node_def node_length_def node_end_type_def node_terminated_def dp_consts)
  from GetNextDevicePathInstance_loses [OF this, of "Some (\<lambda>i. 0)"] show ?thesis
    by (simp add: sample_node_bytes) (simp add: sample_node_def node_end_type_def dp_consts)
qed

text \<open>(C27) \<open>FileDevicePath\<close> returns a well-formed path: the path of the device followed by one file path
  node that holds the name with its terminating zero.\<close>

theorem FileDevicePath_wellformed:
  assumes "str_bytes name = Some bs" "length bs + 4 < 0x10000" "dp_fits pcd MAX_UINTN a" "pcd = 0 \<or> length a + 1 < pcd"
    "length (dp_encode (a @ [file_node bs])) < 2 ^ 64"
  shows "FileDevicePath pcd (Some g) (Some h) (Some (dp_encode a @ r)) name = Some (Some (dp_encode (a @ [file_node bs])))
    \<and> IsDevicePathValid pcd (Some (dp_encode (a @ [file_node bs]))) 0 = Some True"
proof -
  have "dp_fits pcd MAX_UINTN (a @ [file_node bs])"
    using assms(3-5) file_node_ok [OF assms(1,2)] by (auto simp: dp_fits_def MAX_UINTN_def)
  then show ?thesis
    using FileDevicePath_encode [OF assms(1-3) _ assms(5), of g "Some h" r] assms(4)
      IsDevicePathValid_encode [of pcd "a @ [file_node bs]" "[]"] by auto
qed

theorem FileDevicePath_wellformed_witness:
  "FileDevicePath 0 (Some (\<lambda>i. 3)) (Some (\<lambda>i. 4)) (Some (dp_encode [sample_node])) [0x61, 0x62, 0]
     = Some (Some [1, 1, 6, 0, 5, 7, 4, 4, 10, 0, 0x61, 0, 0x62, 0, 0, 0, 0x7f, 0xff, 4, 0])"
proof -
  have "str_bytes [0x61, 0x62, 0] = Some [0x61, 0, 0x62, 0, 0, 0]" by code_simp
  from FileDevicePath_wellformed [OF this, of 0 "[sample_node]" "\<lambda>i. 3" "\<lambda>i. 4" "[]"] show ?thesis
    using sample_node_fits [of MAX_UINTN]
    by (simp add: MAX_UINTN_def length_dp_encode)
      (simp add: sample_node_def file_node_def dp_encode_def encode_node_def node_length_def
        mUefiDevicePathLibEndDevicePath_def dp_consts)
qed

end
