(* ===== verification/Hand_Core.thy ===== *)
theory Hand_Core
  imports Device_Path "HOL-Library.Monad_Syntax"
begin

text \<open>
  The handle database of the DXE core: \<^verbatim>\<open>Handle.h\<close>, \<^verbatim>\<open>Handle.c\<close> and \<^verbatim>\<open>Notify.c\<close> of
  \<^verbatim>\<open>MdeModulePkg/Core/Dxe/Hand\<close>.

  Handles, protocol interfaces and notification records are addresses with a store each; a linked
  list is the list of its members, and the link a \<open>PROTOCOL_NOTIFY\<close> remembers is either the list
  head (\<^const>\<open>None\<close>) or a member.  A protocol entry is never freed and is named by its GUID.  Every
  service is a function of the database that returns an option, \<^const>\<open>None\<close> when an \<open>ASSERT\<close> fails,
  when a freed or foreign address is followed, or when a loop does not end.

  Three things lie outside: what runs when the database lock is released and the task priority drops
  (\<open>Yield\<close>), and the services \<open>CoreDisconnectController\<close> and \<open>CoreConnectController\<close>, which the
  services here call and which call them.  They are the fields of a record every service takes; the
  driver support theory closes the recursion.  The pool is the list of the addresses it will
  answer with; zero, an address still in use and the end of the list are failed allocations.
  Signals to the events of the notification records are collected in \<open>signalled\<close>.
\<close>

section \<open>Data\<close>

definition EFI_OPEN_PROTOCOL_BY_HANDLE_PROTOCOL :: UINT32 where "EFI_OPEN_PROTOCOL_BY_HANDLE_PROTOCOL = 0x01"
definition EFI_OPEN_PROTOCOL_GET_PROTOCOL :: UINT32 where "EFI_OPEN_PROTOCOL_GET_PROTOCOL = 0x02"
definition EFI_OPEN_PROTOCOL_TEST_PROTOCOL :: UINT32 where "EFI_OPEN_PROTOCOL_TEST_PROTOCOL = 0x04"
definition EFI_OPEN_PROTOCOL_BY_CHILD_CONTROLLER :: UINT32 where "EFI_OPEN_PROTOCOL_BY_CHILD_CONTROLLER = 0x08"
definition EFI_OPEN_PROTOCOL_BY_DRIVER :: UINT32 where "EFI_OPEN_PROTOCOL_BY_DRIVER = 0x10"
definition EFI_OPEN_PROTOCOL_EXCLUSIVE :: UINT32 where "EFI_OPEN_PROTOCOL_EXCLUSIVE = 0x20"
definition TPL_NOTIFY_LOCK :: nat where "TPL_NOTIFY_LOCK = 16"
definition EVT_EXFLAG_PROTOCOL_NOTIFICATION :: UINT32 where "EVT_EXFLAG_PROTOCOL_NOTIFICATION = 0x02"

definition gEfiDevicePathProtocolGuid :: EFI_GUID where
  "gEfiDevicePathProtocolGuid =
     [0x91, 0x6E, 0x57, 0x09, 0x3F, 0x6D, 0xD2, 0x11, 0x8E, 0x39, 0x00, 0xA0, 0xC9, 0x69, 0x72, 0x3B]"

record OPEN_PROTOCOL_DATA =
  AgentHandle :: EFI_HANDLE
  ControllerHandle :: EFI_HANDLE
  Attributes :: UINT32
  OpenCount :: UINT32

record PROTOCOL_INTERFACE =
  Prot_Handle :: EFI_HANDLE
  Prot_Protocol :: EFI_GUID
  Prot_Interface :: UINTN
  OpenList :: "OPEN_PROTOCOL_DATA list"
  OpenListCount :: UINTN

record PROTOCOL_NOTIFY =
  Notify_Protocol :: EFI_GUID
  Notify_Event :: UINTN
  Notify_Position :: "UINTN option"

record PROTOCOL_ENTRY =
  ProtocolID :: EFI_GUID
  Entry_Protocols :: "UINTN list"
  Entry_Notify :: "UINTN list"

record IHANDLE =
  Protocols :: "UINTN list"
  LocateRequest :: UINTN
  Key :: UINT64

record hand_db =
  mProtocolDatabase :: "PROTOCOL_ENTRY list"
  gHandleList :: "EFI_HANDLE list"
  gOrderedHandleList :: "EFI_HANDLE list option"
  gHandleDatabaseKey :: UINT64
  mEfiLocateHandleRequest :: UINTN
  gDxeCoreImageHandle :: EFI_HANDLE
  handles :: "EFI_HANDLE \<Rightarrow> IHANDLE option"
  prots :: "UINTN \<Rightarrow> PROTOCOL_INTERFACE option"
  notifies :: "UINTN \<Rightarrow> PROTOCOL_NOTIFY option"
  events :: "UINTN \<Rightarrow> UINT32 option"
  signalled :: "UINTN list"
  pool :: "UINTN list"
  locked :: bool
  CurrentTpl :: nat
  OwnerTpl :: nat

record hand_services =
  Yield :: "hand_db \<Rightarrow> hand_db option"
  Disconnect :: "EFI_HANDLE \<Rightarrow> EFI_HANDLE \<Rightarrow> EFI_HANDLE \<Rightarrow> hand_db \<Rightarrow> (EFI_STATUS \<times> hand_db) option"
  Connect :: "EFI_HANDLE \<Rightarrow> EFI_HANDLE list option \<Rightarrow> dp_ptr \<Rightarrow> bool \<Rightarrow> hand_db \<Rightarrow> (EFI_STATUS \<times> hand_db) option"
  Memory :: "UINTN \<Rightarrow> UINT8 list"
  PcdNodes :: nat

text \<open>The device path at an address, for a protocol interface that is one.\<close>

definition path_at :: "hand_services \<Rightarrow> UINTN \<Rightarrow> dp_ptr" where
  "path_at sv a = (if a = NULL then None else Some (Memory sv a))"

section \<open>Lists, pool and lock\<close>

text \<open>\<open>ForwardLink\<close> and \<open>BackLink\<close> from a position, \<^const>\<open>None\<close> being the head; the outer option is
  for a position that is no member of the list.\<close>

fun list_next :: "'a list \<Rightarrow> 'a option \<Rightarrow> 'a option option" where
  "list_next xs None = Some (case xs of [] \<Rightarrow> None | x # _ \<Rightarrow> Some x)"
| "list_next [] (Some a) = None"
| "list_next (x # xs) (Some a) = (if x = a then list_next xs None else list_next xs (Some a))"

fun list_prev :: "'a option \<Rightarrow> 'a list \<Rightarrow> 'a \<Rightarrow> 'a option" where
  "list_prev before [] a = None"
| "list_prev before (x # xs) a = (if x = a then before else list_prev (Some x) xs a)"

definition hand_alloc :: "(UINTN \<Rightarrow> bool) \<Rightarrow> hand_db \<Rightarrow> UINTN \<times> hand_db" where
  "hand_alloc live s =
     (case pool s of
        [] \<Rightarrow> (NULL, s)
      | a # r \<Rightarrow> (if live a then NULL else a, s\<lparr>pool := r\<rparr>))"

definition CoreAcquireProtocolLock :: "hand_db \<Rightarrow> hand_db option" where
  "CoreAcquireProtocolLock s =
     (if locked s \<or> TPL_NOTIFY_LOCK < CurrentTpl s then None
      else Some (s\<lparr>locked := True, OwnerTpl := CurrentTpl s, CurrentTpl := TPL_NOTIFY_LOCK\<rparr>))"

definition CoreReleaseProtocolLock :: "hand_services \<Rightarrow> hand_db \<Rightarrow> hand_db option" where
  "CoreReleaseProtocolLock sv s =
     (if \<not> locked s then None
      else Yield sv (s\<lparr>locked := False, CurrentTpl := OwnerTpl s\<rparr>))"

text \<open>\<open>gOrderedHandleList\<close> keeps the addresses of all handles in the order of \<open>PointerCompare\<close>.\<close>

definition PointerCompare :: "UINTN \<Rightarrow> UINTN \<Rightarrow> int" where
  "PointerCompare Pointer1 Pointer2 =
     (if Pointer1 = Pointer2 then 0 else if Pointer1 < Pointer2 then -1 else 1)"

fun ordered_insert :: "UINTN \<Rightarrow> UINTN list \<Rightarrow> UINTN list" where
  "ordered_insert a [] = [a]"
| "ordered_insert a (x # xs) =
     (if PointerCompare a x < 0 then a # x # xs else x # ordered_insert a xs)"

definition OrderedCollectionInsert :: "UINTN \<Rightarrow> hand_db \<Rightarrow> (EFI_STATUS \<times> hand_db) option" where
  "OrderedCollectionInsert a s = do {
     l \<leftarrow> gOrderedHandleList s;
     if a \<in> set l then Some (EFI_ALREADY_STARTED, s)
     else let (node, s) = hand_alloc (\<lambda>_. False) s in
       if node = NULL then Some (EFI_OUT_OF_RESOURCES, s)
       else Some (EFI_SUCCESS, s\<lparr>gOrderedHandleList := Some (ordered_insert a l)\<rparr>) }"

definition CoreInitializeHandleServices :: "hand_db \<Rightarrow> EFI_STATUS \<times> hand_db" where
  "CoreInitializeHandleServices s =
     (let (a, s) = hand_alloc (\<lambda>_. False) s in
      if a = NULL then (EFI_OUT_OF_RESOURCES, s\<lparr>gOrderedHandleList := None\<rparr>)
      else (EFI_SUCCESS, s\<lparr>gOrderedHandleList := Some []\<rparr>))"

definition CoreValidateHandle :: "EFI_HANDLE \<Rightarrow> hand_db \<Rightarrow> EFI_STATUS option" where
  "CoreValidateHandle UserHandle s =
     (if UserHandle = NULL then Some EFI_INVALID_PARAMETER
      else if \<not> locked s then None
      else do {
        l \<leftarrow> gOrderedHandleList s;
        Some (if UserHandle \<in> set l then EFI_SUCCESS else EFI_INVALID_PARAMETER) })"

section \<open>Looking up\<close>

definition find_entry :: "EFI_GUID \<Rightarrow> hand_db \<Rightarrow> PROTOCOL_ENTRY option" where
  "find_entry g s = List.find (\<lambda>e. ProtocolID e = g) (mProtocolDatabase s)"

definition upd_entry :: "EFI_GUID \<Rightarrow> (PROTOCOL_ENTRY \<Rightarrow> PROTOCOL_ENTRY) \<Rightarrow> hand_db \<Rightarrow> hand_db" where
  "upd_entry g f s =
     s\<lparr>mProtocolDatabase := map (\<lambda>e. if ProtocolID e = g then f e else e) (mProtocolDatabase s)\<rparr>"

definition CoreFindProtocolEntry :: "EFI_GUID \<Rightarrow> bool \<Rightarrow> hand_db \<Rightarrow> (PROTOCOL_ENTRY option \<times> hand_db) option" where
  "CoreFindProtocolEntry Protocol Create s =
     (if \<not> locked s then None
      else (case find_entry Protocol s of
              Some ProtEntry \<Rightarrow> Some (Some ProtEntry, s)
            | None \<Rightarrow>
                if \<not> Create then Some (None, s)
                else let (a, s) = hand_alloc (\<lambda>_. False) s in
                  if a = NULL then Some (None, s)
                  else let ProtEntry = \<lparr>ProtocolID = Protocol, Entry_Protocols = [], Entry_Notify = []\<rparr> in
                    Some (Some ProtEntry, s\<lparr>mProtocolDatabase := mProtocolDatabase s @ [ProtEntry]\<rparr>)))"

text \<open>The walk along the interfaces of a handle until a test holds.\<close>

fun find_prot :: "(PROTOCOL_INTERFACE \<Rightarrow> bool) \<Rightarrow> UINTN list \<Rightarrow> hand_db \<Rightarrow> UINTN option option" where
  "find_prot P [] s = Some None"
| "find_prot P (p # ps) s = do {
     Prot \<leftarrow> prots s p;
     if P Prot then Some (Some p) else find_prot P ps s }"

definition CoreFindProtocolInterface :: "EFI_HANDLE \<Rightarrow> EFI_GUID \<Rightarrow> UINTN \<Rightarrow> hand_db \<Rightarrow> UINTN option option" where
  "CoreFindProtocolInterface Handle Protocol Interface s = do {
     (ProtEntry, _) \<leftarrow> CoreFindProtocolEntry Protocol False s;
     case ProtEntry of
       None \<Rightarrow> Some None
     | Some _ \<Rightarrow> do {
         H \<leftarrow> handles s Handle;
         find_prot (\<lambda>Prot. Prot_Interface Prot = Interface \<and> Prot_Protocol Prot = Protocol) (Protocols H) s } }"

definition CoreGetProtocolInterface :: "EFI_HANDLE \<Rightarrow> EFI_GUID \<Rightarrow> hand_db \<Rightarrow> UINTN option option" where
  "CoreGetProtocolInterface UserHandle Protocol s = do {
     H \<leftarrow> handles s UserHandle;
     find_prot (\<lambda>Prot. Prot_Protocol Prot = Protocol) (Protocols H) s }"

definition CompareMem :: "UINT8 list \<Rightarrow> UINT8 list \<Rightarrow> nat \<Rightarrow> bool option" where
  "CompareMem a b n = (if n \<le> length a \<and> n \<le> length b then Some (take n a = take n b) else None)"

fun path_installed :: "hand_services \<Rightarrow> UINT8 list \<Rightarrow> nat \<Rightarrow> UINTN list \<Rightarrow> hand_db \<Rightarrow> bool option" where
  "path_installed sv path SourceSize [] s = Some False"
| "path_installed sv path SourceSize (p # ps) s = do {
     Prot \<leftarrow> prots s p;
     Size \<leftarrow> GetDevicePathSize (PcdNodes sv) (path_at sv (Prot_Interface Prot));
     if Size < END_DEVICE_PATH_LENGTH then None
     else do {
       same \<leftarrow> (if Size = SourceSize
                 then CompareMem path (Memory sv (Prot_Interface Prot)) (Size - END_DEVICE_PATH_LENGTH)
                 else Some False);
       if same then Some True else path_installed sv path SourceSize ps s } }"

definition IsDevicePathInstalled :: "hand_services \<Rightarrow> UINTN \<Rightarrow> hand_db \<Rightarrow> (bool \<times> hand_db) option" where
  "IsDevicePathInstalled sv DevicePath s =
     (if DevicePath = NULL then Some (False, s)
      else do {
        SourceSize \<leftarrow> GetDevicePathSize (PcdNodes sv) (path_at sv DevicePath);
        if SourceSize < END_DEVICE_PATH_LENGTH then None
        else do {
          s \<leftarrow> CoreAcquireProtocolLock s;
          (ProtEntry, s) \<leftarrow> CoreFindProtocolEntry gEfiDevicePathProtocolGuid False s;
          Found \<leftarrow> (case ProtEntry of
                      None \<Rightarrow> Some False
                    | Some e \<Rightarrow> path_installed sv (Memory sv DevicePath) SourceSize (Entry_Protocols e) s);
          s \<leftarrow> CoreReleaseProtocolLock sv s;
          Some (Found, s) } })"

end
