(* ===== verification/Hand_Services.thy ===== *)
theory Hand_Services
  imports Hand_Core
begin

text \<open>
  The services of \<^verbatim>\<open>Handle.c\<close> and \<^verbatim>\<open>Notify.c\<close> that open, close, install and uninstall protocols
  and register notifications.  An \<open>OUT\<close> pointer a service leaves alone on some path is an option in
  its result, \<^const>\<open>None\<close> when it is left alone.
\<close>

section \<open>Notification\<close>

fun signal_all :: "UINTN list \<Rightarrow> hand_db \<Rightarrow> hand_db option" where
  "signal_all [] s = Some s"
| "signal_all (n # ns) s = do {
     ProtNotify \<leftarrow> notifies s n;
     signal_all ns (s\<lparr>signalled := signalled s @ [Notify_Event ProtNotify]\<rparr>) }"

definition CoreNotifyProtocolEntry :: "EFI_GUID \<Rightarrow> hand_db \<Rightarrow> hand_db option" where
  "CoreNotifyProtocolEntry Protocol s =
     (if \<not> locked s then None
      else do {
        ProtEntry \<leftarrow> find_entry Protocol s;
        signal_all (Entry_Notify ProtEntry) s })"

fun back_up :: "UINTN \<Rightarrow> UINTN option \<Rightarrow> UINTN list \<Rightarrow> hand_db \<Rightarrow> hand_db option" where
  "back_up p back [] s = Some s"
| "back_up p back (n # ns) s = do {
     ProtNotify \<leftarrow> notifies s n;
     back_up p back ns
       (if Notify_Position ProtNotify = Some p
        then s\<lparr>notifies := (notifies s)(n \<mapsto> ProtNotify\<lparr>Notify_Position := back\<rparr>)\<rparr> else s) }"

definition CoreRemoveInterfaceFromProtocol ::
    "EFI_HANDLE \<Rightarrow> EFI_GUID \<Rightarrow> UINTN \<Rightarrow> hand_db \<Rightarrow> (UINTN option \<times> hand_db) option" where
  "CoreRemoveInterfaceFromProtocol Handle Protocol Interface s =
     (if \<not> locked s then None
      else do {
        Prot \<leftarrow> CoreFindProtocolInterface Handle Protocol Interface s;
        case Prot of
          None \<Rightarrow> Some (None, s)
        | Some p \<Rightarrow> do {
            ProtEntry \<leftarrow> find_entry Protocol s;
            s \<leftarrow> back_up p (list_prev None (Entry_Protocols ProtEntry) p) (Entry_Notify ProtEntry) s;
            Some (Some p, upd_entry Protocol (\<lambda>e. e\<lparr>Entry_Protocols := remove1 p (Entry_Protocols e)\<rparr>) s) } })"

text \<open>The event has to be one: \<open>events\<close> holds the \<open>ExFlag\<close> of every live event.\<close>

definition CoreRegisterProtocolNotify ::
    "hand_services \<Rightarrow> EFI_GUID option \<Rightarrow> UINTN \<Rightarrow> bool \<Rightarrow> hand_db \<Rightarrow> (EFI_STATUS \<times> UINTN option \<times> hand_db) option" where
  "CoreRegisterProtocolNotify sv Protocol Event has_Registration s =
     (case (Protocol, events s Event) of
        (Some g, Some ExFlag) \<Rightarrow>
          if Event = NULL \<or> \<not> has_Registration then Some (EFI_INVALID_PARAMETER, None, s)
          else do {
            s \<leftarrow> CoreAcquireProtocolLock s;
            (ProtEntry, s) \<leftarrow> CoreFindProtocolEntry g True s;
            let (ProtNotify, s) =
              (case ProtEntry of
                 None \<Rightarrow> (NULL, s)
               | Some _ \<Rightarrow>
                   let (a, s) = hand_alloc (\<lambda>a. notifies s a \<noteq> None) s in
                   if a = NULL then (NULL, s)
                   else (a, upd_entry g (\<lambda>e. e\<lparr>Entry_Notify := Entry_Notify e @ [a]\<rparr>)
                     (s\<lparr>events := (events s)(Event \<mapsto> ExFlag OR EVT_EXFLAG_PROTOCOL_NOTIFICATION),
                        notifies := (notifies s)(a \<mapsto>
                          \<lparr>Notify_Protocol = g, Notify_Event = Event, Notify_Position = None\<rparr>)\<rparr>)));
            s \<leftarrow> CoreReleaseProtocolLock sv s;
            if ProtNotify = NULL then Some (EFI_OUT_OF_RESOURCES, None, s)
            else Some (EFI_SUCCESS, Some ProtNotify, s) }
      | _ \<Rightarrow> Some (EFI_INVALID_PARAMETER, None, s))"

text \<open>The first notification record for the event, in the order of the two nested loops.\<close>

fun find_notify :: "UINTN \<Rightarrow> UINTN list \<Rightarrow> hand_db \<Rightarrow> UINTN option option" where
  "find_notify Event [] s = Some None"
| "find_notify Event (n # ns) s = do {
     ProtNotify \<leftarrow> notifies s n;
     if Notify_Event ProtNotify = Event then Some (Some n) else find_notify Event ns s }"

fun unregister_loop :: "UINTN \<Rightarrow> PROTOCOL_ENTRY list \<Rightarrow> hand_db \<Rightarrow> (EFI_STATUS \<times> hand_db) option" where
  "unregister_loop Event [] s = Some (EFI_NOT_FOUND, s)"
| "unregister_loop Event (e # es) s = do {
     r \<leftarrow> find_notify Event (Entry_Notify e) s;
     case r of
       None \<Rightarrow> unregister_loop Event es s
     | Some n \<Rightarrow> Some (EFI_SUCCESS,
         upd_entry (ProtocolID e) (\<lambda>e. e\<lparr>Entry_Notify := remove1 n (Entry_Notify e)\<rparr>)
           (s\<lparr>notifies := (notifies s)(n := None)\<rparr>)) }"

definition CoreUnregisterProtocolNotifyEvent :: "hand_services \<Rightarrow> UINTN \<Rightarrow> hand_db \<Rightarrow> (EFI_STATUS \<times> hand_db) option" where
  "CoreUnregisterProtocolNotifyEvent sv Event s = do {
     s \<leftarrow> CoreAcquireProtocolLock s;
     (Status, s) \<leftarrow> unregister_loop Event (mProtocolDatabase s) s;
     s \<leftarrow> CoreReleaseProtocolLock sv s;
     Some (Status, s) }"

partial_function (option) CoreUnregisterProtocolNotify ::
    "hand_services \<Rightarrow> UINTN \<Rightarrow> hand_db \<Rightarrow> (EFI_STATUS \<times> hand_db) option" where
  "CoreUnregisterProtocolNotify sv Event s = do {
     (Status, s) \<leftarrow> CoreUnregisterProtocolNotifyEvent sv Event s;
     if EFI_ERROR Status then Some (EFI_SUCCESS, s)
     else CoreUnregisterProtocolNotify sv Event s }"

section \<open>Opening and closing\<close>

definition by_driver :: "OPEN_PROTOCOL_DATA \<Rightarrow> bool" where
  "by_driver OpenData \<longleftrightarrow> Attributes OpenData AND EFI_OPEN_PROTOCOL_BY_DRIVER \<noteq> 0"

definition exclusive :: "OPEN_PROTOCOL_DATA \<Rightarrow> bool" where
  "exclusive OpenData \<longleftrightarrow> Attributes OpenData AND EFI_OPEN_PROTOCOL_EXCLUSIVE \<noteq> 0"

text \<open>The scan of the open list: the status to leave with, if it leaves early, the two flags and the
  list with the count of an exact match increased.\<close>

fun open_scan ::
    "EFI_HANDLE \<Rightarrow> EFI_HANDLE \<Rightarrow> UINT32 \<Rightarrow> OPEN_PROTOCOL_DATA list \<Rightarrow> bool \<Rightarrow> bool \<Rightarrow>
     EFI_STATUS option \<times> bool \<times> bool \<times> OPEN_PROTOCOL_DATA list" where
  "open_scan Agent Controller Attr [] ByDriver Exclusive = (None, ByDriver, Exclusive, [])"
| "open_scan Agent Controller Attr (d # ds) ByDriver Exclusive =
     (let ExactMatch = (AgentHandle d = Agent \<and> Attributes d = Attr \<and> ControllerHandle d = Controller) in
      if by_driver d \<and> ExactMatch then (Some EFI_ALREADY_STARTED, True, Exclusive, d # ds)
      else if \<not> exclusive d \<and> ExactMatch
        then (Some EFI_SUCCESS, ByDriver \<or> by_driver d, Exclusive, d\<lparr>OpenCount := OpenCount d + 1\<rparr> # ds)
      else (case open_scan Agent Controller Attr ds (ByDriver \<or> by_driver d) (Exclusive \<or> exclusive d) of
              (r, b, x, ds') \<Rightarrow> (r, b, x, d # ds')))"

definition open_check :: "EFI_HANDLE \<Rightarrow> EFI_HANDLE \<Rightarrow> EFI_HANDLE \<Rightarrow> UINT32 \<Rightarrow> hand_db \<Rightarrow> EFI_STATUS option" where
  "open_check UserHandle ImageHandle Controller Attr s =
     (if Attr = EFI_OPEN_PROTOCOL_BY_CHILD_CONTROLLER then do {
        Status \<leftarrow> CoreValidateHandle ImageHandle s;
        if EFI_ERROR Status then Some Status
        else do {
          Status \<leftarrow> CoreValidateHandle Controller s;
          if EFI_ERROR Status then Some Status
          else Some (if UserHandle = Controller then EFI_INVALID_PARAMETER else EFI_SUCCESS) } }
      else if Attr = EFI_OPEN_PROTOCOL_BY_DRIVER
           \<or> Attr = EFI_OPEN_PROTOCOL_BY_DRIVER OR EFI_OPEN_PROTOCOL_EXCLUSIVE then do {
        Status \<leftarrow> CoreValidateHandle ImageHandle s;
        if EFI_ERROR Status then Some Status else CoreValidateHandle Controller s }
      else if Attr = EFI_OPEN_PROTOCOL_EXCLUSIVE then CoreValidateHandle ImageHandle s
      else if Attr = EFI_OPEN_PROTOCOL_BY_HANDLE_PROTOCOL \<or> Attr = EFI_OPEN_PROTOCOL_GET_PROTOCOL
           \<or> Attr = EFI_OPEN_PROTOCOL_TEST_PROTOCOL then Some EFI_SUCCESS
      else Some EFI_INVALID_PARAMETER)"

definition upd_prot :: "UINTN \<Rightarrow> (PROTOCOL_INTERFACE \<Rightarrow> PROTOCOL_INTERFACE) \<Rightarrow> hand_db \<Rightarrow> hand_db option" where
  "upd_prot p f s = do {
     Prot \<leftarrow> prots s p;
     Some (s\<lparr>prots := (prots s)(p \<mapsto> f Prot)\<rparr>) }"

text \<open>The agent of the first entry opened by a driver, if there is one.\<close>

definition first_driver :: "UINTN \<Rightarrow> hand_db \<Rightarrow> EFI_HANDLE option option" where
  "first_driver p s = do {
     Prot \<leftarrow> prots s p;
     Some (map_option AgentHandle (List.find by_driver (OpenList Prot))) }"

text \<open>The loop that disconnects every driver before an exclusive open.\<close>

partial_function (option) open_disconnect ::
    "hand_services \<Rightarrow> EFI_HANDLE \<Rightarrow> UINTN \<Rightarrow> hand_db \<Rightarrow> (EFI_STATUS \<times> hand_db) option" where
  "open_disconnect sv UserHandle p s = do {
     agent \<leftarrow> first_driver p s;
     if agent = None then Some (EFI_SUCCESS, s)
     else do {
       s \<leftarrow> CoreReleaseProtocolLock sv s;
       (Status, s) \<leftarrow> Disconnect sv UserHandle (the agent) NULL s;
       s \<leftarrow> CoreAcquireProtocolLock s;
       if EFI_ERROR Status then Some (EFI_ACCESS_DENIED, s)
       else open_disconnect sv UserHandle p s } }"

text \<open>What \<open>CoreOpenProtocol\<close> does with the interface it has found.\<close>

definition open_prot ::
    "hand_services \<Rightarrow> EFI_HANDLE \<Rightarrow> UINTN \<Rightarrow> EFI_HANDLE \<Rightarrow> EFI_HANDLE \<Rightarrow> UINT32 \<Rightarrow> hand_db \<Rightarrow>
     (EFI_STATUS \<times> hand_db) option" where
  "open_prot sv UserHandle p ImageHandle Controller Attr s = do {
     Prot \<leftarrow> prots s p;
     let (r, ByDriver, Exclusive, ds) = open_scan ImageHandle Controller Attr (OpenList Prot) False False;
     case r of
       Some Status \<Rightarrow> Some (Status, s\<lparr>prots := (prots s)(p \<mapsto> Prot\<lparr>OpenList := ds\<rparr>)\<rparr>)
     | None \<Rightarrow> do {
         (Status, s) \<leftarrow>
           (if Attr = EFI_OPEN_PROTOCOL_BY_DRIVER
            then Some (if Exclusive \<or> ByDriver then EFI_ACCESS_DENIED else EFI_SUCCESS, s)
            else if Attr = EFI_OPEN_PROTOCOL_BY_DRIVER OR EFI_OPEN_PROTOCOL_EXCLUSIVE
                 \<or> Attr = EFI_OPEN_PROTOCOL_EXCLUSIVE
            then if Exclusive then Some (EFI_ACCESS_DENIED, s)
                 else if ByDriver then open_disconnect sv UserHandle p s
                 else Some (EFI_SUCCESS, s)
            else Some (EFI_SUCCESS, s));
         if EFI_ERROR Status then Some (Status, s)
         else if ImageHandle = NULL then Some (EFI_SUCCESS, s)
         else let (a, s) = hand_alloc (\<lambda>_. False) s in
           if a = NULL then Some (EFI_OUT_OF_RESOURCES, s)
           else do {
             s \<leftarrow> upd_prot p (\<lambda>Prot. Prot\<lparr>
                     OpenList := OpenList Prot @ [\<lparr>AgentHandle = ImageHandle, ControllerHandle = Controller,
                                                   Attributes = Attr, OpenCount = 1\<rparr>],
                     OpenListCount := OpenListCount Prot + 1\<rparr>) s;
             Some (EFI_SUCCESS, s) } } }"

definition CoreOpenProtocol ::
    "hand_services \<Rightarrow> EFI_HANDLE \<Rightarrow> EFI_GUID option \<Rightarrow> bool \<Rightarrow> EFI_HANDLE \<Rightarrow> EFI_HANDLE \<Rightarrow> UINT32 \<Rightarrow> hand_db \<Rightarrow>
     (EFI_STATUS \<times> UINTN option \<times> hand_db) option" where
  "CoreOpenProtocol sv UserHandle Protocol has_Interface ImageHandle Controller Attr s =
     (case Protocol of
        None \<Rightarrow> Some (EFI_INVALID_PARAMETER, None, s)
      | Some g \<Rightarrow>
          if Attr \<noteq> EFI_OPEN_PROTOCOL_TEST_PROTOCOL \<and> \<not> has_Interface then Some (EFI_INVALID_PARAMETER, None, s)
          else do {
            s \<leftarrow> CoreAcquireProtocolLock s;
            Status \<leftarrow> CoreValidateHandle UserHandle s;
            Status \<leftarrow> (if EFI_ERROR Status then Some Status
                        else open_check UserHandle ImageHandle Controller Attr s);
            (Status, Prot, s) \<leftarrow>
              (if EFI_ERROR Status then Some (Status, None, s)
               else do {
                 Prot \<leftarrow> CoreGetProtocolInterface UserHandle g s;
                 case Prot of
                   None \<Rightarrow> Some (EFI_UNSUPPORTED, None, s)
                 | Some p \<Rightarrow> do {
                     (Status, s) \<leftarrow> open_prot sv UserHandle p ImageHandle Controller Attr s;
                     Some (Status, Some p, s) } });
            Interface \<leftarrow>
              (if Attr = EFI_OPEN_PROTOCOL_TEST_PROTOCOL then Some None
               else if (\<not> EFI_ERROR Status \<or> Status = EFI_ALREADY_STARTED) \<and> Prot \<noteq> None
                 then map_option (\<lambda>Prot. Some (Prot_Interface Prot)) (prots s (the Prot))
               else if Status = EFI_UNSUPPORTED then Some (Some NULL)
               else Some None);
            s \<leftarrow> CoreReleaseProtocolLock sv s;
            Some (Status, Interface, s) })"

definition CoreHandleProtocol ::
    "hand_services \<Rightarrow> EFI_HANDLE \<Rightarrow> EFI_GUID option \<Rightarrow> bool \<Rightarrow> hand_db \<Rightarrow> (EFI_STATUS \<times> UINTN option \<times> hand_db) option" where
  "CoreHandleProtocol sv UserHandle Protocol has_Interface s =
     CoreOpenProtocol sv UserHandle Protocol has_Interface (gDxeCoreImageHandle s) NULL
       EFI_OPEN_PROTOCOL_BY_HANDLE_PROTOCOL s"

definition opened_by :: "EFI_HANDLE \<Rightarrow> EFI_HANDLE \<Rightarrow> OPEN_PROTOCOL_DATA \<Rightarrow> bool" where
  "opened_by Agent Controller OpenData \<longleftrightarrow>
     AgentHandle OpenData = Agent \<and> ControllerHandle OpenData = Controller"

definition CoreCloseProtocol ::
    "hand_services \<Rightarrow> EFI_HANDLE \<Rightarrow> EFI_GUID option \<Rightarrow> EFI_HANDLE \<Rightarrow> EFI_HANDLE \<Rightarrow> hand_db \<Rightarrow>
     (EFI_STATUS \<times> hand_db) option" where
  "CoreCloseProtocol sv UserHandle Protocol Agent Controller s = do {
     s \<leftarrow> CoreAcquireProtocolLock s;
     Status \<leftarrow> CoreValidateHandle UserHandle s;
     Status \<leftarrow> (if EFI_ERROR Status then Some Status else CoreValidateHandle Agent s);
     Status \<leftarrow> (if EFI_ERROR Status \<or> Controller = NULL then Some Status else CoreValidateHandle Controller s);
     (Status, s) \<leftarrow>
       (if EFI_ERROR Status then Some (Status, s)
        else case Protocol of
          None \<Rightarrow> Some (EFI_INVALID_PARAMETER, s)
        | Some g \<Rightarrow> do {
            r \<leftarrow> CoreGetProtocolInterface UserHandle g s;
            case r of
              None \<Rightarrow> Some (EFI_NOT_FOUND, s)
            | Some p \<Rightarrow> do {
                Prot \<leftarrow> prots s p;
                let gone = filter (opened_by Agent Controller) (OpenList Prot);
                Some (if gone = [] then EFI_NOT_FOUND else EFI_SUCCESS,
                  s\<lparr>prots := (prots s)(p \<mapsto> Prot\<lparr>
                    OpenList := filter (\<lambda>d. \<not> opened_by Agent Controller d) (OpenList Prot),
                    OpenListCount := OpenListCount Prot - of_nat (length gone)\<rparr>)\<rparr>) } });
     s \<leftarrow> CoreReleaseProtocolLock sv s;
     Some (Status, s) }"

text \<open>The entry count is asserted to be the length of the list.\<close>

definition CoreOpenProtocolInformation ::
    "hand_services \<Rightarrow> EFI_HANDLE \<Rightarrow> EFI_GUID \<Rightarrow> hand_db \<Rightarrow> (EFI_STATUS \<times> OPEN_PROTOCOL_DATA list \<times> hand_db) option" where
  "CoreOpenProtocolInformation sv UserHandle Protocol s = do {
     s \<leftarrow> CoreAcquireProtocolLock s;
     Status \<leftarrow> CoreValidateHandle UserHandle s;
     (Status, EntryBuffer, s) \<leftarrow>
       (if EFI_ERROR Status then Some (EFI_NOT_FOUND, [], s)
        else do {
          r \<leftarrow> CoreGetProtocolInterface UserHandle Protocol s;
          case r of
            None \<Rightarrow> Some (EFI_NOT_FOUND, [], s)
          | Some p \<Rightarrow> do {
              Prot \<leftarrow> prots s p;
              if of_nat (length (OpenList Prot)) \<noteq> OpenListCount Prot then None
              else let (Buffer, s) = hand_alloc (\<lambda>_. False) s in
                if Buffer = NULL then Some (EFI_OUT_OF_RESOURCES, [], s)
                else Some (EFI_SUCCESS, OpenList Prot, s) } });
     s \<leftarrow> CoreReleaseProtocolLock sv s;
     Some (Status, EntryBuffer, s) }"

fun prot_guids :: "UINTN list \<Rightarrow> hand_db \<Rightarrow> EFI_GUID list option" where
  "prot_guids [] s = Some []"
| "prot_guids (p # ps) s = do {
     Prot \<leftarrow> prots s p;
     gs \<leftarrow> prot_guids ps s;
     Some (Prot_Protocol Prot # gs) }"

definition CoreProtocolsPerHandle ::
    "hand_services \<Rightarrow> EFI_HANDLE \<Rightarrow> bool \<Rightarrow> hand_db \<Rightarrow> (EFI_STATUS \<times> EFI_GUID list \<times> hand_db) option" where
  "CoreProtocolsPerHandle sv UserHandle has_Buffers s =
     (if \<not> has_Buffers then Some (EFI_INVALID_PARAMETER, [], s)
      else do {
        s \<leftarrow> CoreAcquireProtocolLock s;
        Status \<leftarrow> CoreValidateHandle UserHandle s;
        (Status, Buffer, s) \<leftarrow>
          (if EFI_ERROR Status then Some (Status, [], s)
           else do {
             H \<leftarrow> handles s UserHandle;
             if Protocols H = [] then Some (EFI_INVALID_PARAMETER, [], s)
             else let (a, s) = hand_alloc (\<lambda>_. False) s in
               if a = NULL then Some (EFI_OUT_OF_RESOURCES, [], s)
               else do {
                 gs \<leftarrow> prot_guids (Protocols H) s;
                 Some (EFI_SUCCESS, gs, s) } });
        s \<leftarrow> CoreReleaseProtocolLock sv s;
        Some (Status, Buffer, s) })"

definition CoreGetHandleDatabaseKey :: "hand_db \<Rightarrow> UINT64" where
  "CoreGetHandleDatabaseKey s = gHandleDatabaseKey s"

end
