(* ===== verification/Hand_Install.thy ===== *)
theory Hand_Install
  imports Hand_Services
begin

text \<open>
  Installing, uninstalling and reinstalling protocol interfaces, one at a time and in groups
  (\<^verbatim>\<open>Handle.c\<close>, \<^verbatim>\<open>Notify.c\<close>).
\<close>

section \<open>Installing\<close>

text \<open>A new handle, or the caller's handle if it is one.\<close>

definition install_handle :: "EFI_HANDLE \<Rightarrow> hand_db \<Rightarrow> (EFI_STATUS \<times> EFI_HANDLE \<times> hand_db) option" where
  "install_handle Handle s =
     (if Handle = NULL then
        let (h, s) = hand_alloc (\<lambda>a. handles s a \<noteq> None) s in
        if h = NULL then Some (EFI_OUT_OF_RESOURCES, h, s)
        else do {
          (Status, s) \<leftarrow> OrderedCollectionInsert h s;
          if EFI_ERROR Status then Some (Status, h, s)
          else Some (EFI_SUCCESS, h,
            s\<lparr>handles := (handles s)(h \<mapsto> \<lparr>Protocols = [], LocateRequest = 0, Key = 0\<rparr>),
              gHandleList := gHandleList s @ [h]\<rparr>) }
      else do {
        Status \<leftarrow> CoreValidateHandle Handle s;
        Some (Status, Handle, s) })"

text \<open>The new interface goes to the head of the handle's list and to the tail of the protocol's.\<close>

definition install_prot :: "EFI_HANDLE \<Rightarrow> UINTN \<Rightarrow> EFI_GUID \<Rightarrow> UINTN \<Rightarrow> bool \<Rightarrow> hand_db \<Rightarrow> hand_db option" where
  "install_prot h p Protocol Interface Notify s = do {
     let k = gHandleDatabaseKey s + 1;
     H \<leftarrow> handles s h;
     let s = s\<lparr>gHandleDatabaseKey := k, handles := (handles s)(h \<mapsto> H\<lparr>Key := k\<rparr>)\<rparr>;
     r \<leftarrow> CoreFindProtocolInterface h Protocol Interface s;
     if r \<noteq> None then None
     else do {
       let s = upd_entry Protocol (\<lambda>e. e\<lparr>Entry_Protocols := Entry_Protocols e @ [p]\<rparr>)
         (s\<lparr>prots := (prots s)(p \<mapsto> \<lparr>Prot_Handle = h, Prot_Protocol = Protocol, Prot_Interface = Interface,
                                     OpenList = [], OpenListCount = 0\<rparr>),
            handles := (handles s)(h \<mapsto> H\<lparr>Key := k, Protocols := p # Protocols H\<rparr>)\<rparr>);
       if Notify then CoreNotifyProtocolEntry Protocol s else Some s } }"

text \<open>\<open>UserHandle\<close> is the value it points to; the result has the value it is left with.\<close>

definition CoreInstallProtocolInterfaceNotify ::
    "hand_services \<Rightarrow> EFI_HANDLE option \<Rightarrow> EFI_GUID option \<Rightarrow> bool \<Rightarrow> UINTN \<Rightarrow> bool \<Rightarrow> hand_db \<Rightarrow>
     (EFI_STATUS \<times> EFI_HANDLE option \<times> hand_db) option" where
  "CoreInstallProtocolInterfaceNotify sv UserHandle Protocol native Interface Notify s =
     (case (UserHandle, Protocol) of
        (Some uh, Some g) \<Rightarrow>
          if \<not> native then Some (EFI_INVALID_PARAMETER, UserHandle, s)
          else do {
            (Status, _, s) \<leftarrow> (if uh \<noteq> NULL then CoreHandleProtocol sv uh (Some g) True s
                               else Some (EFI_OUT_OF_RESOURCES, None, s));
            if uh \<noteq> NULL \<and> \<not> EFI_ERROR Status then Some (EFI_INVALID_PARAMETER, UserHandle, s)
            else do {
              s \<leftarrow> CoreAcquireProtocolLock s;
              (ProtEntry, s) \<leftarrow> CoreFindProtocolEntry g True s;
              (Status, h, s) \<leftarrow>
                (if ProtEntry = None then Some (Status, NULL, s)
                 else let (p, s) = hand_alloc (\<lambda>a. prots s a \<noteq> None) s in
                   if p = NULL then Some (EFI_OUT_OF_RESOURCES, NULL, s)
                   else do {
                     (Status, h, s) \<leftarrow> install_handle uh s;
                     if EFI_ERROR Status then Some (Status, h, s)
                     else do {
                       s \<leftarrow> install_prot h p g Interface Notify s;
                       Some (EFI_SUCCESS, h, s) } });
              s \<leftarrow> CoreReleaseProtocolLock sv s;
              Some (Status, if EFI_ERROR Status then UserHandle else Some h, s) } }
      | _ \<Rightarrow> Some (EFI_INVALID_PARAMETER, UserHandle, s))"

definition CoreInstallProtocolInterface ::
    "hand_services \<Rightarrow> EFI_HANDLE option \<Rightarrow> EFI_GUID option \<Rightarrow> bool \<Rightarrow> UINTN \<Rightarrow> hand_db \<Rightarrow>
     (EFI_STATUS \<times> EFI_HANDLE option \<times> hand_db) option" where
  "CoreInstallProtocolInterface sv UserHandle Protocol native Interface s =
     CoreInstallProtocolInterfaceNotify sv UserHandle Protocol native Interface True s"

section \<open>Uninstalling\<close>

partial_function (option) disconnect_loop ::
    "hand_services \<Rightarrow> EFI_HANDLE \<Rightarrow> UINTN \<Rightarrow> EFI_STATUS \<Rightarrow> hand_db \<Rightarrow> (EFI_STATUS \<times> hand_db) option" where
  "disconnect_loop sv UserHandle p Status s = do {
     agent \<leftarrow> first_driver p s;
     if agent = None then Some (Status, s)
     else do {
       s \<leftarrow> CoreReleaseProtocolLock sv s;
       (Status, s) \<leftarrow> Disconnect sv UserHandle (the agent) NULL s;
       s \<leftarrow> CoreAcquireProtocolLock s;
       if EFI_ERROR Status then Some (Status, s)
       else disconnect_loop sv UserHandle p Status s } }"

definition by_lookup :: "OPEN_PROTOCOL_DATA \<Rightarrow> bool" where
  "by_lookup OpenData \<longleftrightarrow>
     Attributes OpenData AND (EFI_OPEN_PROTOCOL_BY_HANDLE_PROTOCOL OR EFI_OPEN_PROTOCOL_GET_PROTOCOL
       OR EFI_OPEN_PROTOCOL_TEST_PROTOCOL) \<noteq> 0"

definition CoreDisconnectControllersUsingProtocolInterface ::
    "hand_services \<Rightarrow> EFI_HANDLE \<Rightarrow> UINTN \<Rightarrow> hand_db \<Rightarrow> (EFI_STATUS \<times> hand_db) option" where
  "CoreDisconnectControllersUsingProtocolInterface sv UserHandle p s = do {
     (Status, s) \<leftarrow> disconnect_loop sv UserHandle p EFI_SUCCESS s;
     s \<leftarrow> (if EFI_ERROR Status then Some s
           else upd_prot p (\<lambda>Prot. Prot\<lparr>
                  OpenList := filter (\<lambda>d. \<not> by_lookup d) (OpenList Prot),
                  OpenListCount := OpenListCount Prot - of_nat (length (filter by_lookup (OpenList Prot)))\<rparr>) s);
     Prot \<leftarrow> prots s p;
     if EFI_ERROR Status \<or> 0 < OpenListCount Prot
     then do {
       s \<leftarrow> CoreReleaseProtocolLock sv s;
       (_, s) \<leftarrow> Connect sv UserHandle None None True s;
       s \<leftarrow> CoreAcquireProtocolLock s;
       Some (EFI_ACCESS_DENIED, s) }
     else Some (Status, s) }"

text \<open>The interface is taken off the handle, and the handle freed with its last interface.\<close>

definition drop_prot :: "EFI_HANDLE \<Rightarrow> UINTN \<Rightarrow> hand_db \<Rightarrow> hand_db option" where
  "drop_prot h p s = do {
     let k = gHandleDatabaseKey s + 1;
     H \<leftarrow> handles s h;
     Some (s\<lparr>gHandleDatabaseKey := k,
             handles := (handles s)(h \<mapsto> H\<lparr>Key := k, Protocols := remove1 p (Protocols H)\<rparr>),
             prots := (prots s)(p := None)\<rparr>) }"

definition free_handle :: "EFI_HANDLE \<Rightarrow> hand_db \<Rightarrow> hand_db option" where
  "free_handle h s = do {
     H \<leftarrow> handles s h;
     if Protocols H \<noteq> [] then Some s
     else do {
       l \<leftarrow> gOrderedHandleList s;
       if h \<notin> set l then None
       else Some (s\<lparr>gOrderedHandleList := Some (remove1 h l),
                    gHandleList := remove1 h (gHandleList s),
                    handles := (handles s)(h := None)\<rparr>) } }"

definition CoreUninstallProtocolInterface ::
    "hand_services \<Rightarrow> EFI_HANDLE \<Rightarrow> EFI_GUID option \<Rightarrow> UINTN \<Rightarrow> hand_db \<Rightarrow> (EFI_STATUS \<times> hand_db) option" where
  "CoreUninstallProtocolInterface sv UserHandle Protocol Interface s =
     (case Protocol of
        None \<Rightarrow> Some (EFI_INVALID_PARAMETER, s)
      | Some g \<Rightarrow> do {
          s \<leftarrow> CoreAcquireProtocolLock s;
          Status \<leftarrow> CoreValidateHandle UserHandle s;
          (Status, s) \<leftarrow>
            (if EFI_ERROR Status then Some (Status, s)
             else do {
               Prot \<leftarrow> CoreFindProtocolInterface UserHandle g Interface s;
               case Prot of
                 None \<Rightarrow> Some (EFI_NOT_FOUND, s)
               | Some p \<Rightarrow> do {
                   (Status, s) \<leftarrow> CoreDisconnectControllersUsingProtocolInterface sv UserHandle p s;
                   if EFI_ERROR Status then Some (Status, s)
                   else do {
                     (Prot, s) \<leftarrow> CoreRemoveInterfaceFromProtocol UserHandle g Interface s;
                     (Status, s) \<leftarrow>
                       (case Prot of
                          None \<Rightarrow> Some (EFI_NOT_FOUND, s)
                        | Some p \<Rightarrow> do { s \<leftarrow> drop_prot UserHandle p s; Some (EFI_SUCCESS, s) });
                     s \<leftarrow> free_handle UserHandle s;
                     Some (Status, s) } } });
          s \<leftarrow> CoreReleaseProtocolLock sv s;
          Some (Status, s) })"

definition CoreReinstallProtocolInterface ::
    "hand_services \<Rightarrow> EFI_HANDLE \<Rightarrow> EFI_GUID option \<Rightarrow> UINTN \<Rightarrow> UINTN \<Rightarrow> hand_db \<Rightarrow> (EFI_STATUS \<times> hand_db) option" where
  "CoreReinstallProtocolInterface sv UserHandle Protocol OldInterface NewInterface s =
     (case Protocol of
        None \<Rightarrow> Some (EFI_INVALID_PARAMETER, s)
      | Some g \<Rightarrow> do {
          s \<leftarrow> CoreAcquireProtocolLock s;
          Status \<leftarrow> CoreValidateHandle UserHandle s;
          (Status, s) \<leftarrow>
            (if EFI_ERROR Status then Some (Status, s)
             else do {
               Prot \<leftarrow> CoreFindProtocolInterface UserHandle g OldInterface s;
               case Prot of
                 None \<Rightarrow> Some (EFI_NOT_FOUND, s)
               | Some p \<Rightarrow> do {
                   (Status, s) \<leftarrow> CoreDisconnectControllersUsingProtocolInterface sv UserHandle p s;
                   if EFI_ERROR Status then Some (Status, s)
                   else do {
                     (Prot, s) \<leftarrow> CoreRemoveInterfaceFromProtocol UserHandle g OldInterface s;
                     case Prot of
                       None \<Rightarrow> Some (EFI_NOT_FOUND, s)
                     | Some p \<Rightarrow> do {
                         s \<leftarrow> upd_prot p (\<lambda>Prot. Prot\<lparr>Prot_Interface := NewInterface\<rparr>) s;
                         let s = upd_entry g (\<lambda>e. e\<lparr>Entry_Protocols := Entry_Protocols e @ [p]\<rparr>) s;
                         let k = gHandleDatabaseKey s + 1;
                         H \<leftarrow> handles s UserHandle;
                         let s = s\<lparr>gHandleDatabaseKey := k, handles := (handles s)(UserHandle \<mapsto> H\<lparr>Key := k\<rparr>)\<rparr>;
                         s \<leftarrow> CoreReleaseProtocolLock sv s;
                         (_, s) \<leftarrow> Connect sv UserHandle None None True s;
                         s \<leftarrow> CoreAcquireProtocolLock s;
                         s \<leftarrow> CoreNotifyProtocolEntry g s;
                         Some (EFI_SUCCESS, s) } } } });
          s \<leftarrow> CoreReleaseProtocolLock sv s;
          Some (Status, s) })"

section \<open>Groups\<close>

text \<open>\<open>CoreRaiseTpl (TPL_NOTIFY)\<close> and \<open>CoreRestoreTpl\<close>, as far as the database sees them.\<close>

definition raise_notify :: "hand_db \<Rightarrow> (nat \<times> hand_db) option" where
  "raise_notify s =
     (if TPL_NOTIFY_LOCK < CurrentTpl s then None
      else Some (CurrentTpl s, s\<lparr>CurrentTpl := TPL_NOTIFY_LOCK\<rparr>))"

definition restore_notify :: "hand_services \<Rightarrow> nat \<Rightarrow> hand_db \<Rightarrow> hand_db option" where
  "restore_notify sv OldTpl s =
     (if CurrentTpl s < OldTpl then None else Yield sv (s\<lparr>CurrentTpl := OldTpl\<rparr>))"

text \<open>The variable arguments are the list of the pairs before the closing \<open>NULL\<close>.  \<open>install_all\<close>
  returns the pairs it has installed, \<open>uninstall_all\<close> those it has uninstalled.\<close>

fun install_all ::
    "hand_services \<Rightarrow> (EFI_GUID \<times> UINTN) list \<Rightarrow> (EFI_GUID \<times> UINTN) list \<Rightarrow> EFI_HANDLE option \<Rightarrow> hand_db \<Rightarrow>
     (EFI_STATUS \<times> (EFI_GUID \<times> UINTN) list \<times> EFI_HANDLE option \<times> hand_db) option" where
  "install_all sv [] done Handle s = Some (EFI_SUCCESS, done, Handle, s)"
| "install_all sv ((g, i) # args) done Handle s = do {
     (dup, s) \<leftarrow> (if g = gEfiDevicePathProtocolGuid then IsDevicePathInstalled sv i s else Some (False, s));
     if dup then Some (EFI_ALREADY_STARTED, done, Handle, s)
     else do {
       (Status, Handle, s) \<leftarrow> CoreInstallProtocolInterface sv Handle (Some g) True i s;
       if EFI_ERROR Status then Some (Status, done, Handle, s)
       else install_all sv args (done @ [(g, i)]) Handle s } }"

fun uninstall_each :: "hand_services \<Rightarrow> (EFI_GUID \<times> UINTN) list \<Rightarrow> EFI_HANDLE \<Rightarrow> hand_db \<Rightarrow> hand_db option" where
  "uninstall_each sv [] h s = Some s"
| "uninstall_each sv ((g, i) # args) h s = do {
     (_, s) \<leftarrow> CoreUninstallProtocolInterface sv h (Some g) i s;
     uninstall_each sv args h s }"

definition CoreInstallMultipleProtocolInterfaces ::
    "hand_services \<Rightarrow> EFI_HANDLE option \<Rightarrow> (EFI_GUID \<times> UINTN) list \<Rightarrow> hand_db \<Rightarrow>
     (EFI_STATUS \<times> EFI_HANDLE option \<times> hand_db) option" where
  "CoreInstallMultipleProtocolInterfaces sv OldHandle args s =
     (case OldHandle of
        None \<Rightarrow> Some (EFI_INVALID_PARAMETER, None, s)
      | Some _ \<Rightarrow> do {
          (OldTpl, s) \<leftarrow> raise_notify s;
          (Status, done, Handle, s) \<leftarrow> install_all sv args [] OldHandle s;
          (Handle, s) \<leftarrow>
            (if EFI_ERROR Status then do {
               h \<leftarrow> Handle;
               s \<leftarrow> uninstall_each sv done h s;
               Some (OldHandle, s) }
             else Some (Handle, s));
          s \<leftarrow> restore_notify sv OldTpl s;
          Some (Status, Handle, s) })"

fun uninstall_all ::
    "hand_services \<Rightarrow> (EFI_GUID \<times> UINTN) list \<Rightarrow> (EFI_GUID \<times> UINTN) list \<Rightarrow> EFI_HANDLE \<Rightarrow> hand_db \<Rightarrow>
     (EFI_STATUS \<times> (EFI_GUID \<times> UINTN) list \<times> hand_db) option" where
  "uninstall_all sv [] done h s = Some (EFI_SUCCESS, done, s)"
| "uninstall_all sv ((g, i) # args) done h s = do {
     (Status, s) \<leftarrow> CoreUninstallProtocolInterface sv h (Some g) i s;
     if EFI_ERROR Status then Some (Status, done, s)
     else uninstall_all sv args (done @ [(g, i)]) h s }"

fun install_each ::
    "hand_services \<Rightarrow> (EFI_GUID \<times> UINTN) list \<Rightarrow> EFI_HANDLE option \<Rightarrow> hand_db \<Rightarrow> (EFI_HANDLE option \<times> hand_db) option" where
  "install_each sv [] Handle s = Some (Handle, s)"
| "install_each sv ((g, i) # args) Handle s = do {
     (_, Handle, s) \<leftarrow> CoreInstallProtocolInterface sv Handle (Some g) True i s;
     install_each sv args Handle s }"

definition CoreUninstallMultipleProtocolInterfaces ::
    "hand_services \<Rightarrow> EFI_HANDLE \<Rightarrow> (EFI_GUID \<times> UINTN) list \<Rightarrow> hand_db \<Rightarrow> (EFI_STATUS \<times> hand_db) option" where
  "CoreUninstallMultipleProtocolInterfaces sv Handle args s = do {
     (Status, done, s) \<leftarrow> uninstall_all sv args [] Handle s;
     if EFI_ERROR Status then do {
       (_, s) \<leftarrow> install_each sv done (Some Handle) s;
       Some (EFI_INVALID_PARAMETER, s) }
     else Some (Status, s) }"

section \<open>Connecting what has changed\<close>

fun newer_handles :: "UINT64 \<Rightarrow> EFI_HANDLE list \<Rightarrow> hand_db \<Rightarrow> EFI_HANDLE list option" where
  "newer_handles k [] s = Some []"
| "newer_handles k (h # hs) s = do {
     H \<leftarrow> handles s h;
     r \<leftarrow> newer_handles k hs s;
     Some (if k < Key H then h # r else r) }"

fun connect_each :: "hand_services \<Rightarrow> EFI_HANDLE list \<Rightarrow> hand_db \<Rightarrow> hand_db option" where
  "connect_each sv [] s = Some s"
| "connect_each sv (h # hs) s = do {
     (_, s) \<leftarrow> Connect sv h None None True s;
     connect_each sv hs s }"

definition CoreConnectHandlesByKey :: "hand_services \<Rightarrow> UINT64 \<Rightarrow> hand_db \<Rightarrow> hand_db option" where
  "CoreConnectHandlesByKey sv k s = do {
     s \<leftarrow> CoreAcquireProtocolLock s;
     HandleBuffer \<leftarrow> newer_handles k (gHandleList s) s;
     let (a, s) = hand_alloc (\<lambda>_. False) s;
     s \<leftarrow> CoreReleaseProtocolLock sv s;
     if a = NULL then Some s else connect_each sv HandleBuffer s }"

end
