(* ===== verification/Hand_Locate.thy ===== *)
theory Hand_Locate
  imports Hand_Install
begin

text \<open>
  Searching the handle database, \<^verbatim>\<open>MdeModulePkg/Core/Dxe/Hand/Locate.c\<close>.  A \<open>LOCATE_POSITION\<close> is its
  search key and its link; a handle that is not found is \<open>NULL\<close>.
\<close>

datatype EFI_LOCATE_SEARCH_TYPE = AllHandles | ByRegisterNotify | ByProtocol | OtherSearchType

record LOCATE_POSITION =
  SearchKey :: UINTN
  Position :: "UINTN option"
  ProtEntry :: EFI_GUID

section \<open>Stepping\<close>

definition CoreGetNextLocateAllHandles :: "LOCATE_POSITION \<Rightarrow> hand_db \<Rightarrow> (EFI_HANDLE \<times> UINTN \<times> LOCATE_POSITION \<times> hand_db) option" where
  "CoreGetNextLocateAllHandles pos s = do {
     l \<leftarrow> list_next (gHandleList s) (Position pos);
     case l of
       None \<Rightarrow> Some (NULL, NULL, pos\<lparr>Position := None\<rparr>, s)
     | Some h \<Rightarrow> do {
         _ \<leftarrow> handles s h;
         Some (h, NULL, pos\<lparr>Position := Some h\<rparr>, s) } }"

definition CoreGetNextLocateByRegisterNotify ::
    "LOCATE_POSITION \<Rightarrow> hand_db \<Rightarrow> (EFI_HANDLE \<times> UINTN \<times> LOCATE_POSITION \<times> hand_db) option" where
  "CoreGetNextLocateByRegisterNotify pos s =
     (if SearchKey pos = NULL then Some (NULL, NULL, pos, s)
      else do {
        ProtNotify \<leftarrow> notifies s (SearchKey pos);
        e \<leftarrow> find_entry (Notify_Protocol ProtNotify) s;
        Link \<leftarrow> list_next (Entry_Protocols e) (Notify_Position ProtNotify);
        case Link of
          None \<Rightarrow> Some (NULL, NULL, pos\<lparr>SearchKey := NULL\<rparr>, s)
        | Some p \<Rightarrow> do {
            Prot \<leftarrow> prots s p;
            Some (Prot_Handle Prot, Prot_Interface Prot, pos\<lparr>SearchKey := NULL\<rparr>, s) } })"

text \<open>The loop skips the interfaces whose handle has been returned for this request; \<open>i\<close> is what
  \<open>*Interface\<close> holds.\<close>

partial_function (option) next_by_protocol ::
    "UINTN \<Rightarrow> LOCATE_POSITION \<Rightarrow> hand_db \<Rightarrow> (EFI_HANDLE \<times> UINTN \<times> LOCATE_POSITION \<times> hand_db) option" where
  "next_by_protocol i pos s = do {
     e \<leftarrow> find_entry (ProtEntry pos) s;
     Link \<leftarrow> list_next (Entry_Protocols e) (Position pos);
     let pos = pos\<lparr>Position := Link\<rparr>;
     if Link = None then Some (NULL, i, pos, s)
     else do {
       Prot \<leftarrow> prots s (the Link);
       H \<leftarrow> handles s (Prot_Handle Prot);
       if LocateRequest H \<noteq> mEfiLocateHandleRequest s
       then Some (Prot_Handle Prot, Prot_Interface Prot, pos,
         s\<lparr>handles := (handles s)(Prot_Handle Prot \<mapsto> H\<lparr>LocateRequest := mEfiLocateHandleRequest s\<rparr>)\<rparr>)
       else next_by_protocol (Prot_Interface Prot) pos s } }"

definition CoreGetNextLocateByProtocol ::
    "LOCATE_POSITION \<Rightarrow> hand_db \<Rightarrow> (EFI_HANDLE \<times> UINTN \<times> LOCATE_POSITION \<times> hand_db) option" where
  "CoreGetNextLocateByProtocol pos s = next_by_protocol NULL pos s"

text \<open>\<open>ProtNotify->Position = ProtNotify->Position->ForwardLink\<close>.\<close>

definition advance_notify :: "UINTN \<Rightarrow> hand_db \<Rightarrow> hand_db option" where
  "advance_notify n s = do {
     ProtNotify \<leftarrow> notifies s n;
     e \<leftarrow> find_entry (Notify_Protocol ProtNotify) s;
     Link \<leftarrow> list_next (Entry_Protocols e) (Notify_Position ProtNotify);
     Some (s\<lparr>notifies := (notifies s)(n \<mapsto> ProtNotify\<lparr>Notify_Position := Link\<rparr>)\<rparr>) }"

section \<open>Searching for handles\<close>

text \<open>The enumeration: the size of the result so far, and the handles that fit the buffer.\<close>

partial_function (option) locate_loop ::
    "(LOCATE_POSITION \<Rightarrow> hand_db \<Rightarrow> (EFI_HANDLE \<times> UINTN \<times> LOCATE_POSITION \<times> hand_db) option) \<Rightarrow>
     UINTN \<Rightarrow> UINTN \<Rightarrow> EFI_HANDLE list \<Rightarrow> LOCATE_POSITION \<Rightarrow> hand_db \<Rightarrow> (UINTN \<times> EFI_HANDLE list \<times> hand_db) option" where
  "locate_loop GetNext BufferSize ResultSize Result pos s = do {
     (h, _, pos, s) \<leftarrow> GetNext pos s;
     if h = NULL then Some (ResultSize, Result, s)
     else do {
       let ResultSize = ResultSize + 8;
       locate_loop GetNext BufferSize ResultSize
         (if ResultSize \<le> BufferSize then Result @ [h] else Result) pos s } }"

text \<open>\<open>BufferSize\<close> and \<open>Buffer\<close> are never \<open>NULL\<close> together with a positive size in the calls below; the
  result is the status, the size and the contents of the buffer.\<close>

definition locate_start :: "EFI_LOCATE_SEARCH_TYPE \<Rightarrow> EFI_GUID option \<Rightarrow> UINTN \<Rightarrow> hand_db \<Rightarrow> (EFI_STATUS \<times> LOCATE_POSITION) option" where
  "locate_start SearchType Protocol Search s =
     (case SearchType of
        AllHandles \<Rightarrow> Some (EFI_SUCCESS, \<lparr>SearchKey = Search, Position = None, ProtEntry = []\<rparr>)
      | ByRegisterNotify \<Rightarrow>
          Some (if Search = NULL then EFI_INVALID_PARAMETER else EFI_SUCCESS,
                \<lparr>SearchKey = Search, Position = None, ProtEntry = []\<rparr>)
      | ByProtocol \<Rightarrow>
          (case Protocol of
             None \<Rightarrow> Some (EFI_INVALID_PARAMETER, \<lparr>SearchKey = Search, Position = None, ProtEntry = []\<rparr>)
           | Some g \<Rightarrow> do {
               (e, _) \<leftarrow> CoreFindProtocolEntry g False s;
               Some (if e = None then EFI_NOT_FOUND else EFI_SUCCESS,
                     \<lparr>SearchKey = Search, Position = None, ProtEntry = g\<rparr>) })
      | OtherSearchType \<Rightarrow> Some (EFI_INVALID_PARAMETER, \<lparr>SearchKey = Search, Position = None, ProtEntry = []\<rparr>))"

definition InternalCoreLocateHandle ::
    "EFI_LOCATE_SEARCH_TYPE \<Rightarrow> EFI_GUID option \<Rightarrow> UINTN \<Rightarrow> UINTN \<Rightarrow> bool \<Rightarrow> hand_db \<Rightarrow>
     (EFI_STATUS \<times> UINTN \<times> EFI_HANDLE list \<times> hand_db) option" where
  "InternalCoreLocateHandle SearchType Protocol Search BufferSize has_Buffer s =
     (if 0 < BufferSize \<and> \<not> has_Buffer then Some (EFI_INVALID_PARAMETER, BufferSize, [], s)
      else do {
        (Status, pos) \<leftarrow> locate_start SearchType Protocol Search s;
        if EFI_ERROR Status then Some (Status, BufferSize, [], s)
        else do {
          let s = s\<lparr>mEfiLocateHandleRequest := mEfiLocateHandleRequest s + 1\<rparr>;
          (ResultSize, Result, s) \<leftarrow>
            locate_loop
              (case SearchType of
                 ByProtocol \<Rightarrow> CoreGetNextLocateByProtocol
               | ByRegisterNotify \<Rightarrow> CoreGetNextLocateByRegisterNotify
               | _ \<Rightarrow> CoreGetNextLocateAllHandles) BufferSize 0 [] pos s;
          if ResultSize = 0 then Some (EFI_NOT_FOUND, BufferSize, Result, s)
          else do {
            let Status = (if BufferSize < ResultSize then EFI_BUFFER_TOO_SMALL else EFI_SUCCESS);
            s \<leftarrow> (if SearchType = ByRegisterNotify \<and> \<not> EFI_ERROR Status then advance_notify Search s
                  else Some s);
            Some (Status, ResultSize, Result, s) } } })"

text \<open>\<open>has_Size\<close> is false when \<open>BufferSize\<close> is \<open>NULL\<close>.\<close>

definition CoreLocateHandle ::
    "hand_services \<Rightarrow> EFI_LOCATE_SEARCH_TYPE \<Rightarrow> EFI_GUID option \<Rightarrow> UINTN \<Rightarrow> bool \<Rightarrow> UINTN \<Rightarrow> bool \<Rightarrow> hand_db \<Rightarrow>
     (EFI_STATUS \<times> UINTN \<times> EFI_HANDLE list \<times> hand_db) option" where
  "CoreLocateHandle sv SearchType Protocol Search has_Size BufferSize has_Buffer s = do {
     s \<leftarrow> CoreAcquireProtocolLock s;
     (Status, Size, Result, s) \<leftarrow>
       (if \<not> has_Size then Some (EFI_INVALID_PARAMETER, BufferSize, [], s)
        else InternalCoreLocateHandle SearchType Protocol Search BufferSize has_Buffer s);
     s \<leftarrow> CoreReleaseProtocolLock sv s;
     Some (Status, Size, Result, s) }"

text \<open>The result is the status, \<open>*NumberHandles\<close> and \<open>*Buffer\<close>, \<^const>\<open>None\<close> when that is \<open>NULL\<close>.\<close>

definition CoreLocateHandleBuffer ::
    "hand_services \<Rightarrow> EFI_LOCATE_SEARCH_TYPE \<Rightarrow> EFI_GUID option \<Rightarrow> UINTN \<Rightarrow> bool \<Rightarrow> hand_db \<Rightarrow>
     (EFI_STATUS \<times> UINTN \<times> EFI_HANDLE list option \<times> hand_db) option" where
  "CoreLocateHandleBuffer sv SearchType Protocol Search has_Outs s =
     (if \<not> has_Outs then Some (EFI_INVALID_PARAMETER, 0, None, s)
      else do {
        s \<leftarrow> CoreAcquireProtocolLock s;
        (Status, BufferSize, _, s) \<leftarrow> InternalCoreLocateHandle SearchType Protocol Search 0 False s;
        if EFI_ERROR Status \<and> Status \<noteq> EFI_BUFFER_TOO_SMALL then do {
          s \<leftarrow> CoreReleaseProtocolLock sv s;
          Some (if Status \<noteq> EFI_INVALID_PARAMETER then EFI_NOT_FOUND else Status, 0, None, s) }
        else do {
          let (a, s) = hand_alloc (\<lambda>_. False) s;
          if a = NULL then do {
            s \<leftarrow> CoreReleaseProtocolLock sv s;
            Some (EFI_OUT_OF_RESOURCES, 0, None, s) }
          else do {
            (Status, BufferSize, Result, s) \<leftarrow>
              InternalCoreLocateHandle SearchType Protocol Search BufferSize True s;
            s \<leftarrow> CoreReleaseProtocolLock sv s;
            if EFI_ERROR Status then Some (Status, 0, None, s)
            else Some (Status, BufferSize div 8, Some Result, s) } } })"

section \<open>Searching for an interface\<close>

text \<open>\<open>CoreAcquireLockOrFail\<close> refuses a lock that is held.\<close>

definition CoreLocateProtocol ::
    "hand_services \<Rightarrow> EFI_GUID option \<Rightarrow> UINTN \<Rightarrow> bool \<Rightarrow> hand_db \<Rightarrow> (EFI_STATUS \<times> UINTN option \<times> hand_db) option" where
  "CoreLocateProtocol sv Protocol Registration has_Interface s =
     (case Protocol of
        None \<Rightarrow> Some (EFI_INVALID_PARAMETER, None, s)
      | Some g \<Rightarrow>
          if \<not> has_Interface then Some (EFI_INVALID_PARAMETER, None, s)
          else if locked s then Some (EFI_NOT_FOUND, Some NULL, s)
          else do {
            s \<leftarrow> CoreAcquireProtocolLock s;
            let s = s\<lparr>mEfiLocateHandleRequest := mEfiLocateHandleRequest s + 1\<rparr>;
            (h, Interface, s) \<leftarrow>
              (if Registration = NULL then do {
                 (e, s) \<leftarrow> CoreFindProtocolEntry g False s;
                 if e = None then Some (NULL, NULL, s)
                 else do {
                   (h, i, _, s) \<leftarrow> CoreGetNextLocateByProtocol
                     \<lparr>SearchKey = Registration, Position = None, ProtEntry = g\<rparr> s;
                   Some (h, i, s) } }
               else do {
                 (h, i, _, s) \<leftarrow> CoreGetNextLocateByRegisterNotify
                   \<lparr>SearchKey = Registration, Position = None, ProtEntry = []\<rparr> s;
                 Some (h, i, s) });
            s \<leftarrow> (if h \<noteq> NULL \<and> Registration \<noteq> NULL then advance_notify Registration s else Some s);
            s \<leftarrow> CoreReleaseProtocolLock sv s;
            Some (if h = NULL then EFI_NOT_FOUND else EFI_SUCCESS, Some Interface, s) })"

section \<open>Searching for a device path\<close>

text \<open>The end of the first instance of the path.\<close>

partial_function (option) instance_end :: "UINT8 list \<Rightarrow> nat \<Rightarrow> nat option" where
  "instance_end path off = do {
     e \<leftarrow> IsDevicePathEnd path off;
     if e then Some off
     else do {
       i \<leftarrow> IsDevicePathEndInstance path off;
       if i then Some off
       else do {
         off \<leftarrow> NextDevicePathNode path off;
         instance_end path off } } }"

fun best_match ::
    "hand_services \<Rightarrow> UINT8 list \<Rightarrow> int \<Rightarrow> EFI_HANDLE list \<Rightarrow> int \<Rightarrow> EFI_HANDLE \<Rightarrow> hand_db \<Rightarrow>
     (int \<times> EFI_HANDLE \<times> hand_db) option" where
  "best_match sv SourcePath SourceSize [] BestMatch BestDevice s = Some (BestMatch, BestDevice, s)"
| "best_match sv SourcePath SourceSize (h # hs) BestMatch BestDevice s = do {
     (Status, r, s) \<leftarrow> CoreHandleProtocol sv h (Some gEfiDevicePathProtocolGuid) True s;
     if EFI_ERROR Status then best_match sv SourcePath SourceSize hs BestMatch BestDevice s
     else do {
       i \<leftarrow> r;
       n \<leftarrow> GetDevicePathSize (PcdNodes sv) (path_at sv i);
       let Size = int n - 4;
       if Size < 0 then None
       else do {
         match \<leftarrow> (if Size \<le> SourceSize then CompareMem SourcePath (Memory sv i) (nat Size) else Some False);
         if \<not> match then best_match sv SourcePath SourceSize hs BestMatch BestDevice s
         else if Size = BestMatch then None
         else if BestMatch < Size then best_match sv SourcePath SourceSize hs Size h s
         else best_match sv SourcePath SourceSize hs BestMatch BestDevice s } } }"

text \<open>The result is the status, the new \<open>*DevicePath\<close> as an offset, and \<open>*Device\<close>.\<close>

definition CoreLocateDevicePath ::
    "hand_services \<Rightarrow> EFI_GUID option \<Rightarrow> dp_ptr \<Rightarrow> bool \<Rightarrow> hand_db \<Rightarrow>
     (EFI_STATUS \<times> nat option \<times> EFI_HANDLE option \<times> hand_db) option" where
  "CoreLocateDevicePath sv Protocol DevicePath has_Device s =
     (case (Protocol, DevicePath) of
        (Some g, Some SourcePath) \<Rightarrow> do {
          SourceSize \<leftarrow> instance_end SourcePath 0;
          (Status, HandleCount, Handles, s) \<leftarrow> CoreLocateHandleBuffer sv ByProtocol (Some g) NULL True s;
          if EFI_ERROR Status \<or> HandleCount = 0 then Some (EFI_NOT_FOUND, None, None, s)
          else do {
            hs \<leftarrow> Handles;
            (BestMatch, BestDevice, s) \<leftarrow> best_match sv SourcePath (int SourceSize) hs (-1) NULL s;
            if BestMatch = -1 then Some (EFI_NOT_FOUND, None, None, s)
            else if \<not> has_Device then Some (EFI_INVALID_PARAMETER, None, None, s)
            else Some (EFI_SUCCESS, Some (nat BestMatch), Some BestDevice, s) } }
      | _ \<Rightarrow> Some (EFI_INVALID_PARAMETER, None, None, s))"

end
