(* ===== verification/Driver_Support.thy ===== *)
theory Driver_Support
  imports Hand_Locate
begin

text \<open>
  Connecting drivers to controllers and disconnecting them, \<^verbatim>\<open>DriverSupport.c\<close>, and the knot that
  closes the recursion between these services and those of the handle database.

  Drivers and notification functions are code of other modules.  Here they are programs: for each of
  their entry points, the services it calls in order and the status it returns, as a function of its
  arguments and of the database it finds.
\<close>

section \<open>Programs of the drivers\<close>

definition gEfiDriverBindingProtocolGuid :: EFI_GUID where
  "gEfiDriverBindingProtocolGuid =
     [0xAB, 0x31, 0xA0, 0x18, 0x43, 0xB4, 0x1A, 0x4D, 0xA5, 0xC0, 0x0C, 0x09, 0x26, 0x1E, 0x9F, 0x71]"
definition gEfiPlatformDriverOverrideProtocolGuid :: EFI_GUID where
  "gEfiPlatformDriverOverrideProtocolGuid =
     [0x38, 0xC7, 0x30, 0x6B, 0x91, 0xA3, 0xD4, 0x11, 0x9A, 0x3B, 0x00, 0x90, 0x27, 0x3F, 0xC1, 0x4D]"
definition gEfiDriverFamilyOverrideProtocolGuid :: EFI_GUID where
  "gEfiDriverFamilyOverrideProtocolGuid =
     [0x9E, 0x12, 0xEE, 0xB1, 0x36, 0xDA, 0x81, 0x41, 0x91, 0xF8, 0x04, 0xA4, 0x92, 0x37, 0x66, 0xA7]"
definition gEfiBusSpecificDriverOverrideProtocolGuid :: EFI_GUID where
  "gEfiBusSpecificDriverOverrideProtocolGuid =
     [0x85, 0xB2, 0xC1, 0x3B, 0x15, 0x8A, 0x82, 0x4A, 0xAA, 0xBF, 0x4D, 0x7D, 0x13, 0xFB, 0x32, 0x65]"

datatype hand_call =
    InstallProtocol EFI_HANDLE EFI_GUID UINTN
  | InstallMultiple EFI_HANDLE "(EFI_GUID \<times> UINTN) list"
  | UninstallProtocol EFI_HANDLE EFI_GUID UINTN
  | UninstallMultiple EFI_HANDLE "(EFI_GUID \<times> UINTN) list"
  | ReinstallProtocol EFI_HANDLE EFI_GUID UINTN UINTN
  | OpenProtocol EFI_HANDLE EFI_GUID EFI_HANDLE EFI_HANDLE UINT32
  | CloseProtocol EFI_HANDLE EFI_GUID EFI_HANDLE EFI_HANDLE
  | HandleProtocol EFI_HANDLE EFI_GUID
  | OpenProtocolInformation EFI_HANDLE EFI_GUID
  | ProtocolsPerHandle EFI_HANDLE
  | RegisterProtocolNotify EFI_GUID UINTN
  | UnregisterProtocolNotify UINTN
  | LocateHandleBuffer EFI_LOCATE_SEARCH_TYPE "EFI_GUID option" UINTN
  | LocateProtocol EFI_GUID UINTN
  | LocateDevicePath EFI_GUID "UINT8 list"
  | ConnectHandlesByKey UINT64
  | ConnectController EFI_HANDLE "EFI_HANDLE list option" dp_ptr bool
  | DisconnectController EFI_HANDLE EFI_HANDLE EFI_HANDLE

record DRIVER_BINDING =
  Version :: UINT32
  ImageHandle :: EFI_HANDLE

record driver_programs =
  notification :: "hand_db \<Rightarrow> hand_call list"
  binding :: "UINTN \<Rightarrow> DRIVER_BINDING option"
  supported :: "UINTN \<Rightarrow> EFI_HANDLE \<Rightarrow> dp_ptr \<Rightarrow> hand_db \<Rightarrow> hand_call list \<times> EFI_STATUS"
  start :: "UINTN \<Rightarrow> EFI_HANDLE \<Rightarrow> dp_ptr \<Rightarrow> hand_db \<Rightarrow> hand_call list \<times> EFI_STATUS"
  stop :: "UINTN \<Rightarrow> EFI_HANDLE \<Rightarrow> EFI_HANDLE list \<Rightarrow> hand_db \<Rightarrow> hand_call list \<times> EFI_STATUS"
  platform_driver :: "UINTN \<Rightarrow> EFI_HANDLE \<Rightarrow> EFI_HANDLE \<Rightarrow> hand_db \<Rightarrow> hand_call list \<times> EFI_STATUS \<times> EFI_HANDLE"
  bus_driver :: "UINTN \<Rightarrow> EFI_HANDLE \<Rightarrow> hand_db \<Rightarrow> hand_call list \<times> EFI_STATUS \<times> EFI_HANDLE"
  family_version :: "UINTN \<Rightarrow> UINT32"
  security :: "(UINT8 list \<Rightarrow> hand_db \<Rightarrow> hand_call list \<times> EFI_STATUS) option"
  memory :: "UINTN \<Rightarrow> UINT8 list"
  node_count :: nat

definition hand_call_run :: "hand_services \<Rightarrow> hand_call \<Rightarrow> hand_db \<Rightarrow> hand_db option" where
  "hand_call_run sv c s =
     (case c of
        InstallProtocol h g i \<Rightarrow> map_option (snd \<circ> snd) (CoreInstallProtocolInterface sv (Some h) (Some g) True i s)
      | InstallMultiple h args \<Rightarrow> map_option (snd \<circ> snd) (CoreInstallMultipleProtocolInterfaces sv (Some h) args s)
      | UninstallProtocol h g i \<Rightarrow> map_option snd (CoreUninstallProtocolInterface sv h (Some g) i s)
      | UninstallMultiple h args \<Rightarrow> map_option snd (CoreUninstallMultipleProtocolInterfaces sv h args s)
      | ReinstallProtocol h g old new \<Rightarrow> map_option snd (CoreReinstallProtocolInterface sv h (Some g) old new s)
      | OpenProtocol h g agent controller attr \<Rightarrow>
          map_option (snd \<circ> snd) (CoreOpenProtocol sv h (Some g) True agent controller attr s)
      | CloseProtocol h g agent controller \<Rightarrow> map_option snd (CoreCloseProtocol sv h (Some g) agent controller s)
      | HandleProtocol h g \<Rightarrow> map_option (snd \<circ> snd) (CoreHandleProtocol sv h (Some g) True s)
      | OpenProtocolInformation h g \<Rightarrow> map_option (snd \<circ> snd) (CoreOpenProtocolInformation sv h g s)
      | ProtocolsPerHandle h \<Rightarrow> map_option (snd \<circ> snd) (CoreProtocolsPerHandle sv h True s)
      | RegisterProtocolNotify g e \<Rightarrow> map_option (snd \<circ> snd) (CoreRegisterProtocolNotify sv (Some g) e True s)
      | UnregisterProtocolNotify e \<Rightarrow> map_option snd (CoreUnregisterProtocolNotify sv e s)
      | LocateHandleBuffer t g k \<Rightarrow> map_option (snd \<circ> snd \<circ> snd) (CoreLocateHandleBuffer sv t g k True s)
      | LocateProtocol g r \<Rightarrow> map_option (snd \<circ> snd) (CoreLocateProtocol sv (Some g) r True s)
      | LocateDevicePath g p \<Rightarrow> map_option (snd \<circ> snd \<circ> snd) (CoreLocateDevicePath sv (Some g) (Some p) True s)
      | ConnectHandlesByKey k \<Rightarrow> CoreConnectHandlesByKey sv k s
      | ConnectController h d p r \<Rightarrow> map_option snd (Connect sv h d p r s)
      | DisconnectController h d ch \<Rightarrow> map_option snd (Disconnect sv h d ch s))"

fun run_calls :: "hand_services \<Rightarrow> hand_call list \<Rightarrow> hand_db \<Rightarrow> hand_db option" where
  "run_calls sv [] s = Some s"
| "run_calls sv (c # cs) s = do {
     s \<leftarrow> hand_call_run sv c s;
     run_calls sv cs s }"

definition run_program :: "hand_services \<Rightarrow> hand_call list \<times> 'a \<Rightarrow> hand_db \<Rightarrow> ('a \<times> hand_db) option" where
  "run_program sv p s = map_option (\<lambda>s. (snd p, s)) (run_calls sv (fst p) s)"

section \<open>The sorted list of driver bindings\<close>

text \<open>\<open>SortedDriverBindingProtocols\<close> with the number of its entries, which may run ahead of what fits
  the array, and \<open>DriverBindingHandleBuffer\<close>.\<close>

record sorted_bindings =
  SortedDriverBindingProtocols :: "UINTN list"
  NumberOfSorted :: nat
  DriverBindingHandleBuffer :: "EFI_HANDLE list"

definition handle_is_valid :: "hand_services \<Rightarrow> EFI_HANDLE \<Rightarrow> hand_db \<Rightarrow> (EFI_STATUS \<times> hand_db) option" where
  "handle_is_valid sv h s = do {
     s \<leftarrow> CoreAcquireProtocolLock s;
     Status \<leftarrow> CoreValidateHandle h s;
     s \<leftarrow> CoreReleaseProtocolLock sv s;
     Some (Status, s) }"

text \<open>The interface \<open>CoreHandleProtocol\<close> delivers, \<open>NULL\<close> when it fails.\<close>

definition interface_of :: "hand_services \<Rightarrow> EFI_HANDLE \<Rightarrow> EFI_GUID \<Rightarrow> hand_db \<Rightarrow> (EFI_STATUS \<times> UINTN \<times> hand_db) option" where
  "interface_of sv h g s = do {
     (Status, i, s) \<leftarrow> CoreHandleProtocol sv h (Some g) True s;
     Some (Status, (case i of Some i \<Rightarrow> if EFI_ERROR Status then NULL else i | None \<Rightarrow> NULL), s) }"

text \<open>\<open>AddSortedDriverBindingProtocol\<close> with \<open>IsImageHandle\<close> false.\<close>

definition add_binding ::
    "hand_services \<Rightarrow> EFI_HANDLE \<Rightarrow> sorted_bindings \<Rightarrow> hand_db \<Rightarrow> (sorted_bindings \<times> hand_db) option" where
  "add_binding sv h b s = do {
     (Status, s) \<leftarrow> handle_is_valid sv h s;
     if EFI_ERROR Status then Some (b, s)
     else do {
       (Status, i, s) \<leftarrow> interface_of sv h gEfiDriverBindingProtocolGuid s;
       if EFI_ERROR Status \<or> i = NULL then Some (b, s)
       else if i \<in> set (SortedDriverBindingProtocols b) then Some (b, s)
       else Some (b\<lparr>
         SortedDriverBindingProtocols :=
           (if NumberOfSorted b < length (DriverBindingHandleBuffer b)
            then SortedDriverBindingProtocols b @ [i] else SortedDriverBindingProtocols b),
         NumberOfSorted := NumberOfSorted b + 1,
         DriverBindingHandleBuffer := map (\<lambda>x. if x = h then NULL else x) (DriverBindingHandleBuffer b)\<rparr>, s) } }"

fun add_image_bindings ::
    "hand_services \<Rightarrow> driver_programs \<Rightarrow> EFI_HANDLE \<Rightarrow> nat list \<Rightarrow> sorted_bindings \<Rightarrow> hand_db \<Rightarrow>
     (sorted_bindings \<times> hand_db) option" where
  "add_image_bindings sv pr h [] b s = Some (b, s)"
| "add_image_bindings sv pr h (Index # is) b s = do {
     (Status, i, s) \<leftarrow> interface_of sv (DriverBindingHandleBuffer b ! Index) gEfiDriverBindingProtocolGuid s;
     if EFI_ERROR Status \<or> i = NULL then add_image_bindings sv pr h is b s
     else do {
       DriverBinding \<leftarrow> binding pr i;
       (b, s) \<leftarrow> (if ImageHandle DriverBinding = h
                  then add_binding sv (DriverBindingHandleBuffer b ! Index) b s else Some (b, s));
       add_image_bindings sv pr h is b s } }"

definition AddSortedDriverBindingProtocol ::
    "hand_services \<Rightarrow> driver_programs \<Rightarrow> EFI_HANDLE \<Rightarrow> bool \<Rightarrow> sorted_bindings \<Rightarrow> hand_db \<Rightarrow>
     (sorted_bindings \<times> hand_db) option" where
  "AddSortedDriverBindingProtocol sv pr DriverBindingHandle IsImageHandle b s =
     (if \<not> IsImageHandle then add_binding sv DriverBindingHandle b s
      else do {
        (Status, s) \<leftarrow> handle_is_valid sv DriverBindingHandle s;
        if EFI_ERROR Status then Some (b, s)
        else add_image_bindings sv pr DriverBindingHandle [0..<length (DriverBindingHandleBuffer b)] b s })"

fun add_handles ::
    "hand_services \<Rightarrow> driver_programs \<Rightarrow> EFI_HANDLE list \<Rightarrow> sorted_bindings \<Rightarrow> hand_db \<Rightarrow> (sorted_bindings \<times> hand_db) option" where
  "add_handles sv pr [] b s = Some (b, s)"
| "add_handles sv pr (h # hs) b s = do {
     (b, s) \<leftarrow> AddSortedDriverBindingProtocol sv pr h False b s;
     add_handles sv pr hs b s }"

text \<open>The loop over an override protocol's \<open>GetDriver\<close>: the handle it returned last is its argument.\<close>

partial_function (option) add_override ::
    "hand_services \<Rightarrow> driver_programs \<Rightarrow> (EFI_HANDLE \<Rightarrow> hand_db \<Rightarrow> hand_call list \<times> EFI_STATUS \<times> EFI_HANDLE) \<Rightarrow>
     EFI_HANDLE \<Rightarrow> sorted_bindings \<Rightarrow> hand_db \<Rightarrow> (sorted_bindings \<times> hand_db) option" where
  "add_override sv pr GetDriver DriverImageHandle b s = do {
     ((Status, h), s) \<leftarrow> run_program sv (GetDriver DriverImageHandle s) s;
     if EFI_ERROR Status then Some (b, s)
     else do {
       (b, s) \<leftarrow> AddSortedDriverBindingProtocol sv pr h True b s;
       add_override sv pr GetDriver h b s } }"

text \<open>One pass over the driver family overrides.  \<open>Status\<close> and \<open>i\<close> are left as the last handle of the
  buffer leaves them, and \<open>best\<close> is the highest version with its index.\<close>

fun family_pass ::
    "hand_services \<Rightarrow> driver_programs \<Rightarrow> nat list \<Rightarrow> EFI_HANDLE list \<Rightarrow> EFI_STATUS \<Rightarrow> UINTN \<Rightarrow> (UINT32 \<times> nat) option \<Rightarrow>
     hand_db \<Rightarrow> (EFI_STATUS \<times> UINTN \<times> (UINT32 \<times> nat) option \<times> hand_db) option" where
  "family_pass sv pr [] buf Status i best s = Some (Status, i, best, s)"
| "family_pass sv pr (Index # is) buf Status i best s = do {
     (Status, r, s) \<leftarrow> CoreHandleProtocol sv (buf ! Index) (Some gEfiDriverFamilyOverrideProtocolGuid) True s;
     let i = (case r of Some i \<Rightarrow> i | None \<Rightarrow> i);
     let best =
       (if \<not> EFI_ERROR Status \<and> i \<noteq> NULL then
          (case best of
             None \<Rightarrow> Some (family_version pr i, Index)
           | Some (v, _) \<Rightarrow> if v < family_version pr i then Some (family_version pr i, Index) else best)
        else best);
     family_pass sv pr is buf Status i best s }"

partial_function (option) family_loop ::
    "hand_services \<Rightarrow> driver_programs \<Rightarrow> EFI_STATUS \<Rightarrow> UINTN \<Rightarrow> sorted_bindings \<Rightarrow> hand_db \<Rightarrow>
     (sorted_bindings \<times> hand_db) option" where
  "family_loop sv pr Status i b s =
     (if EFI_ERROR Status \<or> i = NULL then Some (b, s)
      else do {
        (Status, i, best, s) \<leftarrow>
          family_pass sv pr [0..<length (DriverBindingHandleBuffer b)] (DriverBindingHandleBuffer b) Status i None s;
        if best = None then Some (b, s)
        else do {
          (b, s) \<leftarrow> AddSortedDriverBindingProtocol sv pr (DriverBindingHandleBuffer b ! snd (the best)) False b s;
          family_loop sv pr Status i b s } })"

section \<open>Sorting by version\<close>

definition version_at :: "driver_programs \<Rightarrow> UINTN list \<Rightarrow> nat \<Rightarrow> UINT32 option" where
  "version_at pr xs k = (if k < length xs then map_option Version (binding pr (xs ! k)) else None)"

fun highest :: "driver_programs \<Rightarrow> UINTN list \<Rightarrow> nat list \<Rightarrow> UINT32 \<Rightarrow> nat \<Rightarrow> nat option" where
  "highest pr xs [] HighestVersion HighestIndex = Some HighestIndex"
| "highest pr xs (Index # is) HighestVersion HighestIndex = do {
     v \<leftarrow> version_at pr xs Index;
     if HighestVersion < v then highest pr xs is v Index else highest pr xs is HighestVersion HighestIndex }"

fun sort_bindings :: "driver_programs \<Rightarrow> nat list \<Rightarrow> nat \<Rightarrow> UINTN list \<Rightarrow> UINTN list option" where
  "sort_bindings pr [] n xs = Some xs"
| "sort_bindings pr (SortIndex # is) n xs = do {
     v \<leftarrow> version_at pr xs SortIndex;
     HighestIndex \<leftarrow> highest pr xs [SortIndex + 1..<n] v SortIndex;
     sort_bindings pr is n (xs[SortIndex := xs ! HighestIndex, HighestIndex := xs ! SortIndex]) }"

section \<open>Starting the drivers\<close>

text \<open>One pass over the sorted list: whether a driver was found, whether it started, the list with its
  entry cleared.\<close>

fun start_pass ::
    "hand_services \<Rightarrow> driver_programs \<Rightarrow> EFI_HANDLE \<Rightarrow> dp_ptr \<Rightarrow> nat list \<Rightarrow> UINTN list \<Rightarrow> hand_db \<Rightarrow>
     (bool \<times> bool \<times> UINTN list \<times> hand_db) option" where
  "start_pass sv pr c Remaining [] xs s = Some (False, False, xs, s)"
| "start_pass sv pr c Remaining (Index # is) xs s =
     (if length xs \<le> Index then None
      else if xs ! Index = NULL then start_pass sv pr c Remaining is xs s
      else do {
        (Status, s) \<leftarrow> run_program sv (supported pr (xs ! Index) c Remaining s) s;
        if EFI_ERROR Status then start_pass sv pr c Remaining is xs s
        else do {
          (Status, s) \<leftarrow> run_program sv (start pr (xs ! Index) c Remaining s) s;
          Some (True, \<not> EFI_ERROR Status, xs[Index := NULL], s) } })"

partial_function (option) start_loop ::
    "hand_services \<Rightarrow> driver_programs \<Rightarrow> EFI_HANDLE \<Rightarrow> dp_ptr \<Rightarrow> nat \<Rightarrow> bool \<Rightarrow> UINTN list \<Rightarrow> hand_db \<Rightarrow>
     (bool \<times> hand_db) option" where
  "start_loop sv pr c Remaining n OneStarted xs s = do {
     (DriverFound, Started, xs, s) \<leftarrow> start_pass sv pr c Remaining [0..<n] xs s;
     if DriverFound then start_loop sv pr c Remaining n (OneStarted \<or> Started) xs s
     else Some (OneStarted, s) }"

text \<open>The override protocols between the caller's drivers and the remaining ones.\<close>

definition add_overrides ::
    "hand_services \<Rightarrow> driver_programs \<Rightarrow> EFI_HANDLE \<Rightarrow> sorted_bindings \<Rightarrow> hand_db \<Rightarrow> (sorted_bindings \<times> hand_db) option" where
  "add_overrides sv pr c b s = do {
     (Status, i, s) \<leftarrow> CoreLocateProtocol sv (Some gEfiPlatformDriverOverrideProtocolGuid) NULL True s;
     (b, s) \<leftarrow> (if \<not> EFI_ERROR Status \<and> i \<noteq> Some NULL \<and> i \<noteq> None
                then add_override sv pr (platform_driver pr (the i) c) NULL b s else Some (b, s));
     (Status, i, s) \<leftarrow> CoreLocateProtocol sv (Some gEfiDriverFamilyOverrideProtocolGuid) NULL True s;
     (b, s) \<leftarrow> family_loop sv pr Status (case i of Some i \<Rightarrow> i | None \<Rightarrow> NULL) b s;
     (Status, i, s) \<leftarrow> interface_of sv c gEfiBusSpecificDriverOverrideProtocolGuid s;
     if \<not> EFI_ERROR Status \<and> i \<noteq> NULL then add_override sv pr (bus_driver pr i) NULL b s else Some (b, s) }"

fun add_remaining ::
    "hand_services \<Rightarrow> driver_programs \<Rightarrow> nat list \<Rightarrow> sorted_bindings \<Rightarrow> hand_db \<Rightarrow> (sorted_bindings \<times> hand_db) option" where
  "add_remaining sv pr [] b s = Some (b, s)"
| "add_remaining sv pr (Index # is) b s = do {
     (b, s) \<leftarrow> AddSortedDriverBindingProtocol sv pr (DriverBindingHandleBuffer b ! Index) False b s;
     add_remaining sv pr is b s }"

definition CoreConnectSingleController ::
    "hand_services \<Rightarrow> driver_programs \<Rightarrow> EFI_HANDLE \<Rightarrow> EFI_HANDLE list option \<Rightarrow> dp_ptr \<Rightarrow> hand_db \<Rightarrow>
     (EFI_STATUS \<times> hand_db) option" where
  "CoreConnectSingleController sv pr c Context Remaining s = do {
     (Status, Count, Buffer, s) \<leftarrow> CoreLocateHandleBuffer sv ByProtocol (Some gEfiDriverBindingProtocolGuid) NULL True s;
     if EFI_ERROR Status \<or> Count = 0 then Some (EFI_NOT_FOUND, s)
     else do {
       buf \<leftarrow> Buffer;
       let (a, s) = hand_alloc (\<lambda>_. False) s;
       if a = NULL then Some (EFI_OUT_OF_RESOURCES, s)
       else do {
         let b = \<lparr>SortedDriverBindingProtocols = [], NumberOfSorted = 0, DriverBindingHandleBuffer = buf\<rparr>;
         (b, s) \<leftarrow> (case Context of None \<Rightarrow> Some (b, s) | Some hs \<Rightarrow> add_handles sv pr hs b s);
         (b, s) \<leftarrow> add_overrides sv pr c b s;
         let SortIndex = NumberOfSorted b;
         (b, s) \<leftarrow> add_remaining sv pr [0..<length buf] b s;
         (Status, NewCount, _, s) \<leftarrow>
           CoreLocateHandleBuffer sv ByProtocol (Some gEfiDriverBindingProtocolGuid) NULL True s;
         if Count < NewCount then Some (EFI_NOT_READY, s)
         else do {
           let n = NumberOfSorted b;
           xs \<leftarrow> sort_bindings pr [SortIndex..<n] n (SortedDriverBindingProtocols b);
           (OneStarted, s) \<leftarrow> start_loop sv pr c Remaining n False xs s;
           if OneStarted then Some (EFI_SUCCESS, s)
           else do {
             e \<leftarrow> (case Remaining of None \<Rightarrow> Some False | Some path \<Rightarrow> IsDevicePathEnd path 0);
             Some (if e then EFI_SUCCESS else EFI_NOT_FOUND, s) } } } } }"

end
