(* ===== verification/Driver_Connect.thy ===== *)
theory Driver_Connect
  imports Driver_Support
begin

text \<open>
  \<open>CoreConnectController\<close> and \<open>CoreDisconnectController\<close>, and the services of the running system:
  \<open>hand_system\<close> ties the knot between the handle database, the driver model and the programs of the
  drivers, with as many nested calls as its bound.
\<close>

section \<open>The open list of a handle\<close>

fun handle_opens :: "UINTN list \<Rightarrow> hand_db \<Rightarrow> OPEN_PROTOCOL_DATA list option" where
  "handle_opens [] s = Some []"
| "handle_opens (p # ps) s = do {
     Prot \<leftarrow> prots s p;
     ds \<leftarrow> handle_opens ps s;
     Some (OpenList Prot @ ds) }"

text \<open>All of them, read under the lock.\<close>

definition locked_opens :: "hand_services \<Rightarrow> EFI_HANDLE \<Rightarrow> hand_db \<Rightarrow> (OPEN_PROTOCOL_DATA list \<times> hand_db) option" where
  "locked_opens sv h s = do {
     s \<leftarrow> CoreAcquireProtocolLock s;
     H \<leftarrow> handles s h;
     ds \<leftarrow> handle_opens (Protocols H) s;
     s \<leftarrow> CoreReleaseProtocolLock sv s;
     Some (ds, s) }"

definition by_child :: "OPEN_PROTOCOL_DATA \<Rightarrow> bool" where
  "by_child OpenData \<longleftrightarrow> Attributes OpenData AND EFI_OPEN_PROTOCOL_BY_CHILD_CONTROLLER \<noteq> 0"

text \<open>The distinct handles of a list, written to a buffer with room for \<open>n\<close> of them.\<close>

fun fill_distinct :: "nat \<Rightarrow> EFI_HANDLE list \<Rightarrow> EFI_HANDLE list \<Rightarrow> EFI_HANDLE list option" where
  "fill_distinct n buf [] = Some buf"
| "fill_distinct n buf (h # hs) =
     (if h \<in> set buf then fill_distinct n buf hs
      else if length buf < n then fill_distinct n (buf @ [h]) hs
      else None)"

section \<open>Disconnecting\<close>

text \<open>One driver: \<open>DriverBinding\<close> is asked to stop the children, or the one child, and then the
  controller.  The result is the status to leave with, if it leaves, and whether the driver stopped.\<close>

definition stop_driver ::
    "hand_services \<Rightarrow> driver_programs \<Rightarrow> EFI_HANDLE \<Rightarrow> EFI_HANDLE \<Rightarrow> EFI_HANDLE \<Rightarrow> hand_db \<Rightarrow>
     (EFI_STATUS option \<times> bool \<times> hand_db) option" where
  "stop_driver sv pr c Driver Child s = do {
     (Status, i, s) \<leftarrow> interface_of sv Driver gEfiDriverBindingProtocolGuid s;
     if EFI_ERROR Status \<or> i = NULL then Some (Some EFI_INVALID_PARAMETER, False, s)
     else do {
       (ds, s) \<leftarrow> locked_opens sv c s;
       let mine = filter (\<lambda>d. AgentHandle d = Driver) ds;
       let n = length (filter by_child mine);
       if \<not> list_ex by_driver mine then Some (None, False, s)
       else do {
         let (a, s) = (if n = 0 then (1, s) else hand_alloc (\<lambda>_. False) s);
         if a = NULL then Some (Some EFI_OUT_OF_RESOURCES, False, s)
         else do {
           (ChildBuffer, s) \<leftarrow>
             (if n = 0 then Some ([], s)
              else do {
                (ds, s) \<leftarrow> locked_opens sv c s;
                buf \<leftarrow> fill_distinct n []
                  (map ControllerHandle (filter by_child (filter (\<lambda>d. AgentHandle d = Driver) ds)));
                Some (buf, s) });
           if Child \<noteq> NULL \<and> Child \<notin> set ChildBuffer then Some (None, False, s)
           else do {
             (Status, s) \<leftarrow>
               (if ChildBuffer = [] then Some (EFI_SUCCESS, s)
                else run_program sv (stop pr i c (if Child \<noteq> NULL then [Child] else ChildBuffer) s) s);
             (Status, s) \<leftarrow>
               (if \<not> EFI_ERROR Status \<and> (Child = NULL \<or> length ChildBuffer = 1)
                then run_program sv (stop pr i c [] s) s
                else Some (Status, s));
             Some (None, \<not> EFI_ERROR Status, s) } } } } }"

fun stop_drivers ::
    "hand_services \<Rightarrow> driver_programs \<Rightarrow> EFI_HANDLE \<Rightarrow> EFI_HANDLE \<Rightarrow> EFI_HANDLE list \<Rightarrow> nat \<Rightarrow> hand_db \<Rightarrow>
     (EFI_STATUS \<times> hand_db) option" where
  "stop_drivers sv pr c Child [] StopCount s =
     Some (if 0 < StopCount then EFI_SUCCESS else EFI_NOT_FOUND, s)"
| "stop_drivers sv pr c Child (d # ds) StopCount s = do {
     (r, stopped, s) \<leftarrow> stop_driver sv pr c d Child s;
     case r of
       Some Status \<Rightarrow> Some (Status, s)
     | None \<Rightarrow> stop_drivers sv pr c Child ds (if stopped then StopCount + 1 else StopCount) s }"

definition CoreDisconnectController ::
    "hand_services \<Rightarrow> driver_programs \<Rightarrow> EFI_HANDLE \<Rightarrow> EFI_HANDLE \<Rightarrow> EFI_HANDLE \<Rightarrow> hand_db \<Rightarrow>
     (EFI_STATUS \<times> hand_db) option" where
  "CoreDisconnectController sv pr c DriverImageHandle Child s = do {
     s \<leftarrow> CoreAcquireProtocolLock s;
     Status \<leftarrow> CoreValidateHandle c s;
     Status \<leftarrow> (if EFI_ERROR Status \<or> Child = NULL then Some Status else CoreValidateHandle Child s);
     s \<leftarrow> CoreReleaseProtocolLock sv s;
     if EFI_ERROR Status then Some (Status, s)
     else if DriverImageHandle \<noteq> NULL then stop_drivers sv pr c Child [DriverImageHandle] 0 s
     else do {
       (ds, s) \<leftarrow> locked_opens sv c s;
       let n = length (filter by_driver ds);
       if n = 0 then Some (EFI_SUCCESS, s)
       else do {
         let (a, s) = hand_alloc (\<lambda>_. False) s;
         if a = NULL then Some (EFI_OUT_OF_RESOURCES, s)
         else do {
           (ds, s) \<leftarrow> locked_opens sv c s;
           buf \<leftarrow> fill_distinct n [] (map AgentHandle (filter by_driver ds));
           stop_drivers sv pr c Child buf 0 s } } } }"

section \<open>Connecting\<close>

text \<open>The permission to start drivers on the device path, when there is a security protocol.\<close>

definition connect_permitted ::
    "hand_services \<Rightarrow> driver_programs \<Rightarrow> EFI_HANDLE \<Rightarrow> dp_ptr \<Rightarrow> bool \<Rightarrow> hand_db \<Rightarrow> (EFI_STATUS \<times> hand_db) option" where
  "connect_permitted sv pr c Remaining Recursive s =
     (case security pr of
        None \<Rightarrow> Some (EFI_SUCCESS, s)
      | Some FileAuthentication \<Rightarrow> do {
          (Status, i, s) \<leftarrow> interface_of sv c gEfiDevicePathProtocolGuid s;
          if EFI_ERROR Status then Some (EFI_SUCCESS, s)
          else if i = NULL then None
          else do {
            (FilePath, s) \<leftarrow>
              (case (Remaining, Recursive) of
                 (Some rest, False) \<Rightarrow> do {
                   HandleSize \<leftarrow> GetDevicePathSize (PcdNodes sv) (path_at sv i);
                   RemainingSize \<leftarrow> GetDevicePathSize (PcdNodes sv) Remaining;
                   let (a, s) = hand_alloc (\<lambda>_. False) s;
                   if HandleSize < 4 \<or> a = NULL \<or> length (Memory sv i) < HandleSize - 4
                      \<or> length rest < RemainingSize then None
                   else Some (take (HandleSize - 4) (Memory sv i) @ take RemainingSize rest, s) }
               | _ \<Rightarrow> Some (Memory sv i, s));
            run_program sv (FileAuthentication FilePath s) s } })"

partial_function (option) connect_retry ::
    "hand_services \<Rightarrow> driver_programs \<Rightarrow> EFI_HANDLE \<Rightarrow> EFI_HANDLE list option \<Rightarrow> dp_ptr \<Rightarrow> hand_db \<Rightarrow>
     (EFI_STATUS \<times> hand_db) option" where
  "connect_retry sv pr c Context Remaining s = do {
     (ReturnStatus, s) \<leftarrow> CoreConnectSingleController sv pr c Context Remaining s;
     if ReturnStatus = EFI_NOT_READY then connect_retry sv pr c Context Remaining s
     else Some (ReturnStatus, s) }"

text \<open>The children of a controller, connected one after the other.\<close>

definition connect_children ::
    "hand_services \<Rightarrow> EFI_HANDLE \<Rightarrow> EFI_STATUS \<Rightarrow> hand_db \<Rightarrow> (EFI_STATUS \<times> hand_db) option" where
  "connect_children sv c ReturnStatus s = do {
     s \<leftarrow> CoreAcquireProtocolLock s;
     Status \<leftarrow> CoreValidateHandle c s;
     if EFI_ERROR Status then do {
       s \<leftarrow> CoreReleaseProtocolLock sv s;
       Some (ReturnStatus, s) }
     else do {
       H \<leftarrow> handles s c;
       ds \<leftarrow> handle_opens (Protocols H) s;
       let (a, s) = hand_alloc (\<lambda>_. False) s;
       s \<leftarrow> CoreReleaseProtocolLock sv s;
       if a = NULL then Some (EFI_OUT_OF_RESOURCES, s)
       else do {
         s \<leftarrow> connect_each sv (map ControllerHandle (filter by_child ds)) s;
         Some (ReturnStatus, s) } } }"

definition CoreConnectController ::
    "hand_services \<Rightarrow> driver_programs \<Rightarrow> EFI_HANDLE \<Rightarrow> EFI_HANDLE list option \<Rightarrow> dp_ptr \<Rightarrow> bool \<Rightarrow> hand_db \<Rightarrow>
     (EFI_STATUS \<times> hand_db) option" where
  "CoreConnectController sv pr c DriverImageHandle Remaining Recursive s = do {
     (Status, s) \<leftarrow> handle_is_valid sv c s;
     if EFI_ERROR Status then Some (Status, s)
     else do {
       (Status, s) \<leftarrow> connect_permitted sv pr c Remaining Recursive s;
       if EFI_ERROR Status then Some (Status, s)
       else do {
         (Aligned, s) \<leftarrow>
           (case Remaining of
              None \<Rightarrow> Some (None, s)
            | Some _ \<Rightarrow> do {
                let (a, s) = hand_alloc (\<lambda>_. False) s;
                path \<leftarrow> DuplicateDevicePath (PcdNodes sv) (if a = NULL then None else Some (\<lambda>_. 0)) Remaining;
                Some (path, s) });
         if Remaining \<noteq> None \<and> Aligned = None then Some (EFI_OUT_OF_RESOURCES, s)
         else do {
           (ReturnStatus, s) \<leftarrow> connect_retry sv pr c DriverImageHandle Aligned s;
           if Recursive then connect_children sv c ReturnStatus s
           else Some (ReturnStatus, s) } } } }"

section \<open>The running system\<close>

fun hand_system :: "driver_programs \<Rightarrow> nat \<Rightarrow> hand_services" where
  "hand_system pr 0 =
     \<lparr>Yield = (\<lambda>_. None), Disconnect = (\<lambda>_ _ _ _. None), Connect = (\<lambda>_ _ _ _ _. None),
      Memory = memory pr, PcdNodes = node_count pr\<rparr>"
| "hand_system pr (Suc n) =
     \<lparr>Yield = (\<lambda>s. run_calls (hand_system pr n) (notification pr s) s),
      Disconnect = CoreDisconnectController (hand_system pr n) pr,
      Connect = CoreConnectController (hand_system pr n) pr,
      Memory = memory pr, PcdNodes = node_count pr\<rparr>"

end
