(* ===== verification/Hand_Inv.thy ===== *)
theory Hand_Inv
  imports Driver_Connect
begin

text \<open>
  The invariant of the handle database, and that the updates the services are made of keep it.
\<close>

section \<open>The invariant\<close>

text \<open>The two lists of handles agree with the store, and the ordered one is sorted.\<close>

definition wf_lists :: "hand_db \<Rightarrow> bool" where
  "wf_lists s \<longleftrightarrow>
     handles s NULL = None
     \<and> distinct (gHandleList s) \<and> set (gHandleList s) = dom (handles s)
     \<and> (\<exists>l. gOrderedHandleList s = Some l \<and> sorted l \<and> distinct l \<and> set l = dom (handles s))"

text \<open>The interfaces of a handle are those that point back to it; a handle has at least one.\<close>

definition wf_handles :: "hand_db \<Rightarrow> bool" where
  "wf_handles s \<longleftrightarrow>
     (\<forall>h H. handles s h = Some H \<longrightarrow>
        distinct (Protocols H) \<and> (\<forall>p. p \<in> set (Protocols H) \<longleftrightarrow> (\<exists>P. prots s p = Some P \<and> Prot_Handle P = h)))"

definition no_empty :: "hand_db \<Rightarrow> bool" where
  "no_empty s \<longleftrightarrow> (\<forall>h H. handles s h = Some H \<longrightarrow> Protocols H \<noteq> [])"

text \<open>An interface belongs to a live handle and a known protocol; its open list is counted, and at most
  one driver manages it.\<close>

definition wf_opens :: "PROTOCOL_INTERFACE \<Rightarrow> bool" where
  "wf_opens P \<longleftrightarrow>
     OpenListCount P = of_nat (length (OpenList P)) \<and> length (filter by_driver (OpenList P)) \<le> 1"

definition wf_prots :: "hand_db \<Rightarrow> bool" where
  "wf_prots s \<longleftrightarrow>
     (\<forall>p P. prots s p = Some P \<longrightarrow>
        handles s (Prot_Handle P) \<noteq> None \<and> Prot_Protocol P \<in> ProtocolID ` set (mProtocolDatabase s) \<and> wf_opens P)"

text \<open>Every protocol has one entry, with all its interfaces and all its notification records.\<close>

definition wf_entries :: "hand_db \<Rightarrow> bool" where
  "wf_entries s \<longleftrightarrow>
     distinct (map ProtocolID (mProtocolDatabase s))
     \<and> (\<forall>e\<in>set (mProtocolDatabase s).
          distinct (Entry_Protocols e)
          \<and> (\<forall>p. p \<in> set (Entry_Protocols e) \<longleftrightarrow> (\<exists>P. prots s p = Some P \<and> Prot_Protocol P = ProtocolID e))
          \<and> distinct (Entry_Notify e)
          \<and> (\<forall>n. n \<in> set (Entry_Notify e) \<longleftrightarrow> (\<exists>N. notifies s n = Some N \<and> Notify_Protocol N = ProtocolID e)))"

text \<open>A notification record belongs to a known protocol, and its position is the list head or an
  interface of that protocol.\<close>

definition wf_notifies :: "hand_db \<Rightarrow> bool" where
  "wf_notifies s \<longleftrightarrow>
     (\<forall>n N. notifies s n = Some N \<longrightarrow>
        Notify_Protocol N \<in> ProtocolID ` set (mProtocolDatabase s)
        \<and> (\<forall>p. Notify_Position N = Some p \<longrightarrow> (\<exists>P. prots s p = Some P \<and> Prot_Protocol P = Notify_Protocol N)))"

definition hand_wf :: "hand_db \<Rightarrow> bool" where
  "hand_wf s \<longleftrightarrow> wf_lists s \<and> wf_handles s \<and> wf_prots s \<and> wf_entries s \<and> wf_notifies s"

text \<open>The database between two services, at the task priority \<open>t\<close>, and while a service that was
  called at that priority holds the lock.\<close>

definition hand_free :: "nat \<Rightarrow> hand_db \<Rightarrow> bool" where
  "hand_free t s \<longleftrightarrow> hand_wf s \<and> no_empty s \<and> \<not> locked s \<and> CurrentTpl s = t"

definition hand_held :: "nat \<Rightarrow> hand_db \<Rightarrow> bool" where
  "hand_held t s \<longleftrightarrow> hand_wf s \<and> no_empty s \<and> locked s \<and> OwnerTpl s = t \<and> CurrentTpl s = TPL_NOTIFY_LOCK"

named_theorems hand_wf_defs
declare hand_wf_def [hand_wf_defs] wf_lists_def [hand_wf_defs] wf_handles_def [hand_wf_defs]
  wf_prots_def [hand_wf_defs] wf_entries_def [hand_wf_defs] wf_notifies_def [hand_wf_defs] no_empty_def [hand_wf_defs]

text \<open>The invariant, read for one object.\<close>

lemma wf_protsD:
  assumes "hand_wf s" "prots s p = Some P"
  shows "handles s (Prot_Handle P) \<noteq> None" "Prot_Protocol P \<in> ProtocolID ` set (mProtocolDatabase s)" "wf_opens P"
  using assms unfolding hand_wf_def wf_prots_def by blast+

lemma wf_handlesD:
  assumes "hand_wf s" "handles s h = Some H"
  shows "distinct (Protocols H)" "p \<in> set (Protocols H) \<longleftrightarrow> (\<exists>P. prots s p = Some P \<and> Prot_Handle P = h)"
  using assms unfolding hand_wf_def wf_handles_def by blast+

lemma wf_entriesD:
  assumes "hand_wf s" "e \<in> set (mProtocolDatabase s)"
  shows "distinct (Entry_Protocols e)" "distinct (Entry_Notify e)"
    "p \<in> set (Entry_Protocols e) \<longleftrightarrow> (\<exists>P. prots s p = Some P \<and> Prot_Protocol P = ProtocolID e)"
    "n \<in> set (Entry_Notify e) \<longleftrightarrow> (\<exists>N. notifies s n = Some N \<and> Notify_Protocol N = ProtocolID e)"
  using assms unfolding hand_wf_def wf_entries_def by blast+

lemma wf_notifiesD:
  assumes "hand_wf s" "notifies s n = Some N"
  shows "Notify_Protocol N \<in> ProtocolID ` set (mProtocolDatabase s)"
    "Notify_Position N = Some p \<Longrightarrow> \<exists>P. prots s p = Some P \<and> Prot_Protocol P = Notify_Protocol N"
  using assms unfolding hand_wf_def wf_notifies_def by blast+

section \<open>Locks and allocation\<close>

lemma acquire_held:
  "hand_free t s \<Longrightarrow> CoreAcquireProtocolLock s = Some s' \<Longrightarrow> hand_held t s'"
  by (auto simp: CoreAcquireProtocolLock_def hand_free_def hand_held_def hand_wf_defs split: if_splits)

text \<open>The parts of the database the invariant reads.\<close>

definition same_wf :: "hand_db \<Rightarrow> hand_db \<Rightarrow> bool" where
  "same_wf s s' \<longleftrightarrow>
     mProtocolDatabase s' = mProtocolDatabase s \<and> gHandleList s' = gHandleList s
     \<and> gOrderedHandleList s' = gOrderedHandleList s \<and> handles s' = handles s \<and> prots s' = prots s
     \<and> notifies s' = notifies s"

lemma same_wf: "same_wf s s' \<Longrightarrow> hand_wf s' = hand_wf s" "same_wf s s' \<Longrightarrow> no_empty s' = no_empty s"
  by (simp_all add: same_wf_def hand_wf_defs)

definition same_lock :: "hand_db \<Rightarrow> hand_db \<Rightarrow> bool" where
  "same_lock s s' \<longleftrightarrow> locked s' = locked s \<and> OwnerTpl s' = OwnerTpl s \<and> CurrentTpl s' = CurrentTpl s"

lemma hand_held_same: "hand_held t s \<Longrightarrow> same_wf s s' \<Longrightarrow> same_lock s s' \<Longrightarrow> hand_held t s'"
  by (simp add: hand_held_def same_lock_def same_wf)

lemma hand_free_same: "hand_free t s \<Longrightarrow> same_wf s s' \<Longrightarrow> same_lock s s' \<Longrightarrow> hand_free t s'"
  by (simp add: hand_free_def same_lock_def same_wf)

lemma hand_held_update:
  "hand_held t s \<Longrightarrow> same_lock s s' \<Longrightarrow> hand_wf s' \<Longrightarrow> no_empty s' \<Longrightarrow> hand_held t s'"
  by (simp add: hand_held_def same_lock_def)

lemma hand_alloc_cases:
  assumes "hand_alloc live s = (a, s')"
  shows "s' = s\<lparr>pool := pool s'\<rparr>" "a \<noteq> NULL \<Longrightarrow> \<not> live a"
  using assms by (auto simp: hand_alloc_def split: list.splits if_splits)

lemma hand_alloc_same:
  assumes "hand_alloc live s = (a, s')"
  shows "same_wf s s'" "same_lock s s'"
  by (subst hand_alloc_cases(1) [OF assms], simp add: same_wf_def same_lock_def)+

lemma hand_alloc_held: "hand_alloc live s = (a, s') \<Longrightarrow> hand_held t s \<Longrightarrow> hand_held t s'"
  using hand_alloc_same hand_held_same by blast

lemma hand_alloc_free: "hand_alloc live s = (a, s') \<Longrightarrow> hand_free t s \<Longrightarrow> hand_free t s'"
  using hand_alloc_same hand_free_same by blast

section \<open>Entries\<close>

lemma find_entry_Some:
  assumes "find_entry g s = Some e"
  shows "e \<in> set (mProtocolDatabase s)" "ProtocolID e = g"
  using assms by (auto simp: find_entry_def find_Some_iff)

lemma find_entry_None: "find_entry g s = None \<longleftrightarrow> g \<notin> ProtocolID ` set (mProtocolDatabase s)"
  by (auto simp: find_entry_def find_None_iff)

lemma upd_entry_simps [simp]:
  "gHandleList (upd_entry g f s) = gHandleList s" "gOrderedHandleList (upd_entry g f s) = gOrderedHandleList s"
  "handles (upd_entry g f s) = handles s" "prots (upd_entry g f s) = prots s" "notifies (upd_entry g f s) = notifies s"
  "locked (upd_entry g f s) = locked s" "OwnerTpl (upd_entry g f s) = OwnerTpl s" "CurrentTpl (upd_entry g f s) = CurrentTpl s"
  "events (upd_entry g f s) = events s" "signalled (upd_entry g f s) = signalled s" "pool (upd_entry g f s) = pool s"
  "gHandleDatabaseKey (upd_entry g f s) = gHandleDatabaseKey s"
  "mEfiLocateHandleRequest (upd_entry g f s) = mEfiLocateHandleRequest s"
  "gDxeCoreImageHandle (upd_entry g f s) = gDxeCoreImageHandle s"
  by (simp_all add: upd_entry_def)

lemma upd_entry_IDs:
  assumes "\<And>e. ProtocolID (f e) = ProtocolID e"
  shows "map ProtocolID (mProtocolDatabase (upd_entry g f s)) = map ProtocolID (mProtocolDatabase s)"
    "ProtocolID ` set (mProtocolDatabase (upd_entry g f s)) = ProtocolID ` set (mProtocolDatabase s)"
proof -
  show *: "map ProtocolID (mProtocolDatabase (upd_entry g f s)) = map ProtocolID (mProtocolDatabase s)"
    using assms by (simp add: upd_entry_def)
  show "ProtocolID ` set (mProtocolDatabase (upd_entry g f s)) = ProtocolID ` set (mProtocolDatabase s)"
    using arg_cong [OF *, of set] by simp
qed

lemma upd_entry_database:
  "mProtocolDatabase (upd_entry g f s) = map (\<lambda>e. if ProtocolID e = g then f e else e) (mProtocolDatabase s)"
  by (simp add: upd_entry_def)

lemma upd_entry_ball:
  "(\<forall>e\<in>set (mProtocolDatabase (upd_entry g f s)). Q e) \<longleftrightarrow>
    (\<forall>e\<in>set (mProtocolDatabase s). Q (if ProtocolID e = g then f e else e))"
  unfolding upd_entry_database set_map by (rule ball_simps(9))

lemma CoreFindProtocolEntry_held:
  assumes "hand_held t s" "CoreFindProtocolEntry g c s = Some (r, s')"
  shows "hand_held t s' \<and> (r \<noteq> None \<longrightarrow> g \<in> ProtocolID ` set (mProtocolDatabase s'))
    \<and> handles s' = handles s \<and> prots s' = prots s \<and> notifies s' = notifies s \<and> events s' = events s"
proof (cases "find_entry g s")
  case (Some e)
  then show ?thesis
    using assms find_entry_Some [OF Some] by (auto simp: CoreFindProtocolEntry_def split: if_splits)
next
  case None
  obtain a s1 where a: "hand_alloc (\<lambda>_. False) s = (a, s1)" by (cases "hand_alloc (\<lambda>_. False) s")
  let ?e = "\<lparr>ProtocolID = g, Entry_Protocols = [], Entry_Notify = []\<rparr>"
  note h1 = hand_alloc_held [OF a assms(1)] and s1 = hand_alloc_cases(1) [OF a]
  have eq: "mProtocolDatabase s1 = mProtocolDatabase s" "handles s1 = handles s" "prots s1 = prots s"
    "notifies s1 = notifies s" "events s1 = events s"
    by (subst s1, simp)+
  have new: "hand_held t (s1\<lparr>mProtocolDatabase := mProtocolDatabase s1 @ [?e]\<rparr>)"
  proof (rule hand_held_update [OF h1])
    have g: "g \<notin> ProtocolID ` set (mProtocolDatabase s1)" using None eq(1) by (simp add: find_entry_None)
    have w: "hand_wf s1" "no_empty s1" using h1 by (simp_all add: hand_held_def)
    have np: "Prot_Protocol P \<noteq> g" if "prots s1 p = Some P" for p P
      using that w(1) g by (auto simp: hand_wf_def wf_prots_def)
    have nn: "Notify_Protocol N \<noteq> g" if "notifies s1 n = Some N" for n N
      using that w(1) g by (auto simp: hand_wf_def wf_notifies_def)
    show "hand_wf (s1\<lparr>mProtocolDatabase := mProtocolDatabase s1 @ [?e]\<rparr>)"
      unfolding hand_wf_def
    proof (intro conjI)
      show "wf_entries (s1\<lparr>mProtocolDatabase := mProtocolDatabase s1 @ [?e]\<rparr>)"
        using w(1) g np nn by (auto simp: hand_wf_def wf_entries_def image_iff)
    qed (use w in \<open>auto simp: hand_wf_defs\<close>)
    show "no_empty (s1\<lparr>mProtocolDatabase := mProtocolDatabase s1 @ [?e]\<rparr>)" using w(2) by (simp add: no_empty_def)
  qed (simp add: same_lock_def)
  show ?thesis
    using assms None a new h1 eq by (auto simp: CoreFindProtocolEntry_def Let_def split: if_splits)
qed

end
