(* ===== verification/Hand_Updates.thy ===== *)
theory Hand_Updates
  imports Hand_Inv
begin

text \<open>
  The updates of the handle database that keep its invariant: a changed handle, interface or
  notification record, and the creation and removal of each.
\<close>

section \<open>Changes in place\<close>

lemma wf_handle_update:
  assumes "hand_wf s" "handles s h = Some H" "Protocols H' = Protocols H"
  shows "hand_wf (s\<lparr>handles := (handles s)(h \<mapsto> H')\<rparr>)"
    "no_empty s \<Longrightarrow> no_empty (s\<lparr>handles := (handles s)(h \<mapsto> H')\<rparr>)"
proof -
  show "hand_wf (s\<lparr>handles := (handles s)(h \<mapsto> H')\<rparr>)"
    unfolding hand_wf_def
  proof (intro conjI)
    show "wf_lists (s\<lparr>handles := (handles s)(h \<mapsto> H')\<rparr>)"
      using assms(1,2) by (auto simp: hand_wf_def wf_lists_def insert_absorb domI)
    show "wf_handles (s\<lparr>handles := (handles s)(h \<mapsto> H')\<rparr>)"
      using assms by (auto simp: hand_wf_def wf_handles_def)
    show "wf_prots (s\<lparr>handles := (handles s)(h \<mapsto> H')\<rparr>)"
      using assms(1) by (auto simp: hand_wf_def wf_prots_def)
  qed (use assms(1) in \<open>simp_all add: hand_wf_def wf_entries_def wf_notifies_def\<close>)
  show "no_empty s \<Longrightarrow> no_empty (s\<lparr>handles := (handles s)(h \<mapsto> H')\<rparr>)"
    using assms(2,3) by (auto simp: no_empty_def)
qed

lemma wf_prot_update:
  assumes "hand_wf s" "prots s p = Some P" "Prot_Handle P' = Prot_Handle P" "Prot_Protocol P' = Prot_Protocol P" "wf_opens P'"
  shows "hand_wf (s\<lparr>prots := (prots s)(p \<mapsto> P')\<rparr>)"
proof -
  let ?s = "s\<lparr>prots := (prots s)(p \<mapsto> P')\<rparr>"
  have ex: "(\<exists>Q. prots ?s q = Some Q \<and> f (Prot_Handle Q) (Prot_Protocol Q))
      \<longleftrightarrow> (\<exists>Q. prots s q = Some Q \<and> f (Prot_Handle Q) (Prot_Protocol Q))" for q f
    using assms(2-4) by auto
  show ?thesis
    unfolding hand_wf_def
  proof (intro conjI)
    show "wf_handles ?s"
      using assms(1) ex [of _ "\<lambda>h _. h = _"] by (simp add: hand_wf_def wf_handles_def del: fun_upd_apply)
    show "wf_entries ?s"
      using assms(1) ex [of _ "\<lambda>_ g. g = _"] by (simp add: hand_wf_def wf_entries_def del: fun_upd_apply)
    show "wf_notifies ?s"
      using assms(1) ex [of _ "\<lambda>_ g. g = _"] by (simp add: hand_wf_def wf_notifies_def del: fun_upd_apply)
    show "wf_prots ?s" using assms by (auto simp: hand_wf_def wf_prots_def)
  qed (use assms(1) in \<open>simp add: hand_wf_def wf_lists_def\<close>)
qed

lemma wf_notify_update:
  assumes "hand_wf s" "notifies s n = Some N" "Notify_Protocol N' = Notify_Protocol N"
    "\<And>p. Notify_Position N' = Some p \<Longrightarrow> \<exists>P. prots s p = Some P \<and> Prot_Protocol P = Notify_Protocol N"
  shows "hand_wf (s\<lparr>notifies := (notifies s)(n \<mapsto> N')\<rparr>)"
proof -
  let ?s = "s\<lparr>notifies := (notifies s)(n \<mapsto> N')\<rparr>"
  have ex: "(\<exists>M. notifies ?s m = Some M \<and> Notify_Protocol M = g) \<longleftrightarrow> (\<exists>M. notifies s m = Some M \<and> Notify_Protocol M = g)" for m g
    using assms(2,3) by auto
  show ?thesis
    unfolding hand_wf_def
  proof (intro conjI)
    show "wf_entries ?s" using assms(1) ex by (simp add: hand_wf_def wf_entries_def del: fun_upd_apply)
    show "wf_notifies ?s" using assms by (auto simp: hand_wf_def wf_notifies_def)
  qed (use assms(1) in \<open>simp_all add: hand_wf_def wf_lists_def wf_handles_def wf_prots_def\<close>)
qed

lemma no_empty_same: "handles s' = handles s \<Longrightarrow> no_empty s \<Longrightarrow> no_empty s'"
  by (simp add: no_empty_def)

section \<open>Notification records\<close>

lemma wf_notify_new:
  assumes "hand_wf s" "notifies s a = None" "g \<in> ProtocolID ` set (mProtocolDatabase s)"
    "Notify_Protocol N = g" "Notify_Position N = None"
  shows "hand_wf (upd_entry g (\<lambda>e. e\<lparr>Entry_Notify := Entry_Notify e @ [a]\<rparr>) (s\<lparr>notifies := (notifies s)(a \<mapsto> N)\<rparr>))"
    (is "hand_wf ?s")
proof -
  have ids: "map ProtocolID (mProtocolDatabase ?s) = map ProtocolID (mProtocolDatabase s)"
    "ProtocolID ` set (mProtocolDatabase ?s) = ProtocolID ` set (mProtocolDatabase s)"
    by (simp_all add: upd_entry_IDs)
  have na: "a \<notin> set (Entry_Notify e)" if "e \<in> set (mProtocolDatabase s)" for e
    using assms(1,2) that by (auto simp: hand_wf_def wf_entries_def)
  show ?thesis
    unfolding hand_wf_def
  proof (intro conjI)
    show "wf_prots ?s" using assms(1) ids by (simp add: hand_wf_def wf_prots_def)
    show "wf_notifies ?s" using assms ids by (auto simp: hand_wf_def wf_notifies_def)
    show "wf_entries ?s"
      unfolding wf_entries_def ids(1) upd_entry_ball
      using assms na by (auto simp: hand_wf_def wf_entries_def)
  qed (use assms(1) in \<open>simp_all add: hand_wf_def wf_lists_def wf_handles_def\<close>)
qed

lemma wf_notify_delete:
  assumes "hand_wf s" "notifies s n = Some N" "Notify_Protocol N = g"
  shows "hand_wf (upd_entry g (\<lambda>e. e\<lparr>Entry_Notify := remove1 n (Entry_Notify e)\<rparr>) (s\<lparr>notifies := (notifies s)(n := None)\<rparr>))"
    (is "hand_wf ?s")
proof -
  have ids: "map ProtocolID (mProtocolDatabase ?s) = map ProtocolID (mProtocolDatabase s)"
    "ProtocolID ` set (mProtocolDatabase ?s) = ProtocolID ` set (mProtocolDatabase s)"
    by (simp_all add: upd_entry_IDs)
  show ?thesis
    unfolding hand_wf_def
  proof (intro conjI)
    show "wf_prots ?s" using assms(1) ids by (simp add: hand_wf_def wf_prots_def)
    show "wf_notifies ?s" using assms ids by (auto simp: hand_wf_def wf_notifies_def)
    show "wf_entries ?s"
      unfolding wf_entries_def ids(1) upd_entry_ball
      using assms by (auto simp: hand_wf_def wf_entries_def)
  qed (use assms(1) in \<open>simp_all add: hand_wf_def wf_lists_def wf_handles_def\<close>)
qed

section \<open>A new interface\<close>

lemma wf_prot_new:
  assumes "hand_wf s" "prots s p = None" "g \<in> ProtocolID ` set (mProtocolDatabase s)" "handles s h = Some H"
    "Prot_Handle P = h" "Prot_Protocol P = g" "wf_opens P" "Protocols H' = p # Protocols H"
  shows "hand_wf (upd_entry g (\<lambda>e. e\<lparr>Entry_Protocols := Entry_Protocols e @ [p]\<rparr>)
    (s\<lparr>prots := (prots s)(p \<mapsto> P), handles := (handles s)(h \<mapsto> H')\<rparr>))"
    (is "hand_wf ?s")
proof -
  have ids: "map ProtocolID (mProtocolDatabase ?s) = map ProtocolID (mProtocolDatabase s)"
    "ProtocolID ` set (mProtocolDatabase ?s) = ProtocolID ` set (mProtocolDatabase s)"
    by (simp_all add: upd_entry_IDs)
  have np: "p \<notin> set (Entry_Protocols e)" if "e \<in> set (mProtocolDatabase s)" for e
    using assms(1,2) that by (auto simp: hand_wf_def wf_entries_def)
  have nh: "p \<notin> set (Protocols H0)" if "handles s h0 = Some H0" for h0 H0
    using assms(1,2) that by (auto simp: hand_wf_def wf_handles_def)
  show ?thesis
    unfolding hand_wf_def
  proof (intro conjI)
    show "wf_lists ?s"
      using assms(1,4) by (auto simp: hand_wf_def wf_lists_def insert_absorb domI)
    show "wf_handles ?s"
      using assms nh by (auto simp: hand_wf_def wf_handles_def)
    show "wf_prots ?s" using assms ids by (auto simp: hand_wf_def wf_prots_def)
    have "Notify_Position N \<noteq> Some p" if "notifies s n = Some N" for n N
      using wf_notifiesD(2) [OF assms(1) that, of p] assms(2) by auto
    then show "wf_notifies ?s" using assms(1) ids by (simp add: hand_wf_def wf_notifies_def)
    show "wf_entries ?s"
      unfolding wf_entries_def ids(1) upd_entry_ball
      using assms np by (auto simp: hand_wf_def wf_entries_def)
  qed
qed

lemma ordered_insert:
  assumes "sorted l" "distinct l" "a \<notin> set l"
  shows "sorted (ordered_insert a l) \<and> distinct (ordered_insert a l) \<and> set (ordered_insert a l) = insert a (set l)"
  using assms
proof (induction l)
  case (Cons x l)
  then show ?case by (auto simp: PointerCompare_def split: if_splits)
qed simp

lemma wf_handle_new:
  assumes "hand_wf s" "handles s h = None" "h \<noteq> NULL" "gOrderedHandleList s = Some l" "Protocols H = []"
  shows "hand_wf (s\<lparr>gOrderedHandleList := Some (ordered_insert h l), handles := (handles s)(h \<mapsto> H),
    gHandleList := gHandleList s @ [h]\<rparr>)" (is "hand_wf ?s")
proof -
  have l: "sorted l" "distinct l" "set l = dom (handles s)" using assms(1,4) by (auto simp: hand_wf_def wf_lists_def)
  have "h \<notin> set l" using l(3) assms(2) by auto
  with l have o: "sorted (ordered_insert h l)" "distinct (ordered_insert h l)" "set (ordered_insert h l) = insert h (set l)"
    using ordered_insert by auto
  have nh: "Prot_Handle P \<noteq> h" if "prots s p = Some P" for p P
    using wf_protsD(1) [OF assms(1) that] assms(2) by auto
  show ?thesis
    unfolding hand_wf_def
  proof (intro conjI)
    show "wf_lists ?s" using assms(1-3) o l(3) by (auto simp: hand_wf_def wf_lists_def)
    show "wf_handles ?s" using assms(1,5) nh by (auto simp: hand_wf_def wf_handles_def)
    show "wf_prots ?s" using assms(1) by (auto simp: hand_wf_def wf_prots_def)
  qed (use assms(1) in \<open>simp_all add: hand_wf_def wf_entries_def wf_notifies_def\<close>)
qed

section \<open>Taking an interface off its protocol\<close>

lemma list_prev_in:
  assumes "list_prev b xs a = Some c"
  shows "Some c = b \<or> c \<in> set xs"
  using assms by (induction xs arbitrary: b) (auto split: if_splits)

lemma list_prev_neq:
  assumes "distinct xs" "a \<in> set xs" "b \<noteq> Some a"
  shows "list_prev b xs a \<noteq> Some a"
  using assms by (induction xs arbitrary: b) auto

lemma back_up_notifies:
  assumes "back_up p back ns s = Some s'"
  shows "s' = s\<lparr>notifies := notifies s'\<rparr> \<and>
    (\<forall>n. notifies s' n = (if n \<in> set ns
       then map_option (\<lambda>N. if Notify_Position N = Some p then N\<lparr>Notify_Position := back\<rparr> else N) (notifies s n)
       else notifies s n))"
  using assms
proof (induction ns arbitrary: s)
  case (Cons n ns)
  from Cons.prems obtain N where N: "notifies s n = Some N" by (auto simp: bind_eq_Some_conv)
  let ?s = "if Notify_Position N = Some p then s\<lparr>notifies := (notifies s)(n \<mapsto> N\<lparr>Notify_Position := back\<rparr>)\<rparr> else s"
  have "back_up p back ns ?s = Some s'" using Cons.prems N by simp
  from Cons.IH [OF this] show ?case using N by (auto simp: map_option_case split: option.split)
qed simp

text \<open>The notification records of protocol \<open>g\<close> have been moved off interface \<open>p\<close>.\<close>

definition moved_off :: "UINTN \<Rightarrow> hand_db \<Rightarrow> (UINTN \<Rightarrow> PROTOCOL_NOTIFY option) \<Rightarrow> bool" where
  "moved_off p s N' \<longleftrightarrow>
     (\<forall>n. (notifies s n = None \<longleftrightarrow> N' n = None)
        \<and> (\<forall>N M. notifies s n = Some N \<longrightarrow> N' n = Some M \<longrightarrow>
             Notify_Protocol M = Notify_Protocol N \<and> Notify_Event M = Notify_Event N
             \<and> (\<forall>q. Notify_Position M = Some q \<longrightarrow>
                  q \<noteq> p \<and> (\<exists>Q. prots s q = Some Q \<and> Prot_Protocol Q = Notify_Protocol N))))"

lemma moved_offD:
  assumes "moved_off p s N'"
  shows "N' n = Some M \<Longrightarrow> \<exists>N. notifies s n = Some N \<and> Notify_Protocol M = Notify_Protocol N
      \<and> (\<forall>q. Notify_Position M = Some q \<longrightarrow> q \<noteq> p \<and> (\<exists>Q. prots s q = Some Q \<and> Prot_Protocol Q = Notify_Protocol N))"
    "(\<exists>M. N' n = Some M \<and> Notify_Protocol M = g) \<longleftrightarrow> (\<exists>N. notifies s n = Some N \<and> Notify_Protocol N = g)"
  using assms unfolding moved_off_def by (metis not_Some_eq)+

lemma CoreFindProtocolInterface_Some:
  assumes "CoreFindProtocolInterface h g i s = Some (Some p)"
  shows "\<exists>H P e. handles s h = Some H \<and> p \<in> set (Protocols H) \<and> prots s p = Some P \<and> Prot_Interface P = i
    \<and> Prot_Protocol P = g \<and> find_entry g s = Some e"
proof -
  have fp: "find_prot Q ps s = Some (Some p) \<Longrightarrow> p \<in> set ps \<and> (\<exists>P. prots s p = Some P \<and> Q P)" for Q ps
    by (induction ps) (auto simp: bind_eq_Some_conv split: if_splits)
  show ?thesis
    using assms
    by (auto simp: CoreFindProtocolInterface_def CoreFindProtocolEntry_def bind_eq_Some_conv dest!: fp
        split: option.splits if_splits)
qed

lemma CoreRemoveInterfaceFromProtocol_Some:
  assumes "hand_wf s" "CoreRemoveInterfaceFromProtocol h g i s = Some (Some p, s')"
  shows "\<exists>P H N'. prots s p = Some P \<and> Prot_Protocol P = g \<and> Prot_Interface P = i \<and> Prot_Handle P = h
    \<and> handles s h = Some H \<and> p \<in> set (Protocols H) \<and> moved_off p s N' \<and> g \<in> ProtocolID ` set (mProtocolDatabase s)
    \<and> s' = upd_entry g (\<lambda>e. e\<lparr>Entry_Protocols := remove1 p (Entry_Protocols e)\<rparr>) (s\<lparr>notifies := N'\<rparr>)"
proof -
  from assms(2) obtain e s1 where f: "CoreFindProtocolInterface h g i s = Some (Some p)" "find_entry g s = Some e"
    "back_up p (list_prev None (Entry_Protocols e) p) (Entry_Notify e) s = Some s1"
    "s' = upd_entry g (\<lambda>e. e\<lparr>Entry_Protocols := remove1 p (Entry_Protocols e)\<rparr>) s1"
    unfolding CoreRemoveInterfaceFromProtocol_def
    by (auto simp: bind_eq_Some_conv split: if_splits option.splits)
  from CoreFindProtocolInterface_Some [OF f(1)] obtain H P where
    P: "handles s h = Some H" "p \<in> set (Protocols H)" "prots s p = Some P" "Prot_Interface P = i" "Prot_Protocol P = g"
    by blast
  note e = find_entry_Some [OF f(2)]
  have we: "distinct (Entry_Protocols e)" "p \<in> set (Entry_Protocols e)"
    "\<And>q. q \<in> set (Entry_Protocols e) \<Longrightarrow> \<exists>Q. prots s q = Some Q \<and> Prot_Protocol Q = g"
    "\<And>n. n \<in> set (Entry_Notify e) \<longleftrightarrow> (\<exists>N. notifies s n = Some N \<and> Notify_Protocol N = g)"
    using assms(1) e P(3,5) by (auto simp: hand_wf_def wf_entries_def)
  let ?b = "list_prev None (Entry_Protocols e) p"
  have b: "?b = Some q \<Longrightarrow> q \<noteq> p \<and> (\<exists>Q. prots s q = Some Q \<and> Prot_Protocol Q = g)" for q
    using list_prev_neq [OF we(1,2), of None] list_prev_in [of None "Entry_Protocols e" p q] we(3) by auto
  note s1 = back_up_notifies [OF f(3)]
  have wn: "Notify_Protocol N \<noteq> g \<Longrightarrow> notifies s n = Some N \<Longrightarrow> Notify_Position N \<noteq> Some p" for n N
    using wf_notifiesD(2) [OF assms(1), of n N p] P(3,5) by auto
  have m: "moved_off p s (notifies s1)"
    unfolding moved_off_def using s1 b wn we(4) assms(1)
    by (auto simp: hand_wf_def wf_notifies_def split: if_splits)
  have ph: "Prot_Handle P = h" using assms(1) P(1-3) by (auto simp: hand_wf_def wf_handles_def)
  have "s1 = s\<lparr>notifies := notifies s1\<rparr>" using s1 by simp
  with f(4) have "s' = upd_entry g (\<lambda>e. e\<lparr>Entry_Protocols := remove1 p (Entry_Protocols e)\<rparr>) (s\<lparr>notifies := notifies s1\<rparr>)"
    by simp
  moreover have "g \<in> ProtocolID ` set (mProtocolDatabase s)" using e by blast
  ultimately show ?thesis
    using P m ph by (intro exI [of _ P] exI [of _ H] exI [of _ "notifies s1"]) simp
qed

text \<open>After that the interface can be freed, or put back at the end of its protocol.\<close>

lemma wf_prot_delete:
  assumes "hand_wf s" "prots s p = Some P" "Prot_Protocol P = g" "Prot_Handle P = h" "handles s h = Some H"
    "moved_off p s N'" "Protocols H' = remove1 p (Protocols H)"
  shows "hand_wf (upd_entry g (\<lambda>e. e\<lparr>Entry_Protocols := remove1 p (Entry_Protocols e)\<rparr>) (s\<lparr>notifies := N'\<rparr>)
    \<lparr>handles := (handles s)(h \<mapsto> H'), prots := (prots s)(p := None)\<rparr>)" (is "hand_wf (?u\<lparr>handles := _, prots := _\<rparr>)")
proof -
  let ?s = "?u\<lparr>handles := (handles s)(h \<mapsto> H'), prots := (prots s)(p := None)\<rparr>"
  have ids: "map ProtocolID (mProtocolDatabase ?u) = map ProtocolID (mProtocolDatabase s)"
    "ProtocolID ` set (mProtocolDatabase ?u) = ProtocolID ` set (mProtocolDatabase s)"
    by (simp_all add: upd_entry_IDs)
  have own: "p \<in> set (Protocols H0) \<longleftrightarrow> h0 = h" if "handles s h0 = Some H0" for h0 H0
    using wf_handlesD(2) [OF assms(1) that, of p] assms(2,4) by auto
  show ?thesis
    unfolding hand_wf_def
  proof (intro conjI)
    show "wf_lists ?s" using assms(1,5) by (auto simp: hand_wf_def wf_lists_def insert_absorb domI)
    show "wf_handles ?s"
      using assms(1,2,4,5,7) own by (auto simp: hand_wf_def wf_handles_def)
    show "wf_prots ?s" using assms(1,5) ids(2) by (auto simp: hand_wf_def wf_prots_def)
    show "wf_notifies ?s"
      using assms(1) ids(2) moved_offD(1) [OF assms(6)] unfolding hand_wf_def wf_notifies_def
      by simp (metis (no_types, lifting))
    show "wf_entries ?s"
    proof -
      have f: "mProtocolDatabase ?s = mProtocolDatabase ?u" "prots ?s = (prots s)(p := None)" "notifies ?s = N'"
        by simp_all
      have "wf_entries s" using assms(1) by (simp add: hand_wf_def)
      then show ?thesis
        unfolding wf_entries_def f ids(1) upd_entry_ball moved_offD(2) [OF assms(6)]
        using assms(2,3) by auto
    qed
  qed
qed

lemma wf_prot_move:
  assumes "hand_wf s" "prots s p = Some P" "Prot_Protocol P = g" "moved_off p s N'" "wf_opens P'"
    "Prot_Protocol P' = g" "Prot_Handle P' = Prot_Handle P"
  shows "hand_wf (upd_entry g (\<lambda>e. e\<lparr>Entry_Protocols := Entry_Protocols e @ [p]\<rparr>)
    (upd_entry g (\<lambda>e. e\<lparr>Entry_Protocols := remove1 p (Entry_Protocols e)\<rparr>) (s\<lparr>notifies := N'\<rparr>)
      \<lparr>prots := (prots s)(p \<mapsto> P')\<rparr>))"
    (is "hand_wf ?s")
proof -
  have ids: "map ProtocolID (mProtocolDatabase ?s) = map ProtocolID (mProtocolDatabase s)"
    "ProtocolID ` set (mProtocolDatabase ?s) = ProtocolID ` set (mProtocolDatabase s)"
    by (simp_all add: upd_entry_IDs)
  have ex: "(\<exists>Q. ((prots s)(p \<mapsto> P')) q = Some Q \<and> f (Prot_Handle Q) (Prot_Protocol Q))
      \<longleftrightarrow> (\<exists>Q. prots s q = Some Q \<and> f (Prot_Handle Q) (Prot_Protocol Q))" for q f
    using assms(2,3,6,7) by auto
  show ?thesis
    unfolding hand_wf_def
  proof (intro conjI)
    show "wf_lists ?s" using assms(1) by (simp add: hand_wf_def wf_lists_def)
    show "wf_handles ?s"
      using assms(1) ex [of _ "\<lambda>h _. h = _"] by (simp add: hand_wf_def wf_handles_def del: fun_upd_apply)
    show "wf_prots ?s"
      using assms(1) assms(2,3,5-7) wf_protsD [OF assms(1,2)] unfolding hand_wf_def wf_prots_def ids(2) by auto
    show "wf_notifies ?s"
      using assms(1) moved_offD(1) [OF assms(4)] ex [of _ "\<lambda>_ g. g = _"]
      unfolding hand_wf_def wf_notifies_def ids(2) by (simp del: fun_upd_apply) metis
    show "wf_entries ?s"
    proof -
      let ?u = "upd_entry g (\<lambda>e. e\<lparr>Entry_Protocols := remove1 p (Entry_Protocols e)\<rparr>) (s\<lparr>notifies := N'\<rparr>)"
      have f: "mProtocolDatabase (?u\<lparr>prots := (prots s)(p \<mapsto> P')\<rparr>) = mProtocolDatabase ?u"
        "prots ?s = (prots s)(p \<mapsto> P')" "notifies ?s = N'"
        by simp_all
      have "wf_entries s" using assms(1) by (simp add: hand_wf_def)
      then show ?thesis
        unfolding wf_entries_def f(2,3) ids(1) upd_entry_ball f(1) moved_offD(2) [OF assms(4)]
          ex [of _ "\<lambda>_ g. g = _"]
        using assms(2,3) by auto
    qed
  qed
qed

lemma wf_free_handle:
  assumes "hand_wf s" "handles s h = Some H" "Protocols H = []" "gOrderedHandleList s = Some l"
  shows "hand_wf (s\<lparr>gOrderedHandleList := Some (remove1 h l), gHandleList := remove1 h (gHandleList s),
    handles := (handles s)(h := None)\<rparr>)" (is "hand_wf ?s")
proof -
  have nh: "Prot_Handle P \<noteq> h" if "prots s p = Some P" for p P
    using wf_handlesD(2) [OF assms(1,2), of p] assms(3) that by auto
  show ?thesis
    unfolding hand_wf_def
  proof (intro conjI)
    show "wf_lists ?s" using assms(1,4) by (auto simp: hand_wf_def wf_lists_def sorted_remove1)
    show "wf_handles ?s" using assms(1) by (simp add: hand_wf_def wf_handles_def)
    show "wf_prots ?s" using assms(1) nh by (auto simp: hand_wf_def wf_prots_def)
  qed (use assms(1) in \<open>simp_all add: hand_wf_def wf_entries_def wf_notifies_def\<close>)
qed

end
