(* ===== verification/Hand_Contract.thy ===== *)
theory Hand_Contract
  imports Hand_Updates
begin

text \<open>
  The contract between the handle database and what it calls out to: whatever runs when the lock is
  released, and the services that connect and disconnect controllers, take a consistent database
  to a consistent one and return at the task priority they were called at.  Under that contract every
  service of the handle database does the same.
\<close>

named_theorems held_rules
named_theorems free_rules

declare hand_alloc_held [held_rules] hand_alloc_free [free_rules]

lemma CoreFindProtocolEntry_keeps [held_rules]:
  "CoreFindProtocolEntry g c s = Some (r, s') \<Longrightarrow> hand_held t s \<Longrightarrow> hand_held t s'"
  using CoreFindProtocolEntry_held by blast

lemma acquire_keeps: "CoreAcquireProtocolLock s = Some s' \<Longrightarrow> hand_free t s \<Longrightarrow> hand_held t s'"
  by (rule acquire_held)

lemma handheldD: "hand_held t s \<Longrightarrow> hand_wf s" "hand_held t s \<Longrightarrow> no_empty s" "hand_held t s \<Longrightarrow> locked s"
  by (simp_all add: hand_held_def)

section \<open>Steps under the lock\<close>

lemma signal_all_keeps [held_rules]: "signal_all ns s = Some s' \<Longrightarrow> hand_held t s \<Longrightarrow> hand_held t s'"
proof (induction ns arbitrary: s)
  case (Cons n ns)
  then obtain N where "notifies s n = Some N" "signal_all ns (s\<lparr>signalled := signalled s @ [Notify_Event N]\<rparr>) = Some s'"
    by (auto simp: bind_eq_Some_conv)
  moreover have "hand_held t (s\<lparr>signalled := signalled s @ [Notify_Event N]\<rparr>)"
    using Cons.prems(2) by (rule hand_held_same) (simp_all add: same_wf_def same_lock_def)
  ultimately show ?case using Cons.IH by blast
qed simp

lemma CoreNotifyProtocolEntry_keeps [held_rules]:
  "CoreNotifyProtocolEntry g s = Some s' \<Longrightarrow> hand_held t s \<Longrightarrow> hand_held t s'"
  by (auto simp: CoreNotifyProtocolEntry_def bind_eq_Some_conv dest: signal_all_keeps split: if_splits)

lemma held_prot_update:
  assumes "hand_held t s" "prots s p = Some P" "Prot_Handle P' = Prot_Handle P" "Prot_Protocol P' = Prot_Protocol P"
    "wf_opens P'"
  shows "hand_held t (s\<lparr>prots := (prots s)(p \<mapsto> P')\<rparr>)"
  using assms wf_prot_update [OF _ assms(2-5)]
  by (auto intro!: hand_held_update [OF assms(1)] simp: same_lock_def no_empty_def dest: handheldD)

lemma held_handle_update:
  assumes "hand_held t s" "handles s h = Some H" "Protocols H' = Protocols H"
  shows "hand_held t (s\<lparr>handles := (handles s)(h \<mapsto> H')\<rparr>)"
  using assms wf_handle_update [OF _ assms(2,3)]
  by (auto intro!: hand_held_update [OF assms(1)] simp: same_lock_def dest: handheldD)

text \<open>Scanning the open list changes no attributes, so no driver is added.\<close>

lemma open_scan_attributes:
  "open_scan a c attr ds b x = (r, b', x', ds') \<Longrightarrow>
    map Attributes ds' = map Attributes ds \<and> (r = None \<longrightarrow> b' = (b \<or> list_ex by_driver ds) \<and> x' = (x \<or> list_ex exclusive ds) \<and> ds' = ds)"
proof (induction ds arbitrary: b x b' x' ds' r)
  case (Cons d ds)
  show ?case
  proof (cases "AgentHandle d = a \<and> Attributes d = attr \<and> ControllerHandle d = c \<and> (by_driver d \<or> \<not> exclusive d)")
    case True
    then show ?thesis using Cons.prems by (auto simp: Let_def split: if_splits)
  next
    case False
    obtain r2 b2 x2 ds2 where o: "open_scan a c attr ds (b \<or> by_driver d) (x \<or> exclusive d) = (r2, b2, x2, ds2)"
      by (metis prod_cases4)
    with False Cons.prems have "(r, b', x', ds') = (r2, b2, x2, d # ds2)" by (auto simp: Let_def)
    with Cons.IH [OF o] show ?thesis by auto
  qed
qed simp

lemma drivers_map: "length (filter by_driver ds) = length (filter (\<lambda>a. a AND EFI_OPEN_PROTOCOL_BY_DRIVER \<noteq> 0) (map Attributes ds))"
  by (simp add: filter_map o_def by_driver_def [abs_def])

lemma wf_opens_scan:
  assumes "wf_opens P" "open_scan a c attr (OpenList P) b x = (r, b', x', ds')"
  shows "wf_opens (P\<lparr>OpenList := ds'\<rparr>)"
proof -
  have m: "map Attributes ds' = map Attributes (OpenList P)" using open_scan_attributes [OF assms(2)] by blast
  then have "length ds' = length (OpenList P)" by (rule map_eq_imp_length_eq)
  with m assms(1) show ?thesis unfolding wf_opens_def drivers_map by simp
qed

lemma wf_opens_filter:
  assumes "wf_opens P"
  shows "wf_opens (P\<lparr>OpenList := filter (\<lambda>d. \<not> Q d) (OpenList P),
    OpenListCount := OpenListCount P - of_nat (length (filter Q (OpenList P)))\<rparr>)"
proof -
  have "length (filter Q (OpenList P)) + length (filter (\<lambda>d. \<not> Q d) (OpenList P)) = length (OpenList P)"
    by (rule sum_length_filter_compl)
  then have "(of_nat (length (OpenList P)) :: UINTN) - of_nat (length (filter Q (OpenList P)))
      = of_nat (length (filter (\<lambda>d. \<not> Q d) (OpenList P)))"
    by (metis add_diff_cancel_left' of_nat_add)
  moreover have "filter by_driver (filter (\<lambda>d. \<not> Q d) (OpenList P)) = filter (\<lambda>d. \<not> Q d) (filter by_driver (OpenList P))"
    by (simp add: conj_commute)
  then have "length (filter by_driver (filter (\<lambda>d. \<not> Q d) (OpenList P))) \<le> length (filter by_driver (OpenList P))"
    by (metis length_filter_le)
  ultimately show ?thesis using assms by (simp add: wf_opens_def)
qed

text \<open>An entry opened by a driver is added only when there is none.\<close>

lemma wf_opens_add:
  assumes "wf_opens P" "attr AND EFI_OPEN_PROTOCOL_BY_DRIVER \<noteq> 0 \<longrightarrow> \<not> list_ex by_driver (OpenList P)"
  shows "wf_opens (P\<lparr>OpenList := OpenList P @ [\<lparr>AgentHandle = a, ControllerHandle = c, Attributes = attr, OpenCount = n\<rparr>],
    OpenListCount := OpenListCount P + 1\<rparr>)"
  using assms by (auto simp: wf_opens_def by_driver_def list_ex_iff filter_empty_conv)

lemma upd_prot_keeps:
  assumes "upd_prot p f s = Some s'" "hand_held t s"
    "\<And>P. prots s p = Some P \<Longrightarrow> Prot_Handle (f P) = Prot_Handle P \<and> Prot_Protocol (f P) = Prot_Protocol P \<and> wf_opens (f P)"
  shows "hand_held t s'"
  using assms held_prot_update by (auto simp: upd_prot_def bind_eq_Some_conv)

section \<open>The contract\<close>

locale hand_contract =
  fixes sv :: hand_services
  assumes yields: "Yield sv s = Some s' \<Longrightarrow> hand_free t s \<Longrightarrow> hand_free t s'"
    and disconnects: "Disconnect sv h d c s = Some (r, s') \<Longrightarrow> hand_free t s \<Longrightarrow> hand_free t s'"
    and connects: "Connect sv h ds path rec s = Some (r, s') \<Longrightarrow> hand_free t s \<Longrightarrow> hand_free t s'"
begin

lemma release_keeps: "CoreReleaseProtocolLock sv s = Some s' \<Longrightarrow> hand_held t s \<Longrightarrow> hand_free t s'"
  using yields [of "s\<lparr>locked := False, CurrentTpl := OwnerTpl s\<rparr>" s' t]
  by (auto simp: CoreReleaseProtocolLock_def hand_held_def hand_free_def hand_wf_defs split: if_splits)

text \<open>The loops that disconnect drivers leave the lock for each of them, and take it again.\<close>

lemma disconnect_step:
  assumes "CoreReleaseProtocolLock sv s = Some s1" "Disconnect sv h a c s1 = Some (r, s2)"
    "CoreAcquireProtocolLock s2 = Some s3" "hand_held t s"
  shows "hand_held t s3"
  using release_keeps [OF assms(1,4)] disconnects [OF assms(2)] acquire_keeps [OF assms(3)] by blast

lemma connect_step:
  assumes "CoreReleaseProtocolLock sv s = Some s1" "Connect sv h ds path rec s1 = Some (r, s2)"
    "CoreAcquireProtocolLock s2 = Some s3" "hand_held t s"
  shows "hand_held t s3"
  using release_keeps [OF assms(1,4)] connects [OF assms(2)] acquire_keeps [OF assms(3)] by blast

text \<open>After a successful run of the loop no driver is left in the open list.\<close>

lemma open_disconnect_keeps:
  assumes "open_disconnect sv h p s = Some (r, s')" "hand_held t s"
  shows "hand_held t s' \<and> (\<not> EFI_ERROR r \<longrightarrow> first_driver p s' = Some None)"
proof -
  let ?Q = "\<lambda>sv' h p s y. sv' = sv \<longrightarrow> hand_held t s \<longrightarrow>
    hand_held t (snd y) \<and> (\<not> EFI_ERROR (fst y) \<longrightarrow> first_driver p (snd y) = Some None)"
  have "?Q sv h p s (r, s')"
  proof (rule open_disconnect.raw_induct [where P = ?Q, OF _ assms(1)], intro impI, goal_cases)
    case (1 f sv' h p s y)
    note IH = 1(1) and eq = 1(2) [unfolded bind_eq_Some_conv]
    from eq obtain agent where a: "first_driver p s = Some agent" by blast
    show ?case
    proof (cases "agent = None")
      case True
      with eq a 1(4) show ?thesis by auto
    next
      case False
      with eq a 1(3) obtain s1 st s2 s3 where b: "CoreReleaseProtocolLock sv s = Some s1"
        "Disconnect sv h (the agent) NULL s1 = Some (st, s2)" "CoreAcquireProtocolLock s2 = Some s3"
        "(if EFI_ERROR st then Some (EFI_ACCESS_DENIED, s3) else f sv h p s3) = Some y"
        by (auto simp: bind_eq_Some_conv)
      from disconnect_step [OF b(1-3) 1(4)] have "hand_held t s3" .
      with b(4) IH [of sv h p s3 y] show ?thesis by (auto split: if_splits)
    qed
  qed
  with assms(2) show ?thesis by simp
qed

lemma disconnect_loop_keeps:
  assumes "disconnect_loop sv h p st s = Some (r, s')" "hand_held t s"
  shows "hand_held t s'"
proof -
  let ?Q = "\<lambda>sv' h p st s y. sv' = sv \<longrightarrow> hand_held t s \<longrightarrow> hand_held t (snd y)"
  have "?Q sv h p st s (r, s')"
  proof (rule disconnect_loop.raw_induct [where P = ?Q, OF _ assms(1)], intro impI, goal_cases)
    case (1 f sv' h p st s y)
    note IH = 1(1) and eq = 1(2) [unfolded bind_eq_Some_conv]
    from eq obtain agent where a: "first_driver p s = Some agent" by blast
    show ?case
    proof (cases "agent = None")
      case True
      with eq a 1(4) show ?thesis by auto
    next
      case False
      with eq a 1(3) obtain s1 st s2 s3 where b: "CoreReleaseProtocolLock sv s = Some s1"
        "Disconnect sv h (the agent) NULL s1 = Some (st, s2)" "CoreAcquireProtocolLock s2 = Some s3"
        "(if EFI_ERROR st then Some (st, s3) else f sv h p st s3) = Some y"
        by (auto simp: bind_eq_Some_conv)
      from disconnect_step [OF b(1-3) 1(4)] have "hand_held t s3" .
      with b(4) IH [of sv h p st s3 y] show ?thesis by (auto split: if_splits)
    qed
  qed
  with assms(2) show ?thesis by simp
qed


section \<open>Opening and closing\<close>

lemma first_driver_None: "first_driver p s = Some None \<Longrightarrow> prots s p = Some P \<Longrightarrow> \<not> list_ex by_driver (OpenList P)"
  by (auto simp: first_driver_def find_None_iff list_ex_iff)

text \<open>The attributes with the driver bit that get past the checks.\<close>

definition open_attr :: "UINT32 \<Rightarrow> bool" where
  "open_attr attr \<longleftrightarrow> attr AND EFI_OPEN_PROTOCOL_BY_DRIVER \<noteq> 0 \<longrightarrow>
     attr = EFI_OPEN_PROTOCOL_BY_DRIVER \<or> attr = EFI_OPEN_PROTOCOL_BY_DRIVER OR EFI_OPEN_PROTOCOL_EXCLUSIVE"

lemma open_check_attr: "open_check u i c attr s = Some st \<Longrightarrow> \<not> EFI_ERROR st \<Longrightarrow> open_attr attr"
  by (auto simp: open_check_def open_attr_def EFI_OPEN_PROTOCOL_BY_DRIVER_def EFI_OPEN_PROTOCOL_BY_CHILD_CONTROLLER_def
      EFI_OPEN_PROTOCOL_EXCLUSIVE_def EFI_OPEN_PROTOCOL_BY_HANDLE_PROTOCOL_def EFI_OPEN_PROTOCOL_GET_PROTOCOL_def
      EFI_OPEN_PROTOCOL_TEST_PROTOCOL_def split: if_splits)

lemma open_prot_keeps:
  assumes "open_prot sv u p i c attr s = Some (st, s')" "hand_held t s" "open_attr attr"
  shows "hand_held t s'"
proof -
  from assms(1) obtain P where P: "prots s p = Some P" by (auto simp: open_prot_def bind_eq_Some_conv)
  obtain r b x ds where o: "open_scan i c attr (OpenList P) False False = (r, b, x, ds)" by (metis prod_cases4)
  note w = wf_protsD(3) [OF handheldD(1) [OF assms(2)] P]
  show ?thesis
  proof (cases r)
    case (Some st')
    then show ?thesis
      using assms(1) P o held_prot_update [OF assms(2) P _ _ wf_opens_scan [OF w o]]
      by (auto simp: open_prot_def)
  next
    case None
    note sc = open_scan_attributes [OF o, THEN conjunct2, rule_format, OF None]
    let ?m = "if attr = EFI_OPEN_PROTOCOL_BY_DRIVER
            then Some (if x \<or> b then EFI_ACCESS_DENIED else EFI_SUCCESS, s)
            else if attr = EFI_OPEN_PROTOCOL_BY_DRIVER OR EFI_OPEN_PROTOCOL_EXCLUSIVE
                 \<or> attr = EFI_OPEN_PROTOCOL_EXCLUSIVE
            then if x then Some (EFI_ACCESS_DENIED, s)
                 else if b then open_disconnect sv u p s
                 else Some (EFI_SUCCESS, s)
            else Some (EFI_SUCCESS, s)"
    obtain st1 s1 where m: "?m = Some (st1, s1)"
      and k: "(if EFI_ERROR st1 then Some (st1, s1)
         else if i = NULL then Some (EFI_SUCCESS, s1)
         else let (a, s) = hand_alloc (\<lambda>_. False) s1 in
           if a = NULL then Some (EFI_OUT_OF_RESOURCES, s)
           else do {
             s \<leftarrow> upd_prot p (\<lambda>Prot. Prot\<lparr>
                     OpenList := OpenList Prot @ [\<lparr>AgentHandle = i, ControllerHandle = c,
                                                   Attributes = attr, OpenCount = 1\<rparr>],
                     OpenListCount := OpenListCount Prot + 1\<rparr>) s;
             Some (EFI_SUCCESS, s) }) = Some (st, s')"
      using assms(1) P o None unfolding open_prot_def by (auto simp: bind_eq_Some_conv split del: if_split)
    have s1: "hand_held t s1"
      using m assms(2) open_disconnect_keeps [of u p s st1 s1 t] by (auto split: if_splits)
    have nd: "\<not> list_ex by_driver (OpenList Q)"
      if "\<not> EFI_ERROR st1" "attr AND EFI_OPEN_PROTOCOL_BY_DRIVER \<noteq> 0" "prots s1 p = Some Q" for Q
      using that m assms(2,3) sc P open_disconnect_keeps [of u p s st1 s1 t] first_driver_None
      by (auto simp: open_attr_def split: if_splits)
    obtain a s2 where a: "hand_alloc (\<lambda>_. False) s1 = (a, s2)" by fastforce
    have s2: "hand_held t s2" using hand_alloc_held [OF a s1] .
    have pr: "prots s2 = prots s1" by (subst hand_alloc_cases(1) [OF a]) simp
    show ?thesis
    proof (cases "EFI_ERROR st1 \<or> i = NULL \<or> a = NULL")
      case True
      then show ?thesis using k a s1 s2 by (auto split: if_splits)
    next
      case False
      then have "upd_prot p (\<lambda>Prot. Prot\<lparr>
                     OpenList := OpenList Prot @ [\<lparr>AgentHandle = i, ControllerHandle = c,
                                                   Attributes = attr, OpenCount = 1\<rparr>],
                     OpenListCount := OpenListCount Prot + 1\<rparr>) s2 = Some s'"
        using k a by (auto simp: bind_eq_Some_conv)
      then show ?thesis
        using s2 by (rule upd_prot_keeps)
          (use False nd pr wf_protsD(3) [OF handheldD(1) [OF s2]] in \<open>auto intro!: wf_opens_add\<close>)
    qed
  qed
qed

end

end
