(* ===== verification/Hand_Keeps.thy ===== *)
theory Hand_Keeps
  imports Hand_Contract
begin

text \<open>
  Every service of the handle database keeps the contract.
\<close>

context hand_contract
begin

section \<open>Opening and closing\<close>

lemma CoreOpenProtocol_keeps:
  assumes "CoreOpenProtocol sv u Protocol hi i c attr s = Some (st, r, s')" "hand_free t s"
  shows "hand_free t s'"
proof (cases "Protocol = None \<or> attr \<noteq> EFI_OPEN_PROTOCOL_TEST_PROTOCOL \<and> \<not> hi")
  case True
  then show ?thesis using assms by (cases Protocol) (auto simp: CoreOpenProtocol_def)
next
  case False
  then obtain g where g: "Protocol = Some g" by auto
  let ?b = "\<lambda>st2 s1. (if EFI_ERROR st2 then Some (st2, None, s1)
               else do {
                 Prot \<leftarrow> CoreGetProtocolInterface u g s1;
                 case Prot of
                   None \<Rightarrow> Some (EFI_UNSUPPORTED, None, s1)
                 | Some p \<Rightarrow> do {
                     (Status, s) \<leftarrow> open_prot sv u p i c attr s1;
                     Some (Status, Some p, s) } })"
  from False g assms(1) obtain s1 st1 st2 p s2 where
    d: "CoreAcquireProtocolLock s = Some s1" "CoreValidateHandle u s1 = Some st1"
      "(if EFI_ERROR st1 then Some st1 else open_check u i c attr s1) = Some st2"
      "?b st2 s1 = Some (st, p, s2)" "CoreReleaseProtocolLock sv s2 = Some s'"
    unfolding CoreOpenProtocol_def by (auto simp: bind_eq_Some_conv split del: if_split)
  note h1 = acquire_keeps [OF d(1) assms(2)]
  have "hand_held t s2"
  proof (cases "EFI_ERROR st2")
    case True
    with d(4) h1 show ?thesis by auto
  next
    case False
    then have "open_attr attr" using d(3) open_check_attr by (auto split: if_splits)
    with False d(4) h1 show ?thesis
      by (auto simp: bind_eq_Some_conv split: option.splits dest: open_prot_keeps)
  qed
  with d(5) show ?thesis by (rule release_keeps)
qed

lemma CoreHandleProtocol_keeps:
  "CoreHandleProtocol sv u g hi s = Some (st, r, s') \<Longrightarrow> hand_free t s \<Longrightarrow> hand_free t s'"
  unfolding CoreHandleProtocol_def by (rule CoreOpenProtocol_keeps)

lemma CoreCloseProtocol_keeps:
  assumes "CoreCloseProtocol sv u Protocol a c s = Some (st, s')" "hand_free t s"
  shows "hand_free t s'"
proof -
  let ?b = "\<lambda>st1 s1. (if EFI_ERROR st1 then Some (st1, s1)
        else case Protocol of
          None \<Rightarrow> Some (EFI_INVALID_PARAMETER, s1)
        | Some g \<Rightarrow> do {
            r \<leftarrow> CoreGetProtocolInterface u g s1;
            case r of
              None \<Rightarrow> Some (EFI_NOT_FOUND, s1)
            | Some p \<Rightarrow> do {
                Prot \<leftarrow> prots s1 p;
                let gone = filter (opened_by a c) (OpenList Prot);
                Some (if gone = [] then EFI_NOT_FOUND else EFI_SUCCESS,
                  s1\<lparr>prots := (prots s1)(p \<mapsto> Prot\<lparr>
                    OpenList := filter (\<lambda>d. \<not> opened_by a c d) (OpenList Prot),
                    OpenListCount := OpenListCount Prot - of_nat (length gone)\<rparr>)\<rparr>) } })"
  from assms(1) obtain s1 st1 s2 where
    d: "CoreAcquireProtocolLock s = Some s1" "?b st1 s1 = Some (st, s2)" "CoreReleaseProtocolLock sv s2 = Some s'"
    unfolding CoreCloseProtocol_def by (auto simp: bind_eq_Some_conv split del: if_split)
  note h1 = acquire_keeps [OF d(1) assms(2)]
  have "hand_held t s2"
  proof (cases "\<exists>g p P. Protocol = Some g \<and> CoreGetProtocolInterface u g s1 = Some (Some p) \<and> prots s1 p = Some P \<and> \<not> EFI_ERROR st1")
    case True
    then obtain g p P where e: "Protocol = Some g" "CoreGetProtocolInterface u g s1 = Some (Some p)" "prots s1 p = Some P" "\<not> EFI_ERROR st1"
      by blast
    have "hand_held t (s1\<lparr>prots := (prots s1)(p \<mapsto> P\<lparr>
                    OpenList := filter (\<lambda>d. \<not> opened_by a c d) (OpenList P),
                    OpenListCount := OpenListCount P - of_nat (length (filter (opened_by a c) (OpenList P)))\<rparr>)\<rparr>)"
      by (rule held_prot_update [OF h1 e(3) _ _ wf_opens_filter])
        (simp_all add: wf_protsD(3) [OF handheldD(1) [OF h1] e(3)])
    with d(2) e show ?thesis by (auto simp: Let_def)
  next
    case False
    with d(2) h1 show ?thesis by (auto simp: bind_eq_Some_conv split: if_splits option.splits)
  qed
  with d(3) show ?thesis by (rule release_keeps)
qed

lemma CoreOpenProtocolInformation_keeps:
  assumes "CoreOpenProtocolInformation sv u g s = Some (st, r, s')" "hand_free t s"
  shows "hand_free t s'"
proof -
  let ?b = "\<lambda>st1 s1. (if EFI_ERROR st1 then Some (EFI_NOT_FOUND, [], s1)
        else do {
          r \<leftarrow> CoreGetProtocolInterface u g s1;
          case r of
            None \<Rightarrow> Some (EFI_NOT_FOUND, [], s1)
          | Some p \<Rightarrow> do {
              Prot \<leftarrow> prots s1 p;
              if of_nat (length (OpenList Prot)) \<noteq> OpenListCount Prot then None
              else let (Buffer, s) = hand_alloc (\<lambda>_. False) s1 in
                if Buffer = NULL then Some (EFI_OUT_OF_RESOURCES, [], s)
                else Some (EFI_SUCCESS, OpenList Prot, s) } })"
  from assms(1) obtain s1 st1 s2 where
    d: "CoreAcquireProtocolLock s = Some s1" "?b st1 s1 = Some (st, r, s2)" "CoreReleaseProtocolLock sv s2 = Some s'"
    unfolding CoreOpenProtocolInformation_def by (auto simp: bind_eq_Some_conv split del: if_split)
  obtain a s3 where a: "hand_alloc (\<lambda>_. False) s1 = (a, s3)" by fastforce
  note h1 = acquire_keeps [OF d(1) assms(2)]
  have "s2 = s1 \<or> s2 = s3"
    using d(2) a by (auto simp: bind_eq_Some_conv split: if_splits option.splits)
  with h1 hand_alloc_held [OF a h1] have "hand_held t s2" by auto
  with d(3) show ?thesis by (rule release_keeps)
qed

lemma CoreProtocolsPerHandle_keeps:
  assumes "CoreProtocolsPerHandle sv u b s = Some (st, r, s')" "hand_free t s"
  shows "hand_free t s'"
proof (cases b)
  case True
  let ?b = "\<lambda>st1 s1. (if EFI_ERROR st1 then Some (st1, [], s1)
           else do {
             H \<leftarrow> handles s1 u;
             if Protocols H = [] then Some (EFI_INVALID_PARAMETER, [], s1)
             else let (a, s) = hand_alloc (\<lambda>_. False) s1 in
               if a = NULL then Some (EFI_OUT_OF_RESOURCES, [], s)
               else do {
                 gs \<leftarrow> prot_guids (Protocols H) s;
                 Some (EFI_SUCCESS, gs, s) } })"
  from assms(1) True obtain s1 st1 s2 where
    d: "CoreAcquireProtocolLock s = Some s1" "?b st1 s1 = Some (st, r, s2)" "CoreReleaseProtocolLock sv s2 = Some s'"
    unfolding CoreProtocolsPerHandle_def by (auto simp: bind_eq_Some_conv split del: if_split)
  obtain a s3 where a: "hand_alloc (\<lambda>_. False) s1 = (a, s3)" by fastforce
  note h1 = acquire_keeps [OF d(1) assms(2)]
  have "s2 = s1 \<or> s2 = s3"
    using d(2) a by (auto simp: bind_eq_Some_conv split: if_splits option.splits)
  with h1 hand_alloc_held [OF a h1] have "hand_held t s2" by auto
  with d(3) show ?thesis by (rule release_keeps)
qed (use assms in \<open>auto simp: CoreProtocolsPerHandle_def\<close>)

section \<open>Notifications\<close>

lemma CoreRegisterProtocolNotify_keeps:
  assumes "CoreRegisterProtocolNotify sv Protocol e b s = Some (st, r, s')" "hand_free t s"
  shows "hand_free t s'"
proof (cases "Protocol = None \<or> events s e = None \<or> e = NULL \<or> \<not> b")
  case True
  then show ?thesis using assms by (auto simp: CoreRegisterProtocolNotify_def split: option.splits)
next
  case False
  then obtain g x where g: "Protocol = Some g" "events s e = Some x" by auto
  let ?n = "\<lambda>E s2. (case E of
                 None \<Rightarrow> (NULL, s2)
               | Some _ \<Rightarrow>
                   let (a, s) = hand_alloc (\<lambda>a. notifies s2 a \<noteq> None) s2 in
                   if a = NULL then (NULL, s)
                   else (a, upd_entry g (\<lambda>e. e\<lparr>Entry_Notify := Entry_Notify e @ [a]\<rparr>)
                     (s\<lparr>events := (events s)(e \<mapsto> x OR EVT_EXFLAG_PROTOCOL_NOTIFICATION),
                        notifies := (notifies s)(a \<mapsto>
                          \<lparr>Notify_Protocol = g, Notify_Event = e, Notify_Position = None\<rparr>)\<rparr>)))"
  from False g assms(1) obtain s1 E s2 where
    d: "CoreAcquireProtocolLock s = Some s1" "CoreFindProtocolEntry g True s1 = Some (E, s2)"
    and k: "(let (a, s) = ?n E s2 in do {
        s \<leftarrow> CoreReleaseProtocolLock sv s;
        if a = NULL then Some (EFI_OUT_OF_RESOURCES, None, s) else Some (EFI_SUCCESS, Some a, s) }) = Some (st, r, s')"
    unfolding CoreRegisterProtocolNotify_def by (auto simp: bind_eq_Some_conv [of "CoreAcquireProtocolLock s"]
        bind_eq_Some_conv [of "CoreFindProtocolEntry g True _"])
  obtain a s3 where n: "?n E s2 = (a, s3)" by (rule prod.exhaust)
  have rel: "CoreReleaseProtocolLock sv s3 = Some s'"
    using k unfolding n by (auto simp: bind_eq_Some_conv split: if_splits)
  note h2 = CoreFindProtocolEntry_held [OF acquire_keeps [OF d(1) assms(2)] d(2)]
  obtain b s4 where b: "hand_alloc (\<lambda>a. notifies s2 a \<noteq> None) s2 = (b, s4)" by fastforce
  have h4: "hand_held t s4" using hand_alloc_held [OF b] h2 by blast
  have f: "mProtocolDatabase s4 = mProtocolDatabase s2" "notifies s4 = notifies s2"
    by (subst hand_alloc_cases(1) [OF b], simp)+
  have "hand_held t s3"
  proof (cases "E = None \<or> b = NULL")
    case True
    with n b h2 h4 show ?thesis by (auto split: option.splits)
  next
    case False
    let ?s = "s4\<lparr>events := (events s4)(e \<mapsto> x OR EVT_EXFLAG_PROTOCOL_NOTIFICATION)\<rparr>"
    have s3: "s3 = upd_entry g (\<lambda>e. e\<lparr>Entry_Notify := Entry_Notify e @ [b]\<rparr>)
        (?s\<lparr>notifies := (notifies ?s)(b \<mapsto> \<lparr>Notify_Protocol = g, Notify_Event = e, Notify_Position = None\<rparr>)\<rparr>)"
      using False n b by (auto split: option.splits)
    have hs: "hand_held t ?s" using h4 by (rule hand_held_same) (simp_all add: same_wf_def same_lock_def)
    show ?thesis
      unfolding s3
    proof (rule hand_held_update [OF hs])
      show "hand_wf (upd_entry g (\<lambda>e. e\<lparr>Entry_Notify := Entry_Notify e @ [b]\<rparr>)
        (?s\<lparr>notifies := (notifies ?s)(b \<mapsto> \<lparr>Notify_Protocol = g, Notify_Event = e, Notify_Position = None\<rparr>)\<rparr>))"
        using h2 False f hand_alloc_cases(2) [OF b] by (intro wf_notify_new [OF handheldD(1) [OF hs]]) auto
    qed (use handheldD(2) [OF hs] in \<open>simp_all add: same_lock_def no_empty_def\<close>)
  qed
  with rel show ?thesis by (rule release_keeps)
qed

lemma unregister_loop_keeps:
  assumes "unregister_loop e es s = Some (st, s')" "hand_held t s" "set es \<subseteq> set (mProtocolDatabase s)"
  shows "hand_held t s'"
  using assms
proof (induction es)
  case (Cons x es)
  have fn: "find_notify e ns s = Some (Some n) \<Longrightarrow> n \<in> set ns \<and> notifies s n \<noteq> None" for ns n
    by (induction ns) (auto simp: bind_eq_Some_conv split: if_splits)
  from Cons.prems(1) obtain r where r: "find_notify e (Entry_Notify x) s = Some r" by (auto simp: bind_eq_Some_conv)
  show ?case
  proof (cases r)
    case None
    then show ?thesis using Cons r by simp
  next
    case (Some n)
    have s': "s' = upd_entry (ProtocolID x) (\<lambda>e. e\<lparr>Entry_Notify := remove1 n (Entry_Notify e)\<rparr>)
           (s\<lparr>notifies := (notifies s)(n := None)\<rparr>)"
      using Cons.prems(1) r Some by simp
    have x: "x \<in> set (mProtocolDatabase s)" using Cons.prems(3) by simp
    with fn r Some obtain N where "notifies s n = Some N" "Notify_Protocol N = ProtocolID x"
      using wf_entriesD(4) [OF handheldD(1) [OF Cons.prems(2)] x, of n] by blast
    then show ?thesis
      unfolding s' using wf_notify_delete [OF handheldD(1) [OF Cons.prems(2)]] handheldD(2) [OF Cons.prems(2)]
      by (intro hand_held_update [OF Cons.prems(2)]) (auto simp: same_lock_def no_empty_def)
  qed
qed simp

lemma CoreUnregisterProtocolNotifyEvent_keeps:
  assumes "CoreUnregisterProtocolNotifyEvent sv e s = Some (st, s')" "hand_free t s"
  shows "hand_free t s'"
proof -
  from assms(1) obtain s1 s2 where d: "CoreAcquireProtocolLock s = Some s1"
    "unregister_loop e (mProtocolDatabase s1) s1 = Some (st, s2)" "CoreReleaseProtocolLock sv s2 = Some s'"
    by (auto simp: CoreUnregisterProtocolNotifyEvent_def bind_eq_Some_conv)
  from unregister_loop_keeps [OF d(2) acquire_keeps [OF d(1) assms(2)]] show ?thesis
    by (intro release_keeps [OF d(3)]) simp
qed

lemma CoreUnregisterProtocolNotify_keeps:
  assumes "CoreUnregisterProtocolNotify sv e s = Some (st, s')" "hand_free t s"
  shows "hand_free t s'"
proof -
  let ?Q = "\<lambda>sv' e s y. sv' = sv \<longrightarrow> hand_free t s \<longrightarrow> hand_free t (snd y)"
  have "?Q sv e s (st, s')"
  proof (rule CoreUnregisterProtocolNotify.raw_induct [where P = ?Q, OF _ assms(1)], intro impI, goal_cases)
    case (1 f sv' e s y)
    from 1(2,3) obtain st s1 where u: "CoreUnregisterProtocolNotifyEvent sv e s = Some (st, s1)"
      "(if EFI_ERROR st then Some (EFI_SUCCESS, s1) else f sv e s1) = Some y"
      by (auto simp: bind_eq_Some_conv)
    from CoreUnregisterProtocolNotifyEvent_keeps [OF u(1) 1(4)] u(2) 1(1) [of sv e s1 y] show ?case
      by (auto split: if_splits)
  qed
  with assms(2) show ?thesis by simp
qed

end

end
