(* ===== verification/Hand_Keeps_Install.thy ===== *)
theory Hand_Keeps_Install
  imports Hand_Keeps
begin

text \<open>
  Installing, uninstalling and reinstalling keep the contract.  In the middle of an installation the
  new handle has no interface yet, and in the middle of a removal the old one has lost its last:
  \<open>held_except\<close> is the invariant with that exception.
\<close>

definition held_except :: "EFI_HANDLE \<Rightarrow> nat \<Rightarrow> hand_db \<Rightarrow> bool" where
  "held_except h t s \<longleftrightarrow>
     hand_wf s \<and> (\<forall>h' H. handles s h' = Some H \<longrightarrow> h' \<noteq> h \<longrightarrow> Protocols H \<noteq> [])
     \<and> locked s \<and> OwnerTpl s = t \<and> CurrentTpl s = TPL_NOTIFY_LOCK"

lemma held_exceptI: "hand_held t s \<Longrightarrow> held_except h t s"
  by (auto simp: hand_held_def held_except_def no_empty_def)

lemma install_handle_held:
  assumes "install_handle h s = Some (st, h', s')" "hand_held t s"
  shows "prots s' = prots s \<and> mProtocolDatabase s' = mProtocolDatabase s
    \<and> (if EFI_ERROR st then hand_held t s' else held_except h' t s' \<and> handles s' h' \<noteq> None)"
proof (cases "h = NULL")
  case False
  have "handles s h \<noteq> None" if "CoreValidateHandle h s = Some EFI_SUCCESS"
    using that handheldD(1) [OF assms(2)] False
    by (auto simp: CoreValidateHandle_def bind_eq_Some_conv hand_wf_def wf_lists_def split: if_splits)
  moreover have "st = EFI_SUCCESS \<or> EFI_ERROR st" if "CoreValidateHandle h s = Some st"
    using that by (auto simp: CoreValidateHandle_def bind_eq_Some_conv split: if_splits)
  ultimately show ?thesis using assms False held_exceptI [OF assms(2), of h] by (auto simp: install_handle_def bind_eq_Some_conv)
next
  case True
  obtain a s1 where a: "hand_alloc (\<lambda>a. handles s a \<noteq> None) s = (a, s1)" by (rule prod.exhaust)
  note h1 = hand_alloc_held [OF a assms(2)]
  have f: "prots s1 = prots s" "mProtocolDatabase s1 = mProtocolDatabase s" "handles s1 = handles s"
    by (subst hand_alloc_cases(1) [OF a], simp)+
  show ?thesis
  proof (cases "a = NULL")
    case True
    then show ?thesis using assms \<open>h = NULL\<close> a f h1 by (simp add: install_handle_def)
  next
    case False
    then have n: "handles s1 a = None" using hand_alloc_cases(2) [OF a] f by auto
    obtain b s2 where b: "hand_alloc (\<lambda>_. False) s1 = (b, s2)" by (rule prod.exhaust)
    note h2 = hand_alloc_held [OF b h1]
    have g: "prots s2 = prots s" "mProtocolDatabase s2 = mProtocolDatabase s" "handles s2 = handles s1"
      "gOrderedHandleList s2 = gOrderedHandleList s1" "gHandleList s2 = gHandleList s1"
      by (subst hand_alloc_cases(1) [OF b], simp add: f)+
    obtain l where l: "gOrderedHandleList s1 = Some l" "set l = dom (handles s1)"
      using handheldD(1) [OF h1] by (auto simp: hand_wf_def wf_lists_def)
    have al: "a \<notin> set l" using l(2) n by auto
    let ?s = "s2\<lparr>gOrderedHandleList := Some (ordered_insert a l),
      handles := (handles s2)(a \<mapsto> \<lparr>Protocols = [], LocateRequest = 0, Key = 0\<rparr>), gHandleList := gHandleList s2 @ [a]\<rparr>"
    have w: "hand_wf ?s"
      using wf_handle_new [OF handheldD(1) [OF h2], of a l] False n g l by simp
    have "held_except a t ?s"
      using w h2 by (auto simp: held_except_def hand_held_def no_empty_def)
    then show ?thesis
      using assms(1) \<open>h = NULL\<close> a False l al b g h2
      by (auto simp: install_handle_def OrderedCollectionInsert_def Let_def split: if_splits)
  qed
qed

lemma install_prot_held:
  assumes "install_prot h p g i n s = Some s'" "held_except h t s" "prots s p = None"
    "g \<in> ProtocolID ` set (mProtocolDatabase s)"
  shows "hand_held t s'"
proof -
  define k where "k = gHandleDatabaseKey s + 1"
  from assms(1) obtain H where H: "handles s h = Some H"
    unfolding install_prot_def Let_def bind_eq_Some_conv by blast
  define s1 where "s1 = s\<lparr>gHandleDatabaseKey := k, handles := (handles s)(h \<mapsto> H\<lparr>Key := k\<rparr>)\<rparr>"
  define s2 where "s2 = upd_entry g (\<lambda>e. e\<lparr>Entry_Protocols := Entry_Protocols e @ [p]\<rparr>)
         (s1\<lparr>prots := (prots s1)(p \<mapsto> \<lparr>Prot_Handle = h, Prot_Protocol = g, Prot_Interface = i,
                                     OpenList = [], OpenListCount = 0\<rparr>),
            handles := (handles s1)(h \<mapsto> H\<lparr>Key := k, Protocols := p # Protocols H\<rparr>)\<rparr>)"
  have s': "(if n then CoreNotifyProtocolEntry g s2 else Some s2) = Some s'"
    using assms(1) H unfolding install_prot_def Let_def s2_def s1_def k_def
    by (auto simp: bind_eq_Some_conv split: if_splits)
  have w1: "hand_wf s1"
  proof -
    have "same_wf (s\<lparr>handles := (handles s)(h \<mapsto> H\<lparr>Key := k\<rparr>)\<rparr>) s1" by (simp add: s1_def same_wf_def)
    from same_wf(1) [OF this] wf_handle_update(1) [of s h H "H\<lparr>Key := k\<rparr>"] assms(2) H show ?thesis
      by (simp add: held_except_def)
  qed
  have "hand_wf s2"
    unfolding s2_def
    by (rule wf_prot_new [OF w1, where H = "H\<lparr>Key := k\<rparr>"])
      (use assms(3,4) in \<open>simp_all add: s1_def wf_opens_def\<close>)
  then have "hand_held t s2"
    using assms(2) by (auto simp: hand_held_def held_except_def no_empty_def s2_def s1_def)
  with s' show ?thesis by (auto split: if_splits dest: CoreNotifyProtocolEntry_keeps)
qed

lemma drop_prot_held:
  assumes "CoreRemoveInterfaceFromProtocol h g i s = Some (Some p, s1)" "drop_prot h p s1 = Some s'" "hand_held t s"
  shows "held_except h t s'"
proof -
  note w = handheldD(1) [OF assms(3)]
  obtain P H N' where r: "prots s p = Some P" "Prot_Protocol P = g" "Prot_Handle P = h" "handles s h = Some H"
    "moved_off p s N'"
    "s1 = upd_entry g (\<lambda>e. e\<lparr>Entry_Protocols := remove1 p (Entry_Protocols e)\<rparr>) (s\<lparr>notifies := N'\<rparr>)"
    using CoreRemoveInterfaceFromProtocol_Some [OF w assms(1)] by blast
  define k where "k = gHandleDatabaseKey s1 + 1"
  let ?H = "H\<lparr>Key := k, Protocols := remove1 p (Protocols H)\<rparr>"
  let ?s = "s1\<lparr>handles := (handles s)(h \<mapsto> ?H), prots := (prots s)(p := None)\<rparr>"
  have wf: "hand_wf ?s" unfolding r(6) by (rule wf_prot_delete [OF w r(1-5)]) simp
  have s': "s' = ?s\<lparr>gHandleDatabaseKey := k\<rparr>"
    using assms(2) r(4) by (auto simp: drop_prot_def k_def Let_def r(6))
  have "same_wf ?s s'" unfolding s' by (simp add: same_wf_def)
  from same_wf(1) [OF this] wf have "hand_wf s'" by simp
  then show ?thesis
    using assms(3) unfolding s' by (auto simp: held_except_def hand_held_def no_empty_def r(6))
qed

lemma free_handle_held:
  assumes "free_handle h s = Some s'" "held_except h t s"
  shows "hand_held t s'"
proof -
  from assms(1) obtain H where H: "handles s h = Some H" by (auto simp: free_handle_def bind_eq_Some_conv)
  show ?thesis
  proof (cases "Protocols H = []")
    case False
    then have "s' = s" using assms(1) H by (simp add: free_handle_def)
    with assms(2) H False show ?thesis
      by (simp add: held_except_def hand_held_def no_empty_def) (metis option.inject)
  next
    case True
    then obtain l where l: "gOrderedHandleList s = Some l" "s' = s\<lparr>gOrderedHandleList := Some (remove1 h l),
        gHandleList := remove1 h (gHandleList s), handles := (handles s)(h := None)\<rparr>"
      using assms(1) H by (auto simp: free_handle_def bind_eq_Some_conv split: if_splits)
    have "hand_wf s'" unfolding l(2) by (rule wf_free_handle [OF _ H True l(1)]) (use assms(2) in \<open>simp add: held_except_def\<close>)
    then show ?thesis using assms(2) by (auto simp: l(2) held_except_def hand_held_def no_empty_def)
  qed
qed

lemma reinstall_held:
  assumes "CoreRemoveInterfaceFromProtocol h g i s = Some (Some p, s1)" "hand_held t s"
    "upd_prot p (\<lambda>Prot. Prot\<lparr>Prot_Interface := j\<rparr>) s1 = Some s2" "s3 = upd_entry g (\<lambda>e. e\<lparr>Entry_Protocols := Entry_Protocols e @ [p]\<rparr>) s2"
    "handles s3 h = Some H"
  shows "hand_held t (s3\<lparr>gHandleDatabaseKey := k, handles := (handles s3)(h \<mapsto> H\<lparr>Key := k\<rparr>)\<rparr>)" (is "hand_held t ?s")
proof -
  note w = handheldD(1) [OF assms(2)]
  obtain P N' where r: "prots s p = Some P" "Prot_Protocol P = g" "moved_off p s N'"
    "s1 = upd_entry g (\<lambda>e. e\<lparr>Entry_Protocols := remove1 p (Entry_Protocols e)\<rparr>) (s\<lparr>notifies := N'\<rparr>)"
    using CoreRemoveInterfaceFromProtocol_Some [OF w assms(1)] by blast
  have s2: "s2 = s1\<lparr>prots := (prots s)(p \<mapsto> P\<lparr>Prot_Interface := j\<rparr>)\<rparr>"
    using assms(3) r(1) by (auto simp: upd_prot_def r(4))
  have "hand_wf s3"
    unfolding assms(4) s2 r(4)
    by (rule wf_prot_move [OF w r(1-3)]) (use r wf_protsD(3) [OF w r(1)] in \<open>simp_all add: wf_opens_def\<close>)
  then have "hand_held t s3"
    using assms(2) by (auto simp: hand_held_def no_empty_def assms(4) s2 r(4))
  then have "hand_held t (s3\<lparr>handles := (handles s3)(h \<mapsto> H\<lparr>Key := k\<rparr>)\<rparr>)"
    by (rule held_handle_update [OF _ assms(5)]) simp
  then show ?thesis by (rule hand_held_same) (simp_all add: same_wf_def same_lock_def)
qed

section \<open>The services\<close>

context hand_contract
begin

lemma IsDevicePathInstalled_keeps:
  assumes "IsDevicePathInstalled sv d s = Some (r, s')" "hand_free t s"
  shows "hand_free t s'"
proof (cases "d = NULL")
  case False
  with assms(1) obtain s1 E s2 where d: "CoreAcquireProtocolLock s = Some s1"
    "CoreFindProtocolEntry gEfiDevicePathProtocolGuid False s1 = Some (E, s2)" "CoreReleaseProtocolLock sv s2 = Some s'"
    by (auto simp: IsDevicePathInstalled_def bind_eq_Some_conv split: if_splits)
  from release_keeps [OF d(3) CoreFindProtocolEntry_keeps [OF d(2) acquire_keeps [OF d(1) assms(2)]]] show ?thesis .
qed (use assms in \<open>simp add: IsDevicePathInstalled_def\<close>)

lemma CoreInstallProtocolInterfaceNotify_keeps:
  assumes "CoreInstallProtocolInterfaceNotify sv UserHandle Protocol native i n s = Some (st, r, s')" "hand_free t s"
  shows "hand_free t s'"
proof (cases "UserHandle = None \<or> Protocol = None \<or> \<not> native")
  case True
  then show ?thesis using assms by (auto simp: CoreInstallProtocolInterfaceNotify_def split: option.splits)
next
  case False
  then obtain u g where u: "UserHandle = Some u" "Protocol = Some g" "native" by auto
  obtain st0 x s0 where z: "(if u \<noteq> NULL then CoreHandleProtocol sv u (Some g) True s
      else Some (EFI_OUT_OF_RESOURCES, None, s)) = Some (st0, x, s0)"
    (is "?z = _")
    using assms(1) u by (cases ?z) (auto simp: CoreInstallProtocolInterfaceNotify_def split del: if_split)
  have f0: "hand_free t s0" using z assms(2) CoreHandleProtocol_keeps by (auto split: if_splits)
  show ?thesis
  proof (cases "u \<noteq> NULL \<and> \<not> EFI_ERROR st0")
    case True
    then show ?thesis using assms(1) u z f0 by (simp add: CoreInstallProtocolInterfaceNotify_def)
  next
    case False
    let ?b = "\<lambda>E s2. (if E = None then Some (st0, NULL, s2)
                 else let (p, s) = hand_alloc (\<lambda>a. prots s2 a \<noteq> None) s2 in
                   if p = NULL then Some (EFI_OUT_OF_RESOURCES, NULL, s)
                   else do {
                     (Status, h, s) \<leftarrow> install_handle u s;
                     if EFI_ERROR Status then Some (Status, h, s)
                     else do {
                       s \<leftarrow> install_prot h p g i n s;
                       Some (EFI_SUCCESS, h, s) } })"
    have a: "do { s \<leftarrow> CoreAcquireProtocolLock s0;
              (E, s) \<leftarrow> CoreFindProtocolEntry g True s;
              (Status, h, s) \<leftarrow> ?b E s;
              s \<leftarrow> CoreReleaseProtocolLock sv s;
              Some (Status, if EFI_ERROR Status then UserHandle else Some h, s) } = Some (st, r, s')"
      using assms(1) u z False unfolding CoreInstallProtocolInterfaceNotify_def by (simp split del: if_split)
    from a obtain s1 E s2 h s3 where d: "CoreAcquireProtocolLock s0 = Some s1" "CoreFindProtocolEntry g True s1 = Some (E, s2)"
      "?b E s2 = Some (st, h, s3)" "CoreReleaseProtocolLock sv s3 = Some s'"
      by (auto simp: bind_eq_Some_conv split del: if_split)
    note h2 = CoreFindProtocolEntry_held [OF acquire_keeps [OF d(1) f0] d(2)]
    have h2': "hand_held t s2" using h2 by blast
    obtain p s4 where p: "hand_alloc (\<lambda>a. prots s2 a \<noteq> None) s2 = (p, s4)" by (rule prod.exhaust)
    note h4 = hand_alloc_held [OF p h2']
    have f4: "prots s4 = prots s2" "mProtocolDatabase s4 = mProtocolDatabase s2"
      by (subst hand_alloc_cases(1) [OF p], simp)+
    have "hand_held t s3"
    proof (cases "E = None \<or> p = NULL")
      case True
      with d(3) [unfolded p] h2' h4 show ?thesis by (auto split: if_splits)
    next
      case False
      then obtain st5 h5 s5 where i5: "install_handle u s4 = Some (st5, h5, s5)"
        and k: "(if EFI_ERROR st5 then Some (st5, h5, s5) else do {
                       s \<leftarrow> install_prot h5 p g i n s5;
                       Some (EFI_SUCCESS, h5, s) }) = Some (st, h, s3)"
        using d(3) p by (auto simp: bind_eq_Some_conv split del: if_split)
      note h5 = install_handle_held [OF i5 h4]
      have "prots s5 p = None" "g \<in> ProtocolID ` set (mProtocolDatabase s5)"
        using h5 f4 h2 False hand_alloc_cases(2) [OF p] by auto
      with k h5 show ?thesis
        by (auto simp: bind_eq_Some_conv split: if_splits dest: install_prot_held)
    qed
    with d(4) show ?thesis by (rule release_keeps)
  qed
qed

lemma CoreInstallProtocolInterface_keeps:
  "CoreInstallProtocolInterface sv u g native i s = Some (st, r, s') \<Longrightarrow> hand_free t s \<Longrightarrow> hand_free t s'"
  unfolding CoreInstallProtocolInterface_def by (rule CoreInstallProtocolInterfaceNotify_keeps)

lemma disconnect_controllers_keeps:
  assumes "CoreDisconnectControllersUsingProtocolInterface sv h p s = Some (st, s')" "hand_held t s"
  shows "hand_held t s'"
proof -
  let ?f = "\<lambda>Prot. Prot\<lparr>
                  OpenList := filter (\<lambda>d. \<not> by_lookup d) (OpenList Prot),
                  OpenListCount := OpenListCount Prot - of_nat (length (filter by_lookup (OpenList Prot)))\<rparr>"
  from assms(1) obtain st1 s1 s2 P where d: "disconnect_loop sv h p EFI_SUCCESS s = Some (st1, s1)"
    "(if EFI_ERROR st1 then Some s1 else upd_prot p ?f s1) = Some s2" "prots s2 p = Some P"
    "(if EFI_ERROR st1 \<or> 0 < OpenListCount P
     then do {
       s \<leftarrow> CoreReleaseProtocolLock sv s2;
       (_, s) \<leftarrow> Connect sv h None None True s;
       s \<leftarrow> CoreAcquireProtocolLock s;
       Some (EFI_ACCESS_DENIED, s) }
     else Some (st1, s2)) = Some (st, s')"
    unfolding CoreDisconnectControllersUsingProtocolInterface_def
    by (auto simp: bind_eq_Some_conv split del: if_split)
  note h1 = disconnect_loop_keeps [OF d(1) assms(2)]
  have h2: "hand_held t s2"
  proof (cases "EFI_ERROR st1")
    case False
    then have "upd_prot p ?f s1 = Some s2" using d(2) by simp
    then show ?thesis
      using h1 by (rule upd_prot_keeps) (use wf_protsD(3) [OF handheldD(1) [OF h1]] in \<open>auto intro: wf_opens_filter\<close>)
  qed (use d(2) h1 in simp)
  show ?thesis
  proof (cases "EFI_ERROR st1 \<or> 0 < OpenListCount P")
    case True
    then obtain s3 x s4 where "CoreReleaseProtocolLock sv s2 = Some s3" "Connect sv h None None True s3 = Some (x, s4)"
      "CoreAcquireProtocolLock s4 = Some s'"
      using d(4) by (auto simp: bind_eq_Some_conv)
    from connect_step [OF this h2] show ?thesis .
  qed (use d(4) h2 in simp)
qed

text \<open>The search for the interface and the disconnection, which removal and reinstallation share.\<close>

lemma uninstall_found_keeps:
  assumes "CoreDisconnectControllersUsingProtocolInterface sv h p s = Some (st1, s1)" "hand_held t s" "\<not> EFI_ERROR st1"
    "CoreRemoveInterfaceFromProtocol h g i s1 = Some (r, s2)"
    "(case r of None \<Rightarrow> Some (EFI_NOT_FOUND, s2)
      | Some p \<Rightarrow> do { s \<leftarrow> drop_prot h p s2; Some (EFI_SUCCESS, s) }) = Some (st, s3)"
    "free_handle h s3 = Some s'"
  shows "hand_held t s'"
proof -
  note h1 = disconnect_controllers_keeps [OF assms(1,2)]
  have "held_except h t s3"
  proof (cases r)
    case None
    have "s2 = s1"
      using assms(4) None by (auto simp: CoreRemoveInterfaceFromProtocol_def bind_eq_Some_conv split: if_splits option.splits)
    with None assms(5) held_exceptI [OF h1] show ?thesis by simp
  next
    case (Some q)
    with assms(4,5) show ?thesis using drop_prot_held [of h g i s1 q s2 s3 t] h1 by (auto simp: bind_eq_Some_conv)
  qed
  with assms(6) show ?thesis by (rule free_handle_held)
qed

lemma CoreUninstallProtocolInterface_keeps:
  assumes "CoreUninstallProtocolInterface sv h Protocol i s = Some (st, s')" "hand_free t s"
  shows "hand_free t s'"
proof (cases Protocol)
  case None
  then show ?thesis using assms by (simp add: CoreUninstallProtocolInterface_def)
next
  case (Some g)
  let ?k = "\<lambda>p s1. do {
                   (Status, s) \<leftarrow> CoreDisconnectControllersUsingProtocolInterface sv h p s1;
                   if EFI_ERROR Status then Some (Status, s)
                   else do {
                     (Prot, s) \<leftarrow> CoreRemoveInterfaceFromProtocol h g i s;
                     (Status, s) \<leftarrow>
                       (case Prot of
                          None \<Rightarrow> Some (EFI_NOT_FOUND, s)
                        | Some p \<Rightarrow> do { s \<leftarrow> drop_prot h p s; Some (EFI_SUCCESS, s) });
                     s \<leftarrow> free_handle h s;
                     Some (Status, s) } }"
  have k: "hand_held t s2" if "?k p s1 = Some (st, s2)" "hand_held t s1" for p s1 s2
  proof -
    from that(1) obtain st1 s3 where d: "CoreDisconnectControllersUsingProtocolInterface sv h p s1 = Some (st1, s3)"
      "(if EFI_ERROR st1 then Some (st1, s3)
                   else do {
                     (Prot, s) \<leftarrow> CoreRemoveInterfaceFromProtocol h g i s3;
                     (Status, s) \<leftarrow>
                       (case Prot of
                          None \<Rightarrow> Some (EFI_NOT_FOUND, s)
                        | Some p \<Rightarrow> do { s \<leftarrow> drop_prot h p s; Some (EFI_SUCCESS, s) });
                     s \<leftarrow> free_handle h s;
                     Some (Status, s) }) = Some (st, s2)"
      unfolding bind_eq_Some_conv by auto
    show ?thesis
    proof (cases "EFI_ERROR st1")
      case True
      then show ?thesis using d(2) disconnect_controllers_keeps [OF d(1) that(2)] by simp
    next
      case False
      with d(2) obtain r s4 s5 where "CoreRemoveInterfaceFromProtocol h g i s3 = Some (r, s4)"
        "(case r of None \<Rightarrow> Some (EFI_NOT_FOUND, s4)
           | Some p \<Rightarrow> do { s \<leftarrow> drop_prot h p s4; Some (EFI_SUCCESS, s) }) = Some (st, s5)" "free_handle h s5 = Some s2"
        by (auto simp: bind_eq_Some_conv)
      from uninstall_found_keeps [OF d(1) that(2) False this] show ?thesis .
    qed
  qed
  let ?b = "\<lambda>st1 s1. (if EFI_ERROR st1 then Some (st1, s1)
             else do {
               Prot \<leftarrow> CoreFindProtocolInterface h g i s1;
               case Prot of
                 None \<Rightarrow> Some (EFI_NOT_FOUND, s1)
               | Some p \<Rightarrow> ?k p s1 })"
  from assms(1) Some obtain s1 st1 s2 where d: "CoreAcquireProtocolLock s = Some s1"
    "?b st1 s1 = Some (st, s2)" "CoreReleaseProtocolLock sv s2 = Some s'"
    unfolding CoreUninstallProtocolInterface_def by (auto simp: bind_eq_Some_conv split del: if_split)
  note h1 = acquire_keeps [OF d(1) assms(2)]
  have "hand_held t s2"
  proof (cases "EFI_ERROR st1")
    case False
    with d(2) have "CoreFindProtocolInterface h g i s1 \<bind> (\<lambda>r. case r of None \<Rightarrow> Some (EFI_NOT_FOUND, s1) | Some p \<Rightarrow> ?k p s1)
        = Some (st, s2)"
      by simp
    then obtain r where r: "(case r of None \<Rightarrow> Some (EFI_NOT_FOUND, s1) | Some p \<Rightarrow> ?k p s1) = Some (st, s2)"
      unfolding bind_eq_Some_conv by blast
    show ?thesis
    proof (cases r)
      case (Some p)
      show ?thesis by (rule k [OF r [unfolded Some option.case] h1])
    qed (use r h1 in simp)
  qed (use d(2) h1 in simp)
  with d(3) show ?thesis by (rule release_keeps)
qed


lemma CoreReinstallProtocolInterface_keeps:
  assumes "CoreReinstallProtocolInterface sv h Protocol i j s = Some (st, s')" "hand_free t s"
  shows "hand_free t s'"
proof (cases Protocol)
  case None
  then show ?thesis using assms by (simp add: CoreReinstallProtocolInterface_def)
next
  case (Some g)
  let ?m = "\<lambda>p s3. do {
                         s \<leftarrow> upd_prot p (\<lambda>Prot. Prot\<lparr>Prot_Interface := j\<rparr>) s3;
                         let s = upd_entry g (\<lambda>e. e\<lparr>Entry_Protocols := Entry_Protocols e @ [p]\<rparr>) s;
                         let k = gHandleDatabaseKey s + 1;
                         H \<leftarrow> handles s h;
                         let s = s\<lparr>gHandleDatabaseKey := k, handles := (handles s)(h \<mapsto> H\<lparr>Key := k\<rparr>)\<rparr>;
                         s \<leftarrow> CoreReleaseProtocolLock sv s;
                         (_, s) \<leftarrow> Connect sv h None None True s;
                         s \<leftarrow> CoreAcquireProtocolLock s;
                         s \<leftarrow> CoreNotifyProtocolEntry g s;
                         Some (EFI_SUCCESS, s) }"
  have m: "hand_held t s4"
    if r: "CoreRemoveInterfaceFromProtocol h g i s2 = Some (Some p, s3)" "hand_held t s2" "?m p s3 = Some (st, s4)" for p s2 s3 s4
  proof -
    from r(3) obtain u where u: "upd_prot p (\<lambda>Prot. Prot\<lparr>Prot_Interface := j\<rparr>) s3 = Some u"
      by (auto simp: bind_eq_Some_conv)
    define v where "v = upd_entry g (\<lambda>e. e\<lparr>Entry_Protocols := Entry_Protocols e @ [p]\<rparr>) u"
    define k where "k = gHandleDatabaseKey v + 1"
    from r(3) u obtain H where H: "handles v h = Some H" by (auto simp: bind_eq_Some_conv Let_def v_def)
    define w where "w = v\<lparr>gHandleDatabaseKey := k, handles := (handles v)(h \<mapsto> H\<lparr>Key := k\<rparr>)\<rparr>"
    have hw: "hand_held t w" unfolding w_def by (rule reinstall_held [OF r(1,2) u v_def H])
    have "do { s \<leftarrow> CoreReleaseProtocolLock sv w;
               (_, s) \<leftarrow> Connect sv h None None True s;
               s \<leftarrow> CoreAcquireProtocolLock s;
               s \<leftarrow> CoreNotifyProtocolEntry g s;
               Some (EFI_SUCCESS, s) } = Some (st, s4)"
      using r(3) u H unfolding w_def k_def v_def Let_def by simp
    then obtain s5 x s6 s7 where "CoreReleaseProtocolLock sv w = Some s5" "Connect sv h None None True s5 = Some (x, s6)"
      "CoreAcquireProtocolLock s6 = Some s7" "CoreNotifyProtocolEntry g s7 = Some s4"
      by (auto simp: bind_eq_Some_conv)
    with connect_step [OF this(1-3) hw] show ?thesis by (auto dest: CoreNotifyProtocolEntry_keeps)
  qed
  let ?k = "\<lambda>p s1. do {
                   (Status, s) \<leftarrow> CoreDisconnectControllersUsingProtocolInterface sv h p s1;
                   if EFI_ERROR Status then Some (Status, s)
                   else do {
                     (Prot, s) \<leftarrow> CoreRemoveInterfaceFromProtocol h g i s;
                     case Prot of None \<Rightarrow> Some (EFI_NOT_FOUND, s) | Some p \<Rightarrow> ?m p s } }"
  have k: "hand_held t s3" if "?k p s1 = Some (st, s3)" "hand_held t s1" for p s1 s3
  proof -
    from that(1) obtain st2 s2 where d: "CoreDisconnectControllersUsingProtocolInterface sv h p s1 = Some (st2, s2)"
      "(if EFI_ERROR st2 then Some (st2, s2) else do {
                     (Prot, s) \<leftarrow> CoreRemoveInterfaceFromProtocol h g i s2;
                     case Prot of None \<Rightarrow> Some (EFI_NOT_FOUND, s) | Some p \<Rightarrow> ?m p s }) = Some (st, s3)"
      unfolding bind_eq_Some_conv by auto
    note h2 = disconnect_controllers_keeps [OF d(1) that(2)]
    show ?thesis
    proof (cases "EFI_ERROR st2")
      case True
      then show ?thesis using d(2) h2 by simp
    next
      case False
      then have "CoreRemoveInterfaceFromProtocol h g i s2 \<bind>
          (\<lambda>(Prot, s). case Prot of None \<Rightarrow> Some (EFI_NOT_FOUND, s) | Some p \<Rightarrow> ?m p s) = Some (st, s3)"
        using d(2) by simp
      then obtain r s4 where r: "CoreRemoveInterfaceFromProtocol h g i s2 = Some (r, s4)"
        "(case r of None \<Rightarrow> Some (EFI_NOT_FOUND, s4) | Some p \<Rightarrow> ?m p s4) = Some (st, s3)"
        unfolding bind_eq_Some_conv by auto
      show ?thesis
      proof (cases r)
        case None
        have "s4 = s2" using r(1) None
          by (auto simp: CoreRemoveInterfaceFromProtocol_def bind_eq_Some_conv split: if_splits option.splits)
        with r(2) None h2 show ?thesis by simp
      next
        case (Some q)
        show ?thesis by (rule m [OF r(1) [unfolded Some] h2 r(2) [unfolded Some option.case]])
      qed
    qed
  qed
  let ?b = "\<lambda>st1 s1. (if EFI_ERROR st1 then Some (st1, s1)
             else do {
               Prot \<leftarrow> CoreFindProtocolInterface h g i s1;
               case Prot of None \<Rightarrow> Some (EFI_NOT_FOUND, s1) | Some p \<Rightarrow> ?k p s1 })"
  from assms(1) Some obtain s1 st1 s2 where d: "CoreAcquireProtocolLock s = Some s1"
    "?b st1 s1 = Some (st, s2)" "CoreReleaseProtocolLock sv s2 = Some s'"
    unfolding CoreReinstallProtocolInterface_def by (auto simp: bind_eq_Some_conv split del: if_split)
  note h1 = acquire_keeps [OF d(1) assms(2)]
  have "hand_held t s2"
  proof (cases "EFI_ERROR st1")
    case False
    with d(2) have "CoreFindProtocolInterface h g i s1 \<bind> (\<lambda>r. case r of None \<Rightarrow> Some (EFI_NOT_FOUND, s1) | Some p \<Rightarrow> ?k p s1)
        = Some (st, s2)"
      by simp
    then obtain r where r: "(case r of None \<Rightarrow> Some (EFI_NOT_FOUND, s1) | Some p \<Rightarrow> ?k p s1) = Some (st, s2)"
      unfolding bind_eq_Some_conv by blast
    show ?thesis
    proof (cases r)
      case (Some p)
      show ?thesis by (rule k [OF r [unfolded Some option.case] h1])
    qed (use r h1 in simp)
  qed (use d(2) h1 in simp)
  with d(3) show ?thesis by (rule release_keeps)
qed

end

end
