(* ===== verification/Hand_Keeps_Search.thy ===== *)
theory Hand_Keeps_Search
  imports Hand_Keeps_Install
begin

text \<open>
  Groups of interfaces and the searches keep the contract.
\<close>

lemma raise_notify_free: "raise_notify s = Some (old, s') \<Longrightarrow> hand_free t s \<Longrightarrow> old = t \<and> hand_free TPL_NOTIFY_LOCK s'"
  by (auto simp: raise_notify_def hand_free_def hand_wf_defs split: if_splits)

context hand_contract
begin

lemma restore_notify_keeps:
  "restore_notify sv old s = Some s' \<Longrightarrow> hand_free t s \<Longrightarrow> hand_free old s'"
  using yields [of "s\<lparr>CurrentTpl := old\<rparr>" s' old]
  by (auto simp: restore_notify_def hand_free_def hand_wf_defs split: if_splits)

section \<open>Groups\<close>

lemma install_all_keeps:
  "install_all sv args dn h s = Some (st, dn', h', s') \<Longrightarrow> hand_free t s \<Longrightarrow> hand_free t s'"
proof (induction args arbitrary: dn h s)
  case (Cons a args)
  obtain g i where a: "a = (g, i)" by fastforce
  from Cons.prems(1) a obtain dup s1 where d: "(if g = gEfiDevicePathProtocolGuid then IsDevicePathInstalled sv i s
      else Some (False, s)) = Some (dup, s1)"
    by (auto simp: bind_eq_Some_conv split del: if_split)
  have f1: "hand_free t s1" using d Cons.prems(2) IsDevicePathInstalled_keeps by (auto split: if_splits)
  show ?case
  proof (cases dup)
    case True
    then show ?thesis using Cons.prems(1) a d f1 by simp
  next
    case False
    then obtain st2 h2 s2 where e: "CoreInstallProtocolInterface sv h (Some g) True i s1 = Some (st2, h2, s2)"
      "(if EFI_ERROR st2 then Some (st2, dn, h2, s2) else install_all sv args (dn @ [(g, i)]) h2 s2) = Some (st, dn', h', s')"
      using Cons.prems(1) a d by (auto simp: bind_eq_Some_conv split del: if_split)
    have "hand_free t s2" by (rule CoreInstallProtocolInterface_keeps [OF e(1) f1])
    with e(2) Cons.IH show ?thesis by (auto split: if_splits)
  qed
qed simp

lemma uninstall_each_keeps: "uninstall_each sv args h s = Some s' \<Longrightarrow> hand_free t s \<Longrightarrow> hand_free t s'"
  by (induction args arbitrary: s) (auto simp: bind_eq_Some_conv, blast intro: CoreUninstallProtocolInterface_keeps)

lemma CoreInstallMultipleProtocolInterfaces_keeps:
  assumes "CoreInstallMultipleProtocolInterfaces sv old args s = Some (st, h, s')" "hand_free t s"
  shows "hand_free t s'"
proof (cases old)
  case None
  then show ?thesis using assms by (simp add: CoreInstallMultipleProtocolInterfaces_def)
next
  case (Some u)
  let ?c = "\<lambda>st dn h1 s2. if EFI_ERROR st then do {
               h \<leftarrow> h1;
               s \<leftarrow> uninstall_each sv dn h s2;
               Some (old, s) }
             else Some (h1, s2)"
  from assms(1) Some obtain tp s1 dn h1 s2 s3 where d: "raise_notify s = Some (tp, s1)"
    "install_all sv args [] old s1 = Some (st, dn, h1, s2)" "?c st dn h1 s2 = Some (h, s3)" "restore_notify sv tp s3 = Some s'"
    unfolding CoreInstallMultipleProtocolInterfaces_def
    by (auto simp: bind_eq_Some_conv split del: if_split)
  note f1 = raise_notify_free [OF d(1) assms(2)]
  have f2: "hand_free TPL_NOTIFY_LOCK s2" using install_all_keeps [OF d(2)] f1 by blast
  have "hand_free TPL_NOTIFY_LOCK s3"
    using d(3) f2 uninstall_each_keeps by (auto simp: bind_eq_Some_conv split: if_splits)
  from restore_notify_keeps [OF d(4) this] f1 show ?thesis by simp
qed

lemma uninstall_all_keeps:
  "uninstall_all sv args dn h s = Some (st, dn', s') \<Longrightarrow> hand_free t s \<Longrightarrow> hand_free t s'"
proof (induction args arbitrary: dn s)
  case (Cons a args)
  obtain g i where a: "a = (g, i)" by fastforce
  from Cons.prems(1) a obtain st1 s1 where d: "CoreUninstallProtocolInterface sv h (Some g) i s = Some (st1, s1)"
    "(if EFI_ERROR st1 then Some (st1, dn, s1) else uninstall_all sv args (dn @ [(g, i)]) h s1) = Some (st, dn', s')"
    by (auto simp: bind_eq_Some_conv split del: if_split)
  from CoreUninstallProtocolInterface_keeps [OF d(1) Cons.prems(2)] d(2) Cons.IH show ?case
    by (auto split: if_splits)
qed simp

lemma install_each_keeps: "install_each sv args h s = Some (h', s') \<Longrightarrow> hand_free t s \<Longrightarrow> hand_free t s'"
  by (induction args arbitrary: h s) (auto simp: bind_eq_Some_conv, blast intro: CoreInstallProtocolInterface_keeps)

lemma CoreUninstallMultipleProtocolInterfaces_keeps:
  assumes "CoreUninstallMultipleProtocolInterfaces sv h args s = Some (st, s')" "hand_free t s"
  shows "hand_free t s'"
proof -
  from assms(1) obtain st1 dn s1 where d: "uninstall_all sv args [] h s = Some (st1, dn, s1)"
    "(if EFI_ERROR st1 then do { (_, s) \<leftarrow> install_each sv dn (Some h) s1; Some (EFI_INVALID_PARAMETER, s) }
      else Some (st1, s1)) = Some (st, s')"
    by (auto simp: CoreUninstallMultipleProtocolInterfaces_def bind_eq_Some_conv split del: if_split)
  from uninstall_all_keeps [OF d(1) assms(2)] d(2) install_each_keeps show ?thesis
    by (auto simp: bind_eq_Some_conv split: if_splits)
qed

lemma connect_each_keeps: "connect_each sv hs s = Some s' \<Longrightarrow> hand_free t s \<Longrightarrow> hand_free t s'"
  by (induction hs arbitrary: s) (auto simp: bind_eq_Some_conv dest: connects)

lemma CoreConnectHandlesByKey_keeps:
  assumes "CoreConnectHandlesByKey sv k s = Some s'" "hand_free t s"
  shows "hand_free t s'"
proof -
  from assms(1) obtain s1 hs where d: "CoreAcquireProtocolLock s = Some s1"
    and e: "(let (a, s) = hand_alloc (\<lambda>_. False) s1 in do {
       s \<leftarrow> CoreReleaseProtocolLock sv s;
       if a = NULL then Some s else connect_each sv hs s }) = Some s'"
    by (auto simp: CoreConnectHandlesByKey_def bind_eq_Some_conv [of "CoreAcquireProtocolLock s"]
        bind_eq_Some_conv [of "newer_handles k _ _"])
  obtain a s2 where a: "hand_alloc (\<lambda>_. False) s1 = (a, s2)" by (rule prod.exhaust)
  from e [unfolded a] obtain s3 where "CoreReleaseProtocolLock sv s2 = Some s3"
    "(if a = NULL then Some s3 else connect_each sv hs s3) = Some s'"
    by (auto simp: bind_eq_Some_conv)
  with release_keeps [OF this(1) hand_alloc_held [OF a acquire_keeps [OF d assms(2)]]] connect_each_keeps show ?thesis
    by (auto split: if_splits)
qed


end

section \<open>Searches\<close>

lemma held_request: "hand_held t s \<Longrightarrow> hand_held t (s\<lparr>mEfiLocateHandleRequest := k\<rparr>)"
  by (erule hand_held_same) (simp_all add: same_wf_def same_lock_def)

lemma CoreGetNextLocateAllHandles_keeps:
  "CoreGetNextLocateAllHandles pos s = Some (h, i, pos', s') \<Longrightarrow> hand_held t s \<Longrightarrow> hand_held t s'"
  by (auto simp: CoreGetNextLocateAllHandles_def bind_eq_Some_conv split: option.splits)

lemma CoreGetNextLocateByRegisterNotify_keeps:
  "CoreGetNextLocateByRegisterNotify pos s = Some (h, i, pos', s') \<Longrightarrow> hand_held t s \<Longrightarrow> hand_held t s'"
  by (auto simp: CoreGetNextLocateByRegisterNotify_def bind_eq_Some_conv split: option.splits if_splits)

lemma next_by_protocol_keeps:
  assumes "next_by_protocol i pos s = Some (h, j, pos', s')" "hand_held t s"
  shows "hand_held t s'"
proof -
  let ?Q = "\<lambda>i pos s y. hand_held t s \<longrightarrow> hand_held t (snd (snd (snd y)))"
  have "?Q i pos s (h, j, pos', s')"
  proof (rule next_by_protocol.raw_induct [where P = ?Q, OF _ assms(1)], intro impI, goal_cases)
    case (1 f i pos s y)
    from 1(2) obtain e l where e: "find_entry (ProtEntry pos) s = Some e" "list_next (Entry_Protocols e) (Position pos) = Some l"
      by (auto simp: bind_eq_Some_conv)
    show ?case
    proof (cases l)
      case None
      then show ?thesis using 1(2,3) e by (auto simp: Let_def)
    next
      case (Some p)
      with 1(2) e obtain P H where p: "prots s p = Some P" "handles s (Prot_Handle P) = Some H"
        by (auto simp: bind_eq_Some_conv Let_def)
      show ?thesis
      proof (cases "LocateRequest H \<noteq> mEfiLocateHandleRequest s")
        case True
        then have "y = (Prot_Handle P, Prot_Interface P, pos\<lparr>Position := l\<rparr>,
            s\<lparr>handles := (handles s)(Prot_Handle P \<mapsto> H\<lparr>LocateRequest := mEfiLocateHandleRequest s\<rparr>)\<rparr>)"
          using 1(2) e Some p by (simp add: Let_def)
        then show ?thesis using held_handle_update [OF 1(3) p(2)] by simp
      next
        case False
        then have "f (Prot_Interface P) (pos\<lparr>Position := l\<rparr>) s = Some y"
          using 1(2) e Some p by (simp add: Let_def)
        from 1(1) [OF this] 1(3) show ?thesis by blast
      qed
    qed
  qed
  with assms(2) show ?thesis by simp
qed

lemma advance_notify_keeps:
  assumes "advance_notify n s = Some s'" "hand_held t s"
  shows "hand_held t s'"
proof -
  from assms(1) obtain N e l where d: "notifies s n = Some N" "find_entry (Notify_Protocol N) s = Some e"
    "list_next (Entry_Protocols e) (Notify_Position N) = Some l"
    "s' = s\<lparr>notifies := (notifies s)(n \<mapsto> N\<lparr>Notify_Position := l\<rparr>)\<rparr>"
    by (auto simp: advance_notify_def bind_eq_Some_conv)
  have ln: "list_next xs a = Some (Some b) \<Longrightarrow> b \<in> set xs" for xs :: "UINTN list" and a b
    by (induction xs a rule: list_next.induct) (auto split: list.splits if_splits)
  note e = find_entry_Some [OF d(2)] and w = handheldD(1) [OF assms(2)]
  have "\<exists>P. prots s p = Some P \<and> Prot_Protocol P = Notify_Protocol N" if "l = Some p" for p
    using wf_entriesD(3) [OF w e(1), of p] e(2) ln d(3) that by auto
  then have "hand_wf s'"
    unfolding d(4) by (intro wf_notify_update [OF w d(1)]) simp_all
  then show ?thesis
    using handheldD(2) [OF assms(2)] by (intro hand_held_update [OF assms(2)]) (simp_all add: d(4) same_lock_def no_empty_def)
qed

lemma locate_loop_keeps:
  assumes "locate_loop G n k r pos s = Some (k', r', s')" "hand_held t s"
    "\<And>pos s h i pos' s'. G pos s = Some (h, i, pos', s') \<Longrightarrow> hand_held t s \<Longrightarrow> hand_held t s'"
  shows "hand_held t s'"
proof -
  let ?Q = "\<lambda>G' n k r pos s y. G' = G \<longrightarrow> hand_held t s \<longrightarrow> hand_held t (snd (snd y))"
  have "?Q G n k r pos s (k', r', s')"
  proof (rule locate_loop.raw_induct [where P = ?Q, OF _ assms(1)], intro impI, goal_cases)
    case (1 f G' n k r pos s y)
    from 1(2,3) obtain h i pos' s1 where g: "G pos s = Some (h, i, pos', s1)"
      "(if h = NULL then Some (k, r, s1)
        else f G n (k + 8) (if k + 8 \<le> n then r @ [h] else r) pos' s1) = Some y"
      unfolding Let_def by (auto simp: bind_eq_Some_conv split del: if_split)
    note h1 = assms(3) [OF g(1) 1(4)]
    show ?case
    proof (cases "h = NULL")
      case False
      then have "f G n (k + 8) (if k + 8 \<le> n then r @ [h] else r) pos' s1 = Some y" using g(2) by simp
      from 1(1) [OF this] h1 show ?thesis by blast
    qed (use g(2) h1 in auto)
  qed
  with assms(2) show ?thesis by simp
qed

lemma InternalCoreLocateHandle_keeps:
  assumes "InternalCoreLocateHandle ty g k n b s = Some (st, n', r, s')" "hand_held t s"
  shows "hand_held t s'"
proof (cases "0 < n \<and> \<not> b")
  case True
  then show ?thesis using assms by (simp add: InternalCoreLocateHandle_def)
next
  case False
  let ?G = "case ty of
                 ByProtocol \<Rightarrow> CoreGetNextLocateByProtocol
               | ByRegisterNotify \<Rightarrow> CoreGetNextLocateByRegisterNotify
               | _ \<Rightarrow> CoreGetNextLocateAllHandles"
  let ?s = "s\<lparr>mEfiLocateHandleRequest := mEfiLocateHandleRequest s + 1\<rparr>"
  have G: "?G pos s = Some (h, i, pos', s') \<Longrightarrow> hand_held t s \<Longrightarrow> hand_held t s'" for pos s h i pos' s'
    using next_by_protocol_keeps CoreGetNextLocateAllHandles_keeps CoreGetNextLocateByRegisterNotify_keeps
    by (cases ty) (auto simp: CoreGetNextLocateByProtocol_def)
  obtain st1 pos where l: "locate_start ty g k s = Some (st1, pos)"
    using assms(1) False by (auto simp: InternalCoreLocateHandle_def bind_eq_Some_conv)
  show ?thesis
  proof (cases "EFI_ERROR st1")
    case True
    then show ?thesis using assms False l by (simp add: InternalCoreLocateHandle_def)
  next
    case nerr: False
    then obtain rs r1 s1 where d: "locate_loop ?G n 0 [] pos ?s = Some (rs, r1, s1)"
      and e: "(if rs = 0 then Some (EFI_NOT_FOUND, n, r1, s1)
          else do {
            let Status = (if n < rs then EFI_BUFFER_TOO_SMALL else EFI_SUCCESS);
            s \<leftarrow> (if ty = ByRegisterNotify \<and> \<not> EFI_ERROR Status then advance_notify k s1 else Some s1);
            Some (Status, rs, r1, s) }) = Some (st, n', r, s')"
      using assms(1) False l unfolding InternalCoreLocateHandle_def Let_def
      by (auto simp: bind_eq_Some_conv [of "locate_loop _ _ _ _ _ _"])
    have h1: "hand_held t s1" by (rule locate_loop_keeps [OF d held_request [OF assms(2)] G])
    show ?thesis
      using e h1 advance_notify_keeps [of k s1 s' t] by (auto simp: bind_eq_Some_conv Let_def split: if_splits)
  qed
qed

context hand_contract
begin

lemma CoreLocateHandleBuffer_keeps:
  assumes "CoreLocateHandleBuffer sv ty g k b s = Some (st, n, r, s')" "hand_free t s"
  shows "hand_free t s'"
proof (cases b)
  case True
  then obtain s1 st1 n1 r1 s2 where d: "CoreAcquireProtocolLock s = Some s1"
    "InternalCoreLocateHandle ty g k 0 False s1 = Some (st1, n1, r1, s2)"
    and e: "(if EFI_ERROR st1 \<and> st1 \<noteq> EFI_BUFFER_TOO_SMALL then do {
          s \<leftarrow> CoreReleaseProtocolLock sv s2;
          Some (if st1 \<noteq> EFI_INVALID_PARAMETER then EFI_NOT_FOUND else st1, 0, None, s) }
        else do {
          let (a, s) = hand_alloc (\<lambda>_. False) s2;
          if a = NULL then do {
            s \<leftarrow> CoreReleaseProtocolLock sv s;
            Some (EFI_OUT_OF_RESOURCES, 0, None, s) }
          else do {
            (Status, BufferSize, Result, s) \<leftarrow> InternalCoreLocateHandle ty g k n1 True s;
            s \<leftarrow> CoreReleaseProtocolLock sv s;
            if EFI_ERROR Status then Some (Status, 0, None, s)
            else Some (Status, BufferSize div 8, Some Result, s) } }) = Some (st, n, r, s')"
    using assms(1) unfolding CoreLocateHandleBuffer_def
    by (auto simp: bind_eq_Some_conv [of "CoreAcquireProtocolLock s"]
        bind_eq_Some_conv [of "InternalCoreLocateHandle _ _ _ 0 False _"])
  note h2 = InternalCoreLocateHandle_keeps [OF d(2) acquire_keeps [OF d(1) assms(2)]]
  obtain a s3 where a: "hand_alloc (\<lambda>_. False) s2 = (a, s3)" by (rule prod.exhaust)
  note h3 = hand_alloc_held [OF a h2]
  show ?thesis
  proof (cases "EFI_ERROR st1 \<and> st1 \<noteq> EFI_BUFFER_TOO_SMALL")
    case True
    then show ?thesis using e release_keeps [OF _ h2] by (auto simp: bind_eq_Some_conv)
  next
    case False
    show ?thesis
    proof (cases "a = NULL")
      case True
      then show ?thesis using e False a release_keeps [OF _ h3] by (auto simp: bind_eq_Some_conv)
    next
      case nn: False
      with e False a obtain st4 n4 r4 s4 where f: "InternalCoreLocateHandle ty g k n1 True s3 = Some (st4, n4, r4, s4)"
        "CoreReleaseProtocolLock sv s4 = Some s'"
        by (auto simp: bind_eq_Some_conv split: if_splits)
      from release_keeps [OF f(2) InternalCoreLocateHandle_keeps [OF f(1) h3]] show ?thesis .
    qed
  qed
qed (use assms in \<open>simp add: CoreLocateHandleBuffer_def\<close>)

lemma CoreLocateProtocol_keeps:
  assumes "CoreLocateProtocol sv Protocol rg b s = Some (st, r, s')" "hand_free t s"
  shows "hand_free t s'"
proof (cases "Protocol = None \<or> \<not> b \<or> locked s")
  case True
  then show ?thesis using assms by (auto simp: CoreLocateProtocol_def split: option.splits if_splits)
next
  case False
  then obtain g where g: "Protocol = Some g" by auto
  let ?s = "\<lambda>s. s\<lparr>mEfiLocateHandleRequest := mEfiLocateHandleRequest s + 1\<rparr>"
  let ?b = "\<lambda>s. (if rg = NULL then do {
                 (e, s) \<leftarrow> CoreFindProtocolEntry g False s;
                 if e = None then Some (NULL, NULL, s)
                 else do {
                   (h, i, _, s) \<leftarrow> CoreGetNextLocateByProtocol
                     \<lparr>SearchKey = rg, Position = None, ProtEntry = g\<rparr> s;
                   Some (h, i, s) } }
               else do {
                 (h, i, _, s) \<leftarrow> CoreGetNextLocateByRegisterNotify
                   \<lparr>SearchKey = rg, Position = None, ProtEntry = []\<rparr> s;
                 Some (h, i, s) })"
  from False g assms(1) obtain s1 h i s2 s3 where d: "CoreAcquireProtocolLock s = Some s1" "?b (?s s1) = Some (h, i, s2)"
    "(if h \<noteq> NULL \<and> rg \<noteq> NULL then advance_notify rg s2 else Some s2) = Some s3" "CoreReleaseProtocolLock sv s3 = Some s'"
    unfolding CoreLocateProtocol_def Let_def by (auto simp: bind_eq_Some_conv split del: if_split)
  note h1 = held_request [OF acquire_keeps [OF d(1) assms(2)]]
  have h2: "hand_held t s2"
    using d(2) h1 next_by_protocol_keeps CoreGetNextLocateByRegisterNotify_keeps CoreFindProtocolEntry_keeps
    by (auto simp: bind_eq_Some_conv CoreGetNextLocateByProtocol_def split: if_splits)
  have "hand_held t s3" using d(3) h2 advance_notify_keeps by (auto split: if_splits)
  with d(4) show ?thesis by (rule release_keeps)
qed

end

end
