(* ===== verification/Driver_Keeps.thy ===== *)
theory Driver_Keeps
  imports Hand_Keeps_Search Driver_Connect
begin

text \<open>
  The driver model keeps the contract of the handle database, so the running system meets it whatever
  its drivers do.  The proofs run through the code with the rules of \<open>wp\<close>: \<open>pred_option Q x\<close> says that
  \<open>Q\<close> holds of what \<open>x\<close> returns, if it returns.
\<close>

named_theorems wp

lemma wp_I: "(\<And>y. x = Some y \<Longrightarrow> Q y) \<Longrightarrow> pred_option Q x"
  by (cases x) auto

lemma wp_D: "pred_option Q x \<Longrightarrow> x = Some y \<Longrightarrow> Q y"
  by simp

lemma wp_bind [wp]: "pred_option (\<lambda>y. pred_option Q (f y)) x \<Longrightarrow> pred_option Q (x \<bind> f)"
  by (cases x) auto

lemma wp_if [wp]: "(b \<Longrightarrow> pred_option Q x) \<Longrightarrow> (\<not> b \<Longrightarrow> pred_option Q y) \<Longrightarrow> pred_option Q (if b then x else y)"
  by simp

lemma wp_option [wp]:
  "(z = None \<Longrightarrow> pred_option Q x) \<Longrightarrow> (\<And>a. z = Some a \<Longrightarrow> pred_option Q (y a)) \<Longrightarrow>
   pred_option Q (case z of None \<Rightarrow> x | Some a \<Rightarrow> y a)"
  by (cases z) auto

lemma wp_bool [wp]:
  "(z \<Longrightarrow> pred_option Q x) \<Longrightarrow> (\<not> z \<Longrightarrow> pred_option Q y) \<Longrightarrow> pred_option Q (case z of True \<Rightarrow> x | False \<Rightarrow> y)"
  by (cases z) auto

lemma wp_Let [wp]: "pred_option Q (f x) \<Longrightarrow> pred_option Q (let a = x in f a)"
  by (simp add: Let_def)

lemma wp_None [wp]: "pred_option Q None"
  by simp

lemma wp_Some [wp]: "Q x \<Longrightarrow> pred_option Q (Some x)"
  by simp

lemma wp_pure: "(\<And>y. Q y) \<Longrightarrow> pred_option Q x"
  by (cases x) auto

lemma wp_hand_alloc [wp]:
  assumes "hand_free t s" "\<And>a s'. hand_free t s' \<Longrightarrow> pred_option Q (f a s')"
  shows "pred_option Q (case hand_alloc live s of (a, s') \<Rightarrow> f a s')"
  using assms hand_alloc_free [of live s] by (cases "hand_alloc live s") auto

context hand_contract
begin

section \<open>The services of the database\<close>

lemma CoreHandleProtocol_wp [wp]:
  "hand_free t s \<Longrightarrow> (\<And>st i s'. hand_free t s' \<Longrightarrow> Q (st, i, s')) \<Longrightarrow> pred_option Q (CoreHandleProtocol sv h g b s)"
  by (rule wp_I) (auto dest: CoreHandleProtocol_keeps)

lemma CoreLocateHandleBuffer_wp [wp]:
  "hand_free t s \<Longrightarrow> (\<And>st n r s'. hand_free t s' \<Longrightarrow> Q (st, n, r, s')) \<Longrightarrow> pred_option Q (CoreLocateHandleBuffer sv ty g k b s)"
  by (rule wp_I) (auto dest: CoreLocateHandleBuffer_keeps)

lemma CoreLocateProtocol_wp [wp]:
  "hand_free t s \<Longrightarrow> (\<And>st i s'. hand_free t s' \<Longrightarrow> Q (st, i, s')) \<Longrightarrow> pred_option Q (CoreLocateProtocol sv g r b s)"
  by (rule wp_I) (auto dest: CoreLocateProtocol_keeps)

lemma connect_each_wp [wp]:
  "hand_free t s \<Longrightarrow> (\<And>s'. hand_free t s' \<Longrightarrow> Q s') \<Longrightarrow> pred_option Q (connect_each sv hs s)"
  by (rule wp_I) (auto dest: connect_each_keeps)

lemma handle_is_valid_wp [wp]:
  "hand_free t s \<Longrightarrow> (\<And>st s'. hand_free t s' \<Longrightarrow> Q (st, s')) \<Longrightarrow> pred_option Q (handle_is_valid sv h s)"
  unfolding handle_is_valid_def
  by (rule wp_I) (auto simp: bind_eq_Some_conv dest!: acquire_keeps release_keeps)

lemma interface_of_wp [wp]:
  assumes f: "hand_free t s" and q: "\<And>st i s'. hand_free t s' \<Longrightarrow> Q (st, i, s')"
  shows "pred_option Q (interface_of sv h g s)"
  unfolding interface_of_def by (simp only: prod.case | assumption | rule wp f q)+

lemma best_match_wp [wp]:
  assumes f: "hand_free t s" and q: "\<And>m h s'. hand_free t s' \<Longrightarrow> Q (m, h, s')"
  shows "pred_option Q (best_match sv path n hs m h s)"
  using f
proof (induction hs arbitrary: m h s)
  case (Cons g hs)
  note IH = Cons.IH and f = Cons.prems
  show ?case unfolding best_match.simps
    by (simp only: prod.case | assumption | rule IH wp f q | rule wp_pure)+
qed (simp add: q)


lemma CoreLocateDevicePath_wp [wp]:
  assumes f: "hand_free t s" and q: "\<And>st n h s'. hand_free t s' \<Longrightarrow> Q (st, n, h, s')"
  shows "pred_option Q (CoreLocateDevicePath sv g p b s)"
  unfolding CoreLocateDevicePath_def by (simp only: prod.case | assumption | rule wp f q | rule wp_pure)+

section \<open>Programs\<close>

lemma CoreLocateDevicePath_keeps:
  "CoreLocateDevicePath sv g p b s = Some (st, n, h, s') \<Longrightarrow> hand_free t s \<Longrightarrow> hand_free t s'"
  using CoreLocateDevicePath_wp [of t s "\<lambda>y. hand_free t (snd (snd (snd y)))" g p b] by simp

lemma hand_call_run_keeps: "hand_call_run sv c s = Some s' \<Longrightarrow> hand_free t s \<Longrightarrow> hand_free t s'"
  by (cases c)
    (auto simp: hand_call_run_def
      dest: CoreInstallProtocolInterface_keeps CoreInstallMultipleProtocolInterfaces_keeps
        CoreUninstallProtocolInterface_keeps CoreUninstallMultipleProtocolInterfaces_keeps
        CoreReinstallProtocolInterface_keeps CoreOpenProtocol_keeps CoreCloseProtocol_keeps
        CoreHandleProtocol_keeps CoreOpenProtocolInformation_keeps CoreProtocolsPerHandle_keeps
        CoreRegisterProtocolNotify_keeps CoreUnregisterProtocolNotify_keeps CoreLocateHandleBuffer_keeps
        CoreLocateProtocol_keeps CoreLocateDevicePath_keeps CoreConnectHandlesByKey_keeps connects disconnects)

lemma run_calls_keeps: "run_calls sv cs s = Some s' \<Longrightarrow> hand_free t s \<Longrightarrow> hand_free t s'"
  by (induction cs arbitrary: s) (auto simp: bind_eq_Some_conv, blast intro: hand_call_run_keeps)

lemma run_program_wp [wp]:
  "hand_free t s \<Longrightarrow> (\<And>st s'. hand_free t s' \<Longrightarrow> Q (st, s')) \<Longrightarrow> pred_option Q (run_program sv p s)"
  by (rule wp_I) (auto simp: run_program_def dest: run_calls_keeps)

lemma run_program_pair_wp [wp]:
  "hand_free t s \<Longrightarrow> (\<And>st h s'. hand_free t s' \<Longrightarrow> Q ((st, h), s')) \<Longrightarrow> pred_option Q (run_program sv p s)"
  by (rule run_program_wp) auto

section \<open>Connecting one controller\<close>

lemma add_binding_wp [wp]:
  assumes f: "hand_free t s" and q: "\<And>b s'. hand_free t s' \<Longrightarrow> Q (b, s')"
  shows "pred_option Q (add_binding sv h b s)"
  unfolding add_binding_def by (simp only: prod.case | assumption | rule wp f q | rule wp_pure)+

lemma add_image_bindings_wp [wp]:
  assumes f: "hand_free t s" and q: "\<And>b s'. hand_free t s' \<Longrightarrow> Q (b, s')"
  shows "pred_option Q (add_image_bindings sv pr h js b s)"
  using f
proof (induction js arbitrary: b s)
  case (Cons x js)
  note IH = Cons.IH and f = Cons.prems
  show ?case unfolding add_image_bindings.simps
    by (simp only: prod.case | assumption | rule IH wp f q | rule wp_pure)+
qed (simp add: q)

lemma AddSortedDriverBindingProtocol_wp [wp]:
  assumes f: "hand_free t s" and q: "\<And>b s'. hand_free t s' \<Longrightarrow> Q (b, s')"
  shows "pred_option Q (AddSortedDriverBindingProtocol sv pr h i b s)"
  unfolding AddSortedDriverBindingProtocol_def by (simp only: prod.case | assumption | rule wp f q | rule wp_pure)+

lemma add_handles_wp [wp]:
  assumes f: "hand_free t s" and q: "\<And>b s'. hand_free t s' \<Longrightarrow> Q (b, s')"
  shows "pred_option Q (add_handles sv pr hs b s)"
  using f
proof (induction hs arbitrary: b s)
  case (Cons x hs)
  note IH = Cons.IH and f = Cons.prems
  show ?case unfolding add_handles.simps
    by (simp only: prod.case | assumption | rule IH wp f q | rule wp_pure)+
qed (simp add: q)

lemma add_override_wp [wp]:
  assumes f: "hand_free t s" and q: "\<And>b s'. hand_free t s' \<Longrightarrow> Q (b, s')"
  shows "pred_option Q (add_override sv pr GetDriver h b s)"
  proof (rule wp_I)
  let ?Q = "\<lambda>sv' pr' GetDriver' h b s y. sv' = sv \<longrightarrow> pr' = pr \<longrightarrow> GetDriver' = GetDriver \<longrightarrow> hand_free t s \<longrightarrow> hand_free t (snd y)"
  fix y
  assume y: "add_override sv pr GetDriver h b s = Some y"
  have "?Q sv pr GetDriver h b s y"
  proof (rule add_override.raw_induct [where P = ?Q, OF _ y], intro impI, goal_cases)
    case (1 F sv' pr' GetDriver' h b s y)
    have IH: "pred_option Q' (F sv pr GetDriver h b s)"
      if "hand_free t s" "\<And>b s'. hand_free t s' \<Longrightarrow> Q' (b, s')" for Q' h b s
    proof (rule wp_I)
      fix y
      assume "F sv pr GetDriver h b s = Some y"
      with 1(1) that(1) have "hand_free t (snd y)" by blast
      with that(2) show "Q' y" by (cases y) auto
    qed
    note f = 1(6)
    show ?case
      by (rule wp_D [where Q = "\<lambda>y. hand_free t (snd y)", OF _ 1(2) [unfolded 1(3) 1(4) 1(5)]])
        (simp only: prod.case snd_conv | assumption | rule IH wp f | rule wp_pure)+
  qed
  with f q show "Q y" by (cases y) auto
qed

lemma family_pass_wp [wp]:
  assumes f: "hand_free t s" and q: "\<And>st i best s'. hand_free t s' \<Longrightarrow> Q (st, i, best, s')"
  shows "pred_option Q (family_pass sv pr js buf st i best s)"
  using f
proof (induction js arbitrary: st i best s)
  case (Cons x js)
  note IH = Cons.IH and f = Cons.prems
  show ?case unfolding family_pass.simps
    by (simp only: prod.case | assumption | rule IH wp f q | rule wp_pure)+
qed (simp add: q)

lemma family_loop_wp [wp]:
  assumes f: "hand_free t s" and q: "\<And>b s'. hand_free t s' \<Longrightarrow> Q (b, s')"
  shows "pred_option Q (family_loop sv pr st i b s)"
  proof (rule wp_I)
  let ?Q = "\<lambda>sv' pr' st i b s y. sv' = sv \<longrightarrow> pr' = pr \<longrightarrow> hand_free t s \<longrightarrow> hand_free t (snd y)"
  fix y
  assume y: "family_loop sv pr st i b s = Some y"
  have "?Q sv pr st i b s y"
  proof (rule family_loop.raw_induct [where P = ?Q, OF _ y], intro impI, goal_cases)
    case (1 F sv' pr' st i b s y)
    have IH: "pred_option Q' (F sv pr st i b s)"
      if "hand_free t s" "\<And>b s'. hand_free t s' \<Longrightarrow> Q' (b, s')" for Q' st i b s
    proof (rule wp_I)
      fix y
      assume "F sv pr st i b s = Some y"
      with 1(1) that(1) have "hand_free t (snd y)" by blast
      with that(2) show "Q' y" by (cases y) auto
    qed
    note f = 1(5)
    show ?case
      by (rule wp_D [where Q = "\<lambda>y. hand_free t (snd y)", OF _ 1(2) [unfolded 1(3) 1(4)]])
        (simp only: prod.case snd_conv | assumption | rule IH wp f | rule wp_pure)+
  qed
  with f q show "Q y" by (cases y) auto
qed

lemma start_pass_wp [wp]:
  assumes f: "hand_free t s" and q: "\<And>found started xs s'. hand_free t s' \<Longrightarrow> Q (found, started, xs, s')"
  shows "pred_option Q (start_pass sv pr c path js xs s)"
  using f
proof (induction js arbitrary: xs s)
  case (Cons x js)
  note IH = Cons.IH and f = Cons.prems
  show ?case unfolding start_pass.simps
    by (simp only: prod.case | assumption | rule IH wp f q | rule wp_pure)+
qed (simp add: q)

lemma start_loop_wp [wp]:
  assumes f: "hand_free t s" and q: "\<And>one s'. hand_free t s' \<Longrightarrow> Q (one, s')"
  shows "pred_option Q (start_loop sv pr c path n one xs s)"
  proof (rule wp_I)
  let ?Q = "\<lambda>sv' pr' c' path' n' one xs s y. sv' = sv \<longrightarrow> pr' = pr \<longrightarrow> c' = c \<longrightarrow> path' = path \<longrightarrow> n' = n \<longrightarrow> hand_free t s \<longrightarrow> hand_free t (snd y)"
  fix y
  assume y: "start_loop sv pr c path n one xs s = Some y"
  have "?Q sv pr c path n one xs s y"
  proof (rule start_loop.raw_induct [where P = ?Q, OF _ y], intro impI, goal_cases)
    case (1 F sv' pr' c' path' n' one xs s y)
    have IH: "pred_option Q' (F sv pr c path n one xs s)"
      if "hand_free t s" "\<And>one s'. hand_free t s' \<Longrightarrow> Q' (one, s')" for Q' one xs s
    proof (rule wp_I)
      fix y
      assume "F sv pr c path n one xs s = Some y"
      with 1(1) that(1) have "hand_free t (snd y)" by blast
      with that(2) show "Q' y" by (cases y) auto
    qed
    note f = 1(8)
    show ?case
      by (rule wp_D [where Q = "\<lambda>y. hand_free t (snd y)", OF _ 1(2) [unfolded 1(3) 1(4) 1(5) 1(6) 1(7)]])
        (simp only: prod.case snd_conv | assumption | rule IH wp f | rule wp_pure)+
  qed
  with f q show "Q y" by (cases y) auto
qed

lemma add_overrides_wp [wp]:
  assumes f: "hand_free t s" and q: "\<And>b s'. hand_free t s' \<Longrightarrow> Q (b, s')"
  shows "pred_option Q (add_overrides sv pr c b s)"
  unfolding add_overrides_def by (simp only: prod.case | assumption | rule wp f q | rule wp_pure)+

lemma add_remaining_wp [wp]:
  assumes f: "hand_free t s" and q: "\<And>b s'. hand_free t s' \<Longrightarrow> Q (b, s')"
  shows "pred_option Q (add_remaining sv pr js b s)"
  using f
proof (induction js arbitrary: b s)
  case (Cons x js)
  note IH = Cons.IH and f = Cons.prems
  show ?case unfolding add_remaining.simps
    by (simp only: prod.case | assumption | rule IH wp f q | rule wp_pure)+
qed (simp add: q)

lemma CoreConnectSingleController_wp [wp]:
  assumes f: "hand_free t s" and q: "\<And>st s'. hand_free t s' \<Longrightarrow> Q (st, s')"
  shows "pred_option Q (CoreConnectSingleController sv pr c ctx path s)"
  unfolding CoreConnectSingleController_def by (simp only: prod.case | assumption | rule wp f q | rule wp_pure)+

section \<open>Disconnecting and connecting\<close>

lemma acquire_wp [wp]:
  "hand_free t s \<Longrightarrow> (\<And>s'. hand_held t s' \<Longrightarrow> Q s') \<Longrightarrow> pred_option Q (CoreAcquireProtocolLock s)"
  by (rule wp_I) (auto dest: acquire_keeps)

lemma release_wp [wp]:
  "hand_held t s \<Longrightarrow> (\<And>s'. hand_free t s' \<Longrightarrow> Q s') \<Longrightarrow> pred_option Q (CoreReleaseProtocolLock sv s)"
  by (rule wp_I) (auto dest: release_keeps)

lemma held_alloc_wp [wp]:
  assumes "hand_held t s" "\<And>a s'. hand_held t s' \<Longrightarrow> pred_option Q (f a s')"
  shows "pred_option Q (case hand_alloc live s of (a, s') \<Rightarrow> f a s')"
  using assms hand_alloc_held [of live s] by (cases "hand_alloc live s") auto

lemma cond_alloc_wp [wp]:
  assumes "hand_free t s" "\<And>a s'. hand_free t s' \<Longrightarrow> pred_option Q (f a s')"
  shows "pred_option Q (case (if b then (1, s) else hand_alloc live s) of (a, s') \<Rightarrow> f a s')"
  using assms hand_alloc_free [of live s] by (cases "hand_alloc live s") auto

lemma locked_opens_wp [wp]:
  assumes f: "hand_free t s" and q: "\<And>ds s'. hand_free t s' \<Longrightarrow> Q (ds, s')"
  shows "pred_option Q (locked_opens sv h s)"
  unfolding locked_opens_def by (simp only: prod.case | assumption | rule wp f q | rule wp_pure)+

lemma stop_driver_wp [wp]:
  assumes f: "hand_free t s" and q: "\<And>r b s'. hand_free t s' \<Longrightarrow> Q (r, b, s')"
  shows "pred_option Q (stop_driver sv pr c d ch s)"
  unfolding stop_driver_def by (simp only: prod.case | assumption | rule wp f q | rule wp_pure)+

lemma stop_drivers_wp [wp]:
  assumes f: "hand_free t s" and q: "\<And>st s'. hand_free t s' \<Longrightarrow> Q (st, s')"
  shows "pred_option Q (stop_drivers sv pr c ch ds n s)"
  using f
proof (induction ds arbitrary: n s)
  case (Cons x ds)
  note IH = Cons.IH and f = Cons.prems
  show ?case unfolding stop_drivers.simps
    by (simp only: prod.case | assumption | rule IH wp f q | rule wp_pure)+
qed (simp add: q)

lemma CoreDisconnectController_wp [wp]:
  assumes f: "hand_free t s" and q: "\<And>st s'. hand_free t s' \<Longrightarrow> Q (st, s')"
  shows "pred_option Q (CoreDisconnectController sv pr c d ch s)"
  unfolding CoreDisconnectController_def by (simp only: prod.case | assumption | rule wp f q | rule wp_pure)+

lemma connect_permitted_wp [wp]:
  assumes f: "hand_free t s" and q: "\<And>st s'. hand_free t s' \<Longrightarrow> Q (st, s')"
  shows "pred_option Q (connect_permitted sv pr c path rec s)"
  unfolding connect_permitted_def by (simp only: prod.case | assumption | rule wp f q | rule wp_pure)+

lemma connect_retry_wp [wp]:
  assumes f: "hand_free t s" and q: "\<And>st s'. hand_free t s' \<Longrightarrow> Q (st, s')"
  shows "pred_option Q (connect_retry sv pr c ctx path  s)"
  proof (rule wp_I)
  let ?Q = "\<lambda>sv' pr' c' ctx' path' s y. sv' = sv \<longrightarrow> pr' = pr \<longrightarrow> c' = c \<longrightarrow> ctx' = ctx \<longrightarrow> path' = path \<longrightarrow> hand_free t s \<longrightarrow> hand_free t (snd y)"
  fix y
  assume y: "connect_retry sv pr c ctx path  s = Some y"
  have "?Q sv pr c ctx path  s y"
  proof (rule connect_retry.raw_induct [where P = ?Q, OF _ y], intro impI, goal_cases)
    case (1 F sv' pr' c' ctx' path' s y)
    have IH: "pred_option Q' (F sv pr c ctx path  s)"
      if "hand_free t s" "\<And>st s'. hand_free t s' \<Longrightarrow> Q' (st, s')" for Q'  s
    proof (rule wp_I)
      fix y
      assume "F sv pr c ctx path  s = Some y"
      with 1(1) that(1) have "hand_free t (snd y)" by blast
      with that(2) show "Q' y" by (cases y) auto
    qed
    note f = 1(8)
    show ?case
      by (rule wp_D [where Q = "\<lambda>y. hand_free t (snd y)", OF _ 1(2) [unfolded 1(3) 1(4) 1(5) 1(6) 1(7)]])
        (simp only: prod.case snd_conv | assumption | rule IH wp f | rule wp_pure)+
  qed
  with f q show "Q y" by (cases y) auto
qed

lemma connect_children_wp [wp]:
  assumes f: "hand_free t s" and q: "\<And>st s'. hand_free t s' \<Longrightarrow> Q (st, s')"
  shows "pred_option Q (connect_children sv c st s)"
  unfolding connect_children_def by (simp only: prod.case | assumption | rule wp f q | rule wp_pure)+

lemma CoreConnectController_wp [wp]:
  assumes f: "hand_free t s" and q: "\<And>st s'. hand_free t s' \<Longrightarrow> Q (st, s')"
  shows "pred_option Q (CoreConnectController sv pr c d path rec s)"
  unfolding CoreConnectController_def by (simp only: prod.case | assumption | rule wp f q | rule wp_pure)+

lemma CoreDisconnectController_keeps:
  "CoreDisconnectController sv pr c d ch s = Some (st, s') \<Longrightarrow> hand_free t s \<Longrightarrow> hand_free t s'"
  using CoreDisconnectController_wp [of t s "\<lambda>y. hand_free t (snd y)" pr c d ch] by simp

lemma CoreConnectController_keeps:
  "CoreConnectController sv pr c d path rec s = Some (st, s') \<Longrightarrow> hand_free t s \<Longrightarrow> hand_free t s'"
  using CoreConnectController_wp [of t s "\<lambda>y. hand_free t (snd y)" pr c d path "rec"] by simp

text \<open>What a system built over a contract offers meets the contract again.\<close>

lemma contract_step:
  "hand_contract \<lparr>Yield = (\<lambda>s. run_calls sv (program s) s), Disconnect = CoreDisconnectController sv pr,
     Connect = CoreConnectController sv pr, Memory = m, PcdNodes = k\<rparr>"
  by unfold_locales
    (simp_all, (erule run_calls_keeps CoreDisconnectController_keeps CoreConnectController_keeps, assumption)+)

end

section \<open>The running system\<close>

lemma hand_system_contract: "hand_contract (hand_system pr n)"
proof (induction n)
  case 0
  show ?case by unfold_locales simp_all
next
  case (Suc n)
  from hand_contract.contract_step [OF Suc] show ?case by simp
qed

interpretation system: hand_contract "hand_system pr n" for pr n
  by (rule hand_system_contract)

end
