(* ===== verification/Hand_Search.thy ===== *)
theory Hand_Search
  imports Driver_Keeps "HOL-Library.Multiset"
begin

text \<open>
  What the searches return.  The search by protocol walks the interfaces of the protocol's entry and
  marks the handles it has returned with the number of the request; it finds what a scan of all
  handles finds.
\<close>

section \<open>Walking along an entry\<close>

lemma list_next_after:
  assumes "distinct (xs @ ys)"
  shows "list_next (xs @ ys) (if xs = [] then None else Some (last xs)) = Some (case ys of [] \<Rightarrow> None | y # _ \<Rightarrow> Some y)"
  using assms by (induction xs) auto

definition owner :: "hand_db \<Rightarrow> UINTN \<Rightarrow> EFI_HANDLE" where
  "owner s p = Prot_Handle (the (prots s p))"

text \<open>The handles marked with the current request are those of \<open>V\<close>.\<close>

definition marked :: "EFI_HANDLE set \<Rightarrow> hand_db \<Rightarrow> bool" where
  "marked V s \<longleftrightarrow> (\<forall>h H. handles s h = Some H \<longrightarrow> (LocateRequest H = mEfiLocateHandleRequest s \<longleftrightarrow> h \<in> V))"

definition mark :: "EFI_HANDLE \<Rightarrow> hand_db \<Rightarrow> hand_db" where
  "mark h s = s\<lparr>handles := (handles s)(h := map_option (\<lambda>H. H\<lparr>LocateRequest := mEfiLocateHandleRequest s\<rparr>) (handles s h))\<rparr>"

lemma mark_simps [simp]:
  "prots (mark h s) = prots s" "mProtocolDatabase (mark h s) = mProtocolDatabase s"
  "mEfiLocateHandleRequest (mark h s) = mEfiLocateHandleRequest s" "find_entry g (mark h s) = find_entry g s"
  "dom (handles (mark h s)) = dom (handles s)" "owner (mark h s) = owner s" "pool (mark h s) = pool s"
  "locked (mark h s) = locked s"
  by (auto simp: mark_def find_entry_def fun_eq_iff owner_def)

lemma marked_mark: "marked V s \<Longrightarrow> marked (insert h V) (mark h s)"
  by (auto simp: marked_def mark_def)

text \<open>A position after the interfaces \<open>xs\<close> of the entry, with \<open>ys\<close> to come.\<close>

definition walking :: "EFI_GUID \<Rightarrow> UINTN list \<Rightarrow> UINTN list \<Rightarrow> LOCATE_POSITION \<Rightarrow> hand_db \<Rightarrow> bool" where
  "walking g xs ys pos s \<longleftrightarrow>
     (\<exists>e. find_entry g s = Some e \<and> Entry_Protocols e = xs @ ys) \<and> distinct (xs @ ys) \<and> ProtEntry pos = g
     \<and> Position pos = (if xs = [] then None else Some (last xs))
     \<and> (\<forall>p\<in>set ys. prots s p \<noteq> None \<and> handles s (owner s p) \<noteq> None \<and> owner s p \<noteq> NULL)"

lemma walking_next:
  assumes "walking g xs (y # ys) pos s"
  shows "walking g (xs @ [y]) ys (pos\<lparr>Position := Some y\<rparr>) s" "walking g (xs @ [y]) ys (pos\<lparr>Position := Some y\<rparr>) (mark h s)"
  using assms by (auto simp: walking_def) (auto simp: mark_def)

lemma next_by_protocol_Nil:
  "walking g xs [] pos s \<Longrightarrow> next_by_protocol i pos s = Some (NULL, i, pos\<lparr>Position := None\<rparr>, s)"
  using list_next_after [of xs "[]"]
  by (subst next_by_protocol.simps) (auto simp: walking_def Let_def split: if_splits)

lemma next_by_protocol_Cons:
  assumes "walking g xs (y # ys) pos s" "marked V s"
  shows "next_by_protocol i pos s =
    (if owner s y \<in> V then next_by_protocol (Prot_Interface (the (prots s y))) (pos\<lparr>Position := Some y\<rparr>) s
     else Some (owner s y, Prot_Interface (the (prots s y)), pos\<lparr>Position := Some y\<rparr>, mark (owner s y) s))"
proof -
  from assms(1) obtain e P H where d: "find_entry g s = Some e" "Entry_Protocols e = xs @ y # ys" "ProtEntry pos = g"
    "Position pos = (if xs = [] then None else Some (last xs))" "distinct (xs @ y # ys)"
    "prots s y = Some P" "handles s (owner s y) = Some H"
    by (auto simp: walking_def)
  have o: "owner s y = Prot_Handle P" by (simp add: owner_def d(6))
  have m: "LocateRequest H = mEfiLocateHandleRequest s \<longleftrightarrow> Prot_Handle P \<in> V"
    using assms(2) d(7) by (auto simp: marked_def o)
  show ?thesis
    using d(1-6) d(7) [unfolded o] m
    by (subst next_by_protocol.simps) (simp add: Let_def list_next_after [OF d(5)] o mark_def del: if_split)
qed

section \<open>The enumeration\<close>

text \<open>The handles met for the first time, and the database with all of them marked.\<close>

fun first_met :: "'a set \<Rightarrow> 'a list \<Rightarrow> 'a list" where
  "first_met V [] = []"
| "first_met V (h # hs) = (if h \<in> V then first_met V hs else h # first_met (insert h V) hs)"

lemma set_first_met: "set (first_met V hs) = set hs - V"
  by (induction V hs rule: first_met.induct) auto

lemma distinct_first_met: "distinct (first_met V hs)"
  by (induction V hs rule: first_met.induct) (auto simp: set_first_met)

lemma length_first_met: "length (first_met V hs) \<le> length hs"
  by (induction V hs rule: first_met.induct) auto

definition mark_all :: "EFI_HANDLE list \<Rightarrow> hand_db \<Rightarrow> hand_db" where
  "mark_all hs s = fold mark hs s"

lemma mark_all_simps [simp]:
  "prots (mark_all hs s) = prots s" "mProtocolDatabase (mark_all hs s) = mProtocolDatabase s"
  "mEfiLocateHandleRequest (mark_all hs s) = mEfiLocateHandleRequest s" "find_entry g (mark_all hs s) = find_entry g s"
  "dom (handles (mark_all hs s)) = dom (handles s)" "owner (mark_all hs s) = owner s" "pool (mark_all hs s) = pool s"
  "locked (mark_all hs s) = locked s"
  by (induction hs arbitrary: s) (simp_all add: mark_all_def)

lemma next_by_protocol_none:
  "walking g xs ys pos s \<Longrightarrow> marked V s \<Longrightarrow> owner s ` set ys \<subseteq> V \<Longrightarrow>
   \<exists>j. next_by_protocol i pos s = Some (NULL, j, pos\<lparr>Position := None\<rparr>, s)"
proof (induction ys arbitrary: i xs pos)
  case (Cons y ys)
  from Cons.IH [OF walking_next(1) [OF Cons.prems(1)] Cons.prems(2)] Cons.prems(3)
  show ?case by (simp add: next_by_protocol_Cons [OF Cons.prems(1,2)])
qed (simp add: next_by_protocol_Nil)

lemma next_by_protocol_some:
  "walking g xs (us @ p # vs) pos s \<Longrightarrow> marked V s \<Longrightarrow> owner s ` set us \<subseteq> V \<Longrightarrow> owner s p \<notin> V \<Longrightarrow>
   next_by_protocol i pos s =
     Some (owner s p, Prot_Interface (the (prots s p)), pos\<lparr>Position := Some p\<rparr>, mark (owner s p) s)
   \<and> walking g (xs @ us @ [p]) vs (pos\<lparr>Position := Some p\<rparr>) (mark (owner s p) s)"
proof (induction us arbitrary: i xs pos)
  case Nil
  then show ?case using walking_next(2) [of g xs p vs pos s] by (simp add: next_by_protocol_Cons)
next
  case (Cons u us)
  from Cons.prems(1) have w: "walking g xs (u # us @ p # vs) pos s" by simp
  from Cons.IH [OF walking_next(1) [OF w] Cons.prems(2)] Cons.prems(3,4)
  show ?case by (simp add: next_by_protocol_Cons [OF w Cons.prems(2)])
qed

lemma first_met_seen: "set us \<subseteq> V \<Longrightarrow> first_met V (us @ vs) = first_met V vs"
  by (induction us) auto

definition size_of :: "nat \<Rightarrow> UINTN" where
  "size_of n = of_nat (8 * n)"

lemma size_of_step [simp]: "size_of 0 = 0" "size_of n + 8 = size_of (Suc n)"
  by (simp_all add: size_of_def)

lemma unat_size_of: "n < 2 ^ 61 \<Longrightarrow> unat (size_of n) = 8 * n"
  by (simp add: size_of_def unat_of_nat del: of_nat_mult)

lemma size_of_le: "m < 2 ^ 61 \<Longrightarrow> n < 2 ^ 61 \<Longrightarrow> size_of m \<le> size_of n \<longleftrightarrow> m \<le> n"
  "m < 2 ^ 61 \<Longrightarrow> n < 2 ^ 61 \<Longrightarrow> size_of m < size_of n \<longleftrightarrow> m < n"
  "n < 2 ^ 61 \<Longrightarrow> size_of n = 0 \<longleftrightarrow> n = 0"
  by (simp_all add: word_le_nat_alt word_less_nat_alt word_unat_eq_iff unat_size_of)

lemma size_of_div: "n < 2 ^ 61 \<Longrightarrow> size_of n div 8 = of_nat n"
  by (simp add: word_unat_eq_iff unat_div unat_size_of unat_of_nat)

text \<open>The buffer has room for \<open>c\<close> handles, and \<open>j\<close> have been counted.\<close>

lemma locate_loop_by_protocol:
  assumes "walking g xs ys pos s" "marked V s" "c < 2 ^ 61" "j + length ys < 2 ^ 61"
  shows "locate_loop CoreGetNextLocateByProtocol (size_of c) (size_of j) r pos s =
    Some (size_of (j + length (first_met V (map (owner s) ys))),
          r @ take (c - j) (first_met V (map (owner s) ys)), mark_all (first_met V (map (owner s) ys)) s)"
  using assms
proof (induction "length ys" arbitrary: xs ys pos s V j r rule: less_induct)
  case less
  show ?case
  proof (cases "owner s ` set ys \<subseteq> V")
    case True
    then have f: "first_met V (map (owner s) ys) = []" using first_met_seen [of "map (owner s) ys" V "[]"] by simp
    from next_by_protocol_none [OF less.prems(1,2) True, of NULL] obtain q
      where "CoreGetNextLocateByProtocol pos s = Some (NULL, q, pos\<lparr>Position := None\<rparr>, s)"
      by (auto simp: CoreGetNextLocateByProtocol_def)
    then show ?thesis by (subst locate_loop.simps) (simp add: f mark_all_def)
  next
    case False
    then have "\<exists>p\<in>set ys. owner s p \<notin> V" by auto
    then obtain us p vs where ys: "ys = us @ p # vs" "owner s p \<notin> V" "\<forall>u\<in>set us. owner s u \<in> V"
      by (auto dest!: split_list_first_prop)
    let ?h = "owner s p" and ?V = "insert (owner s p) V"
    let ?f = "first_met ?V (map (owner s) vs)"
    have f: "first_met V (map (owner s) ys) = ?h # ?f"
      using ys(2) first_met_seen [of "map (owner s) us" V] ys(3) by (simp add: ys(1) image_subset_iff)
    from next_by_protocol_some [of g xs us p vs pos s V NULL] less.prems(1,2) ys
    have n: "CoreGetNextLocateByProtocol pos s =
        Some (?h, Prot_Interface (the (prots s p)), pos\<lparr>Position := Some p\<rparr>, mark ?h s)"
      and w: "walking g (xs @ us @ [p]) vs (pos\<lparr>Position := Some p\<rparr>) (mark ?h s)"
      by (auto simp: CoreGetNextLocateByProtocol_def)
    have h0: "?h \<noteq> NULL" using less.prems(1) ys(1) by (auto simp: walking_def)
    have le: "size_of (Suc j) \<le> size_of c \<longleftrightarrow> Suc j \<le> c"
      using less.prems(3,4) ys(1) by (simp add: size_of_le)
    have IH: "locate_loop CoreGetNextLocateByProtocol (size_of c) (size_of (Suc j)) r' (pos\<lparr>Position := Some p\<rparr>) (mark ?h s) =
        Some (size_of (Suc j + length ?f), r' @ take (c - (Suc j)) ?f, mark_all ?f (mark ?h s))" for r'
      using less.hyps [OF _ w marked_mark [OF less.prems(2)] less.prems(3), of "Suc j" r'] less.prems(4) ys(1) by simp
    have t: "(if Suc j \<le> c then r @ [?h] else r) @ take (c - (Suc j)) ?f = r @ take (c - j) (?h # ?f)"
      by (simp add: take_Cons')
    have "locate_loop CoreGetNextLocateByProtocol (size_of c) (size_of j) r pos s =
        locate_loop CoreGetNextLocateByProtocol (size_of c) (size_of (Suc j)) (if Suc j \<le> c then r @ [?h] else r)
          (pos\<lparr>Position := Some p\<rparr>) (mark ?h s)"
      by (subst locate_loop.simps) (simp add: n h0 size_of_step le Let_def)
    also note IH
    finally show ?thesis by (simp only: f t list.size mark_all_def fold.simps o_apply add_Suc add_Suc_right add_0_right)
  qed
qed

section \<open>The buffer of handles\<close>

text \<open>The scan of all handles the search is compared with.\<close>

definition supports :: "EFI_GUID \<Rightarrow> hand_db \<Rightarrow> EFI_HANDLE \<Rightarrow> bool" where
  "supports g s h \<longleftrightarrow>
     (case handles s h of
        None \<Rightarrow> False
      | Some H \<Rightarrow> list_ex (\<lambda>p. case prots s p of None \<Rightarrow> False | Some P \<Rightarrow> Prot_Protocol P = g) (Protocols H))"

text \<open>What the search finds, in the order it finds it.\<close>

definition found_handles :: "EFI_GUID \<Rightarrow> hand_db \<Rightarrow> EFI_HANDLE list" where
  "found_handles g s =
     (case find_entry g s of
        None \<Rightarrow> []
      | Some e \<Rightarrow> first_met {} (map (owner s) (Entry_Protocols e)))"

lemma supports_iff:
  assumes "hand_wf s"
  shows "supports g s h \<longleftrightarrow> (\<exists>p P. prots s p = Some P \<and> Prot_Protocol P = g \<and> Prot_Handle P = h)"
proof (cases "handles s h")
  case None
  then show ?thesis using wf_protsD(1) [OF assms] by (fastforce simp: supports_def)
next
  case (Some H)
  then show ?thesis using wf_handlesD(2) [OF assms Some]
    by (auto simp: supports_def list_ex_iff split: option.splits) blast
qed

lemma mset_found_handles:
  assumes "hand_wf s"
  shows "mset (found_handles g s) = mset (filter (supports g s) (gHandleList s))"
proof -
  have "set (found_handles g s) = {h. supports g s h}"
  proof (cases "find_entry g s")
    case None
    with wf_protsD(2) [OF assms] have "\<not> (\<exists>p P. prots s p = Some P \<and> Prot_Protocol P = g)"
      by (metis find_entry_None)
    with None show ?thesis by (auto simp: found_handles_def supports_iff [OF assms])
  next
    case (Some e)
    note e = find_entry_Some [OF Some]
    show ?thesis
      using wf_entriesD(3) [OF assms e(1)] e(2) Some
      by (force simp: found_handles_def set_first_met supports_iff [OF assms] owner_def)
  qed
  moreover have "{h. supports g s h} \<subseteq> set (gHandleList s)"
    using assms by (auto simp: hand_wf_def wf_lists_def supports_def split: option.splits)
  moreover have "distinct (gHandleList s)" using assms by (simp add: hand_wf_def wf_lists_def)
  moreover have "distinct (found_handles g s)"
    by (simp add: found_handles_def distinct_first_met split: option.splits)
  ultimately show ?thesis by (subst set_eq_iff_mset_eq_distinct [symmetric]) auto
qed

lemma walking_start:
  assumes "hand_wf s" "find_entry g s = Some e" "same_wf s s'"
  shows "walking g [] (Entry_Protocols e) \<lparr>SearchKey = k, Position = None, ProtEntry = g\<rparr> s'"
proof -
  note e = find_entry_Some [OF assms(2)]
  have "handles s (owner s p) \<noteq> None \<and> owner s p \<noteq> NULL \<and> prots s p \<noteq> None" if p: "p \<in> set (Entry_Protocols e)" for p
  proof -
    from p obtain P where P: "prots s p = Some P" using wf_entriesD(3) [OF assms(1) e(1)] by blast
    with wf_protsD(1) [OF assms(1) P] assms(1) show ?thesis
      by (auto simp: owner_def hand_wf_def wf_lists_def)
  qed
  with wf_entriesD(1) [OF assms(1) e(1)] assms(2,3) show ?thesis
    by (auto simp: walking_def same_wf_def find_entry_def owner_def)
qed

text \<open>Marks of other requests do not matter, and the size of the result is a \<open>UINTN\<close>.\<close>

definition search_ready :: "hand_db \<Rightarrow> bool" where
  "search_ready s \<longleftrightarrow>
     (\<forall>h H. handles s h = Some H \<longrightarrow>
        LocateRequest H \<noteq> mEfiLocateHandleRequest s + 1 \<and> LocateRequest H \<noteq> mEfiLocateHandleRequest s + 2)
     \<and> (\<forall>e\<in>set (mProtocolDatabase s). length (Entry_Protocols e) < 2 ^ 61)"

lemma length_found_handles:
  assumes "\<forall>e\<in>set (mProtocolDatabase s). length (Entry_Protocols e) < n" "0 < n"
  shows "length (found_handles g s) < n"
proof (cases "find_entry g s")
  case (Some e)
  from length_first_met [of "{}" "map (owner s) (Entry_Protocols e)"] assms(1) find_entry_Some(1) [OF Some]
  show ?thesis by (auto simp: found_handles_def Some intro: le_less_trans)
qed (simp add: found_handles_def assms(2))

lemma mark_all_held: "hand_held t s \<Longrightarrow> hand_held t (mark_all hs s)"
proof (induction hs arbitrary: s)
  case (Cons h hs)
  have "hand_held t (mark h s)"
  proof (cases "handles s h")
    case None
    then have "mark h s = s" by (simp add: mark_def fun_upd_idem)
    then show ?thesis using Cons.prems by simp
  next
    case (Some H)
    then show ?thesis using held_handle_update [OF Cons.prems Some] by (simp add: mark_def)
  qed
  from Cons.IH [OF this] show ?case by (simp add: mark_all_def)
qed (simp add: mark_all_def)

lemma InternalCoreLocateHandle_by_protocol:
  assumes "hand_held t s" "c < 2 ^ 61" "\<forall>h H. handles s h = Some H \<longrightarrow> LocateRequest H \<noteq> mEfiLocateHandleRequest s + 1"
    "\<forall>e\<in>set (mProtocolDatabase s). length (Entry_Protocols e) < 2 ^ 61" "c = 0 \<or> b"
  shows "InternalCoreLocateHandle ByProtocol (Some g) k (size_of c) b s =
    (let hs = found_handles g s; s' = s\<lparr>mEfiLocateHandleRequest := mEfiLocateHandleRequest s + 1\<rparr> in
     if find_entry g s = None then Some (EFI_NOT_FOUND, size_of c, [], s)
     else if hs = [] then Some (EFI_NOT_FOUND, size_of c, [], s')
     else Some (if c < length hs then EFI_BUFFER_TOO_SMALL else EFI_SUCCESS, size_of (length hs), take c hs,
       mark_all hs s'))"
proof (cases "find_entry g s")
  case None
  then show ?thesis using assms(1,5)
    by (auto simp: InternalCoreLocateHandle_def locate_start_def CoreFindProtocolEntry_def handheldD size_of_step)
next
  case (Some e)
  let ?s = "s\<lparr>mEfiLocateHandleRequest := mEfiLocateHandleRequest s + 1\<rparr>"
  let ?hs = "found_handles g s" and ?n = "length (found_handles g s)"
  have w: "walking g [] (Entry_Protocols e) \<lparr>SearchKey = k, Position = None, ProtEntry = g\<rparr> ?s"
    by (rule walking_start [OF handheldD(1) [OF assms(1)] Some]) (simp add: same_wf_def)
  have m: "marked {} ?s" using assms(3) by (simp add: marked_def)
  have hs: "?hs = first_met {} (map (owner ?s) (Entry_Protocols e))" by (simp add: found_handles_def Some owner_def [abs_def])
  have n: "?n < 2 ^ 61" by (rule length_found_handles [OF assms(4)]) simp
  have l: "locate_loop CoreGetNextLocateByProtocol (size_of c) 0 [] \<lparr>SearchKey = k, Position = None, ProtEntry = g\<rparr> ?s =
      Some (size_of ?n, take c ?hs, mark_all ?hs ?s)"
    using locate_loop_by_protocol [OF w m assms(2), of 0 "[]"] assms(4) find_entry_Some(1) [OF Some] by (simp add: hs size_of_step)
  note z = size_of_le(3) [OF n] and le = size_of_le(2) [OF assms(2) n]
  have g: "\<not> (0 < size_of c \<and> \<not> b)" using assms(5) by (auto simp: size_of_step)
  show ?thesis
    using g Some
    by (auto simp: InternalCoreLocateHandle_def locate_start_def CoreFindProtocolEntry_def handheldD [OF assms(1)] l z le Let_def
        mark_all_def)
qed

lemma held_search_ready:
  assumes "search_ready s" "CoreAcquireProtocolLock s = Some s'"
  shows "search_ready s'" "mProtocolDatabase s' = mProtocolDatabase s" "prots s' = prots s" "handles s' = handles s"
    "gHandleList s' = gHandleList s" "pool s' = pool s"
  using assms by (auto simp: search_ready_def CoreAcquireProtocolLock_def split: if_splits)

lemma release_quiet:
  "\<forall>s. Yield sv s = Some s \<Longrightarrow> locked s \<Longrightarrow> CoreReleaseProtocolLock sv s = Some (s\<lparr>locked := False, CurrentTpl := OwnerTpl s\<rparr>)"
  by (simp add: CoreReleaseProtocolLock_def)

lemma found_handles_cong:
  assumes "mProtocolDatabase s' = mProtocolDatabase s" "prots s' = prots s"
  shows "found_handles g s' = found_handles g s"
proof -
  have "owner s' = owner s" using assms(2) by (simp add: fun_eq_iff owner_def)
  then show ?thesis using assms(1) by (simp add: found_handles_def find_entry_def split: option.splits)
qed

lemma mark_all_handles:
  "handles (mark_all hs s) h = Some H \<Longrightarrow>
   \<exists>H'. handles s h = Some H' \<and> (LocateRequest H = LocateRequest H' \<or> LocateRequest H = mEfiLocateHandleRequest s)"
proof (induction hs arbitrary: s)
  case (Cons a hs)
  from Cons.IH [of "mark a s"] Cons.prems obtain H' where "handles (mark a s) h = Some H'"
    "LocateRequest H = LocateRequest H' \<or> LocateRequest H = mEfiLocateHandleRequest s"
    by (auto simp: mark_all_def)
  then show ?case by (auto simp: mark_def split: if_splits)
qed (simp add: mark_all_def)

lemma CoreLocateHandleBuffer_by_protocol:
  assumes "hand_free t s" "t \<le> TPL_NOTIFY_LOCK" "\<forall>s. Yield sv s = Some s" "search_ready s" "pool s = a # as"
  shows "\<exists>s'. CoreLocateHandleBuffer sv ByProtocol (Some g) k True s =
    Some (if found_handles g s = [] then (EFI_NOT_FOUND, 0, None, s')
          else if a = NULL then (EFI_OUT_OF_RESOURCES, 0, None, s')
          else (EFI_SUCCESS, of_nat (length (found_handles g s)), Some (found_handles g s), s'))"
proof -
  let ?hs = "found_handles g s" and ?s' = "s\<lparr>locked := True, OwnerTpl := CurrentTpl s, CurrentTpl := TPL_NOTIFY_LOCK\<rparr>"
  have a: "CoreAcquireProtocolLock s = Some ?s'"
    using assms(1,2) by (simp add: CoreAcquireProtocolLock_def hand_free_def)
  note h1 = acquire_keeps [OF a assms(1)] and r1 = held_search_ready [OF assms(4) a]
  have f1: "found_handles g ?s' = ?hs" by (rule found_handles_cong) simp_all
  have fe: "find_entry g ?s' = None \<Longrightarrow> ?hs = []" by (simp add: found_handles_def find_entry_def)
  have n: "length ?hs < 2 ^ 61" using assms(4) by (intro length_found_handles) (simp_all add: search_ready_def)
  have "\<exists>s2. InternalCoreLocateHandle ByProtocol (Some g) k (size_of 0) False ?s' =
      (if ?hs = [] then Some (EFI_NOT_FOUND, size_of 0, [], s2) else Some (EFI_BUFFER_TOO_SMALL, size_of (length ?hs), [], s2))
      \<and> locked s2 \<and> (?hs \<noteq> [] \<longrightarrow> s2 = mark_all ?hs (?s'\<lparr>mEfiLocateHandleRequest := mEfiLocateHandleRequest s + 1\<rparr>))"
    using assms(4) r1(1) by (subst InternalCoreLocateHandle_by_protocol [OF h1])
      (auto simp: f1 search_ready_def Let_def fe)
  then obtain s2 where l: "InternalCoreLocateHandle ByProtocol (Some g) k 0 False ?s' =
      (if ?hs = [] then Some (EFI_NOT_FOUND, 0, [], s2) else Some (EFI_BUFFER_TOO_SMALL, size_of (length ?hs), [], s2))"
      "locked s2" "?hs \<noteq> [] \<longrightarrow> s2 = mark_all ?hs (?s'\<lparr>mEfiLocateHandleRequest := mEfiLocateHandleRequest s + 1\<rparr>)"
    unfolding size_of_step by blast
  show ?thesis
  proof (cases "?hs = []")
    case True
    then show ?thesis by (simp add: CoreLocateHandleBuffer_def a l release_quiet assms(3))
  next
    case False
    let ?s3 = "s2\<lparr>pool := as\<rparr>"
    have s2: "pool s2 = a # as" "mProtocolDatabase s2 = mProtocolDatabase s" "prots s2 = prots s"
      "mEfiLocateHandleRequest s2 = mEfiLocateHandleRequest s + 1"
      using l(3) False assms(5) by simp_all
    show ?thesis
    proof (cases "a = NULL")
      case True
      then show ?thesis using False
        by (simp add: CoreLocateHandleBuffer_def a l(1) hand_alloc_def s2 release_quiet [OF assms(3)] l(2))
    next
      case nn: False
      have "hand_held t s2" using l(3) False mark_all_held [OF held_request [OF h1]] by simp
      then have h3: "hand_held t ?s3" by (rule hand_held_same) (simp_all add: same_wf_def same_lock_def)
      have f3: "found_handles g ?s3 = ?hs" "find_entry g ?s3 \<noteq> None"
        using found_handles_cong [of ?s3 s g] s2 False by (auto simp: found_handles_def find_entry_def split: option.splits)
      have q: "\<forall>h H. handles ?s3 h = Some H \<longrightarrow> LocateRequest H \<noteq> mEfiLocateHandleRequest ?s3 + 1"
        using assms(4) l(3) False s2(4) mark_all_handles by (fastforce simp: search_ready_def)
      have e: "\<exists>s4. InternalCoreLocateHandle ByProtocol (Some g) k (size_of (length ?hs)) True ?s3 =
          Some (EFI_SUCCESS, size_of (length ?hs), ?hs, s4) \<and> locked s4"
        using InternalCoreLocateHandle_by_protocol [OF h3 n q] f3 False assms(4) s2 by (simp add: search_ready_def Let_def l(2))
      then show ?thesis
        using False nn by (auto simp: CoreLocateHandleBuffer_def a l(1) hand_alloc_def s2 release_quiet [OF assms(3)] size_of_div [OF n])
    qed
  qed
qed

end
