(* ===== verification/Hand_Results.thy ===== *)
theory Hand_Results
  imports Hand_Search
begin

text \<open>
  What the services return when nothing is pending: searching with a registration, installing,
  looking up, opening for a driver, and uninstalling.
\<close>

definition quiet :: "hand_services \<Rightarrow> bool" where
  "quiet sv \<longleftrightarrow> (\<forall>s. Yield sv s = Some s)"

definition hand_locked :: "hand_db \<Rightarrow> hand_db" where
  "hand_locked s = s\<lparr>locked := True, OwnerTpl := CurrentTpl s, CurrentTpl := TPL_NOTIFY_LOCK\<rparr>"

definition hand_unlocked :: "hand_db \<Rightarrow> hand_db" where
  "hand_unlocked s = s\<lparr>locked := False, CurrentTpl := OwnerTpl s\<rparr>"

lemma acquire_free: "hand_free t s \<Longrightarrow> t \<le> TPL_NOTIFY_LOCK \<Longrightarrow> CoreAcquireProtocolLock s = Some (hand_locked s)"
  by (simp add: CoreAcquireProtocolLock_def hand_free_def hand_locked_def)

lemma release_free: "quiet sv \<Longrightarrow> locked s \<Longrightarrow> CoreReleaseProtocolLock sv s = Some (hand_unlocked s)"
  by (simp add: CoreReleaseProtocolLock_def quiet_def hand_unlocked_def)

lemma release_Some: "quiet sv \<Longrightarrow> CoreReleaseProtocolLock sv s = Some s' \<Longrightarrow> s' = hand_unlocked s"
  by (simp add: CoreReleaseProtocolLock_def quiet_def hand_unlocked_def split: if_splits)

lemma hand_locked_simps [simp]:
  "mProtocolDatabase (hand_locked s) = mProtocolDatabase s" "gHandleList (hand_locked s) = gHandleList s"
  "gOrderedHandleList (hand_locked s) = gOrderedHandleList s" "handles (hand_locked s) = handles s"
  "prots (hand_locked s) = prots s" "notifies (hand_locked s) = notifies s" "events (hand_locked s) = events s"
  "pool (hand_locked s) = pool s" "locked (hand_locked s)" "find_entry g (hand_locked s) = find_entry g s"
  "gDxeCoreImageHandle (hand_locked s) = gDxeCoreImageHandle s" "gHandleDatabaseKey (hand_locked s) = gHandleDatabaseKey s"
  "mEfiLocateHandleRequest (hand_locked s) = mEfiLocateHandleRequest s" "signalled (hand_locked s) = signalled s"
  "OwnerTpl (hand_locked s) = CurrentTpl s"
  by (simp_all add: hand_locked_def find_entry_def)

lemma hand_unlocked_simps [simp]:
  "mProtocolDatabase (hand_unlocked s) = mProtocolDatabase s" "gHandleList (hand_unlocked s) = gHandleList s"
  "gOrderedHandleList (hand_unlocked s) = gOrderedHandleList s" "handles (hand_unlocked s) = handles s"
  "prots (hand_unlocked s) = prots s" "notifies (hand_unlocked s) = notifies s" "events (hand_unlocked s) = events s"
  "pool (hand_unlocked s) = pool s" "\<not> locked (hand_unlocked s)" "find_entry g (hand_unlocked s) = find_entry g s"
  "gDxeCoreImageHandle (hand_unlocked s) = gDxeCoreImageHandle s" "gHandleDatabaseKey (hand_unlocked s) = gHandleDatabaseKey s"
  "mEfiLocateHandleRequest (hand_unlocked s) = mEfiLocateHandleRequest s" "signalled (hand_unlocked s) = signalled s"
  "CurrentTpl (hand_unlocked s) = OwnerTpl s"
  by (simp_all add: hand_unlocked_def find_entry_def)

lemma locked_held: "hand_free t s \<Longrightarrow> t \<le> TPL_NOTIFY_LOCK \<Longrightarrow> hand_held t (hand_locked s)"
  by (rule acquire_keeps [OF acquire_free])

lemma unlocked_free: "hand_held t s \<Longrightarrow> hand_free t (hand_unlocked s)"
  by (auto simp: hand_held_def hand_free_def hand_unlocked_def hand_wf_defs)

section \<open>A registration\<close>

text \<open>The interfaces a registration has still to deliver.\<close>

fun list_after :: "'a list \<Rightarrow> 'a option \<Rightarrow> 'a list" where
  "list_after xs None = xs"
| "list_after [] (Some a) = []"
| "list_after (x # xs) (Some a) = (if x = a then xs else list_after xs (Some a))"

definition pending :: "UINTN \<Rightarrow> hand_db \<Rightarrow> UINTN list" where
  "pending n s =
     (case notifies s n of
        None \<Rightarrow> []
      | Some N \<Rightarrow> (case find_entry (Notify_Protocol N) s of
                     None \<Rightarrow> []
                   | Some e \<Rightarrow> list_after (Entry_Protocols e) (Notify_Position N)))"

lemma list_next_pending:
  "pos = None \<or> (\<exists>p\<in>set xs. pos = Some p) \<Longrightarrow>
   list_next xs pos = Some (case list_after xs pos of [] \<Rightarrow> None | y # _ \<Rightarrow> Some y)"
  by (induction xs pos rule: list_next.induct) (auto split: list.splits)

lemma list_after_suffix: "\<exists>zs. xs = zs @ list_after xs pos"
proof (induction xs pos rule: list_after.induct)
  case (3 x xs a)
  then obtain zs where "x \<noteq> a \<Longrightarrow> xs = zs @ list_after xs (Some a)" by blast
  then show ?case by (cases "x = a") (auto intro: exI [of _ "[x]"] exI [of _ "x # zs"])
qed auto

lemma list_after_append: "y \<notin> set zs \<Longrightarrow> list_after (zs @ y # ys) (Some y) = ys"
  by (induction zs) auto

lemma list_after_step:
  assumes "distinct xs" "list_after xs pos = y # ys"
  shows "list_after xs (Some y) = ys" "y \<in> set xs"
proof -
  obtain zs where z: "xs = zs @ y # ys" using list_after_suffix [of xs pos] assms(2) by auto
  with assms(1) show "list_after xs (Some y) = ys"
    by (simp add: list_after_append)
  from z show "y \<in> set xs" by simp
qed

lemma pending_cases:
  assumes "hand_wf s" "notifies s n = Some N"
  obtains e where "find_entry (Notify_Protocol N) s = Some e" "pending n s = list_after (Entry_Protocols e) (Notify_Position N)"
    "list_next (Entry_Protocols e) (Notify_Position N) = Some (case pending n s of [] \<Rightarrow> None | y # _ \<Rightarrow> Some y)"
    "distinct (Entry_Protocols e)"
    "\<And>p. p \<in> set (Entry_Protocols e) \<Longrightarrow> \<exists>P. prots s p = Some P \<and> Prot_Handle P \<noteq> NULL"
proof -
  note n = wf_notifiesD [OF assms]
  from n(1) obtain e where e: "find_entry (Notify_Protocol N) s = Some e"
    by (metis find_entry_None option.exhaust)
  note w = wf_entriesD [OF assms(1) find_entry_Some(1) [OF e]]
  have p: "pending n s = list_after (Entry_Protocols e) (Notify_Position N)" by (simp add: pending_def assms(2) e)
  have "Notify_Position N = None \<or> (\<exists>p\<in>set (Entry_Protocols e). Notify_Position N = Some p)"
    using n(2) w(3) find_entry_Some(2) [OF e] by (cases "Notify_Position N") auto
  from list_next_pending [OF this] p
  have "list_next (Entry_Protocols e) (Notify_Position N) = Some (case pending n s of [] \<Rightarrow> None | y # _ \<Rightarrow> Some y)"
    by simp
  moreover have "\<exists>P. prots s p = Some P \<and> Prot_Handle P \<noteq> NULL" if "p \<in> set (Entry_Protocols e)" for p
    using w(3) that wf_protsD(1) [OF assms(1)] assms(1) by (fastforce simp: hand_wf_def wf_lists_def)
  ultimately show ?thesis using that [OF e p] w(1) by blast
qed

lemma CoreLocateProtocol_registration:
  assumes "hand_free t s" "t \<le> TPL_NOTIFY_LOCK" "quiet sv" "notifies s n = Some N" "n \<noteq> NULL"
  shows "case pending n s of
      [] \<Rightarrow> \<exists>s'. CoreLocateProtocol sv (Some g) n True s = Some (EFI_NOT_FOUND, Some NULL, s')
    | p # ps \<Rightarrow> \<exists>s'. CoreLocateProtocol sv (Some g) n True s = Some (EFI_SUCCESS, Some (Prot_Interface (the (prots s p))), s')
        \<and> hand_free t s' \<and> prots s' = prots s \<and> pending n s' = ps \<and> notifies s' n \<noteq> None"
proof -
  let ?s = "(hand_locked s)\<lparr>mEfiLocateHandleRequest := mEfiLocateHandleRequest s + 1\<rparr>"
  have h: "hand_held t ?s" using held_request [OF locked_held [OF assms(1,2)]] by simp
  have w: "hand_wf s" using assms(1) by (simp add: hand_free_def)
  from pending_cases [OF w assms(4)] obtain e where e: "find_entry (Notify_Protocol N) s = Some e"
    "pending n s = list_after (Entry_Protocols e) (Notify_Position N)"
    "list_next (Entry_Protocols e) (Notify_Position N) = Some (case pending n s of [] \<Rightarrow> None | y # _ \<Rightarrow> Some y)"
    "distinct (Entry_Protocols e)" "\<And>p. p \<in> set (Entry_Protocols e) \<Longrightarrow> \<exists>P. prots s p = Some P \<and> Prot_Handle P \<noteq> NULL"
    by blast
  have nl: "\<not> locked s" using assms(1) by (simp add: hand_free_def)
  have fe: "find_entry (Notify_Protocol N) ?s = Some e" using e(1) by (simp add: find_entry_def)
  show ?thesis
  proof (cases "pending n s")
    case Nil
    then show ?thesis using e(3) fe nl assms
      by (simp add: CoreLocateProtocol_def acquire_free [OF assms(1,2)] Let_def CoreGetNextLocateByRegisterNotify_def
          release_free [OF assms(3)])
  next
    case (Cons p ps)
    note st = list_after_step [OF e(4) e(2) [symmetric, unfolded Cons]]
    from e(5) [OF st(2)] obtain P where P: "prots s p = Some P" "Prot_Handle P \<noteq> NULL" by blast
    let ?s2 = "?s\<lparr>notifies := (notifies s)(n \<mapsto> N\<lparr>Notify_Position := Some p\<rparr>)\<rparr>"
    have a: "advance_notify n ?s = Some ?s2" using e(3) fe assms(4) Cons by (simp add: advance_notify_def)
    have l: "CoreLocateProtocol sv (Some g) n True s = Some (EFI_SUCCESS, Some (Prot_Interface P), hand_unlocked ?s2)"
      using e(3) fe nl Cons P a assms(4,5)
      by (simp add: CoreLocateProtocol_def acquire_free [OF assms(1,2)] Let_def CoreGetNextLocateByRegisterNotify_def
          release_free [OF assms(3)])
    have "pending n (hand_unlocked ?s2) = ps"
      using e(1) st(1) by (simp add: pending_def find_entry_def)
    then show ?thesis using Cons P l unlocked_free [OF advance_notify_keeps [OF a h]] by simp
  qed
qed

text \<open>A driver that asks again until the registration is exhausted.\<close>

fun locate_repeatedly :: "hand_services \<Rightarrow> EFI_GUID \<Rightarrow> UINTN \<Rightarrow> nat \<Rightarrow> hand_db \<Rightarrow> (EFI_STATUS \<times> UINTN list \<times> hand_db) option" where
  "locate_repeatedly sv g n 0 s = Some (EFI_SUCCESS, [], s)"
| "locate_repeatedly sv g n (Suc k) s = do {
     (Status, i, s) \<leftarrow> CoreLocateProtocol sv (Some g) n True s;
     if EFI_ERROR Status then Some (Status, [], s)
     else do {
       i \<leftarrow> i;
       (Status, is, s) \<leftarrow> locate_repeatedly sv g n k s;
       Some (Status, i # is, s) } }"

lemma locate_repeatedly_pending:
  assumes "hand_free t s" "t \<le> TPL_NOTIFY_LOCK" "quiet sv" "notifies s n \<noteq> None" "n \<noteq> NULL" "length (pending n s) < k"
  shows "\<exists>s'. locate_repeatedly sv g n k s =
    Some (EFI_NOT_FOUND, map (\<lambda>p. Prot_Interface (the (prots s p))) (pending n s), s')"
  using assms(1,4,6)
proof (induction k arbitrary: s)
  case (Suc k)
  from Suc.prems(2) obtain N where N: "notifies s n = Some N" by blast
  note l = CoreLocateProtocol_registration [OF Suc.prems(1) assms(2,3) N assms(5), of g]
  show ?case
  proof (cases "pending n s")
    case Nil
    then show ?thesis using l by auto
  next
    case (Cons p ps)
    with l obtain s' where s': "CoreLocateProtocol sv (Some g) n True s = Some (EFI_SUCCESS, Some (Prot_Interface (the (prots s p))), s')"
      "hand_free t s'" "prots s' = prots s" "pending n s' = ps" "notifies s' n \<noteq> None" by auto
    from Suc.IH [OF s'(2,5)] Suc.prems(3) Cons s' show ?thesis by auto
  qed
qed simp

section \<open>Installing and looking up\<close>

lemma validate_live:
  "hand_held t s \<Longrightarrow> CoreValidateHandle h s = Some (if handles s h = None then EFI_INVALID_PARAMETER else EFI_SUCCESS)"
  by (cases "h = NULL") (auto simp: hand_held_def hand_wf_defs CoreValidateHandle_def)

lemma signal_all_effect: "signal_all ns s = Some s' \<Longrightarrow> s' = s\<lparr>signalled := signalled s'\<rparr>"
proof (induction ns arbitrary: s)
  case (Cons n ns)
  then obtain x where "signal_all ns (s\<lparr>signalled := x\<rparr>) = Some s'" by (auto simp: bind_eq_Some_conv)
  from Cons.IH [OF this] show ?case by simp
qed simp

lemma CoreNotifyProtocolEntry_effect: "CoreNotifyProtocolEntry g s = Some s' \<Longrightarrow> \<exists>x. s' = s\<lparr>signalled := x\<rparr>"
  by (auto simp: CoreNotifyProtocolEntry_def bind_eq_Some_conv split: if_splits dest: signal_all_effect)

text \<open>What a successful installation leaves behind.\<close>

lemma install_prot_effect:
  assumes "install_prot h p g i b s = Some s'"
  shows "\<exists>H. handles s h = Some H
    \<and> (\<exists>k. handles s' = (handles s)(h \<mapsto> H\<lparr>Key := k, Protocols := p # Protocols H\<rparr>))
    \<and> prots s' = (prots s)(p \<mapsto> \<lparr>Prot_Handle = h, Prot_Protocol = g, Prot_Interface = i, OpenList = [], OpenListCount = 0\<rparr>)
    \<and> mProtocolDatabase s' = mProtocolDatabase (upd_entry g (\<lambda>e. e\<lparr>Entry_Protocols := Entry_Protocols e @ [p]\<rparr>) s)
    \<and> gHandleList s' = gHandleList s \<and> gOrderedHandleList s' = gOrderedHandleList s \<and> notifies s' = notifies s
    \<and> gDxeCoreImageHandle s' = gDxeCoreImageHandle s"
  using assms
  by (cases b) (auto simp: install_prot_def bind_eq_Some_conv Let_def upd_entry_def split: if_splits
        dest!: CoreNotifyProtocolEntry_effect)

lemma by_handle_protocol_neq [simp]:
  "EFI_OPEN_PROTOCOL_BY_HANDLE_PROTOCOL \<noteq> EFI_OPEN_PROTOCOL_TEST_PROTOCOL"
  "EFI_OPEN_PROTOCOL_BY_HANDLE_PROTOCOL \<noteq> EFI_OPEN_PROTOCOL_BY_CHILD_CONTROLLER"
  "EFI_OPEN_PROTOCOL_BY_HANDLE_PROTOCOL \<noteq> EFI_OPEN_PROTOCOL_BY_DRIVER"
  "EFI_OPEN_PROTOCOL_BY_HANDLE_PROTOCOL \<noteq> EFI_OPEN_PROTOCOL_BY_DRIVER OR EFI_OPEN_PROTOCOL_EXCLUSIVE"
  "EFI_OPEN_PROTOCOL_BY_HANDLE_PROTOCOL \<noteq> EFI_OPEN_PROTOCOL_EXCLUSIVE"
  by (simp_all add: EFI_OPEN_PROTOCOL_BY_HANDLE_PROTOCOL_def EFI_OPEN_PROTOCOL_TEST_PROTOCOL_def
      EFI_OPEN_PROTOCOL_BY_CHILD_CONTROLLER_def EFI_OPEN_PROTOCOL_BY_DRIVER_def EFI_OPEN_PROTOCOL_EXCLUSIVE_def)

text \<open>The interface a handle was given last is the one it is asked for.\<close>

lemma CoreHandleProtocol_first:
  assumes "hand_free t s" "t \<le> TPL_NOTIFY_LOCK" "quiet sv" "handles s h = Some H" "Protocols H = p # ps"
    "prots s p = Some P" "Prot_Protocol P = g" "OpenList P = []" "pool s = a # as" "a \<noteq> NULL"
  shows "\<exists>s'. CoreHandleProtocol sv h (Some g) True s = Some (EFI_SUCCESS, Some (Prot_Interface P), s')"
proof -
  note h = locked_held [OF assms(1,2)]
  have f: "CoreGetProtocolInterface h g (hand_locked s) = Some (Some p)"
    using assms by (simp add: CoreGetProtocolInterface_def)
  have c: "open_check h i NULL EFI_OPEN_PROTOCOL_BY_HANDLE_PROTOCOL s = Some EFI_SUCCESS" for i s
    by (simp add: open_check_def)
  have o: "\<exists>s2 P2. open_prot sv h p i NULL EFI_OPEN_PROTOCOL_BY_HANDLE_PROTOCOL (hand_locked s) = Some (EFI_SUCCESS, s2)
      \<and> prots s2 p = Some P2 \<and> Prot_Interface P2 = Prot_Interface P \<and> locked s2" for i
    using assms(6,8,9,10)
    by (auto simp: open_prot_def Let_def hand_alloc_def upd_prot_def)
  from o [of "gDxeCoreImageHandle s"] obtain s2 P2 where
    "open_prot sv h p (gDxeCoreImageHandle s) NULL EFI_OPEN_PROTOCOL_BY_HANDLE_PROTOCOL (hand_locked s) = Some (EFI_SUCCESS, s2)"
    "prots s2 p = Some P2" "Prot_Interface P2 = Prot_Interface P" "locked s2" by blast
  with assms(4) show ?thesis
    by (simp add: CoreHandleProtocol_def CoreOpenProtocol_def acquire_free [OF assms(1,2)] validate_live [OF h] f c
        release_free [OF assms(3)])
qed

lemma CoreFindProtocolEntry_effect:
  assumes "CoreFindProtocolEntry g b s = Some (e, s')"
  shows "handles s' = handles s" "prots s' = prots s" "notifies s' = notifies s" "gHandleList s' = gHandleList s"
    "gOrderedHandleList s' = gOrderedHandleList s" "locked s'"
    "mProtocolDatabase s' = mProtocolDatabase s
     \<or> find_entry g s = None \<and> mProtocolDatabase s' = mProtocolDatabase s @ [\<lparr>ProtocolID = g, Entry_Protocols = [], Entry_Notify = []\<rparr>]"
  using assms
  by (auto simp: CoreFindProtocolEntry_def hand_alloc_def find_entry_def find_None_iff Let_def
      split: if_splits option.splits list.splits)

lemma install_handle_status: "install_handle u s = Some (st, h, s') \<Longrightarrow> \<not> EFI_ERROR st \<Longrightarrow> st = EFI_SUCCESS"
  by (auto simp: install_handle_def CoreValidateHandle_def bind_eq_Some_conv split: if_splits prod.splits)

text \<open>The steps of a successful installation.\<close>

lemma install_steps:
  assumes "CoreInstallProtocolInterface sv (Some u) (Some g) True i s = Some (EFI_SUCCESS, r, s')" "quiet sv"
  obtains s0 s1 e s2 p s3 h s4 s5 where "u = NULL \<Longrightarrow> s0 = s" "hand_free t s \<Longrightarrow> hand_contract sv \<Longrightarrow> hand_free t s0"
    "CoreAcquireProtocolLock s0 = Some s1" "CoreFindProtocolEntry g True s1 = Some (Some e, s2)"
    "hand_alloc (\<lambda>a. prots s2 a \<noteq> None) s2 = (p, s3)" "p \<noteq> NULL" "install_handle u s3 = Some (EFI_SUCCESS, h, s4)"
    "install_prot h p g i True s4 = Some s5" "s' = hand_unlocked s5" "r = Some h"
proof -
  let ?z = "if u \<noteq> NULL then CoreHandleProtocol sv u (Some g) True s else Some (EFI_OUT_OF_RESOURCES, None, s)"
  obtain st0 x s0 where z: "?z = Some (st0, x, s0)"
    using assms(1) unfolding CoreInstallProtocolInterface_def
    by (cases ?z) (auto simp: CoreInstallProtocolInterfaceNotify_def split del: if_split)
  have e0: "EFI_ERROR st0"
  proof (rule ccontr)
    assume "\<not> EFI_ERROR st0"
    then show False using assms(1) z
      by (auto simp: CoreInstallProtocolInterface_def CoreInstallProtocolInterfaceNotify_def split: if_splits)
  qed
  let ?b = "\<lambda>E s2. (if E = None then Some (st0, NULL, s2)
               else let (p, s) = hand_alloc (\<lambda>a. prots s2 a \<noteq> None) s2 in
                 if p = NULL then Some (EFI_OUT_OF_RESOURCES, NULL, s)
                 else do {
                   (Status, h, s) \<leftarrow> install_handle u s;
                   if EFI_ERROR Status then Some (Status, h, s)
                   else do {
                     s \<leftarrow> install_prot h p g i True s;
                     Some (EFI_SUCCESS, h, s) } })"
  have "do { s \<leftarrow> CoreAcquireProtocolLock s0;
             (E, s) \<leftarrow> CoreFindProtocolEntry g True s;
             (Status, h, s) \<leftarrow> ?b E s;
             s \<leftarrow> CoreReleaseProtocolLock sv s;
             Some (Status, if EFI_ERROR Status then Some u else Some h, s) } = Some (EFI_SUCCESS, r, s')"
    using assms(1) z e0
    unfolding CoreInstallProtocolInterface_def CoreInstallProtocolInterfaceNotify_def by (simp split del: if_split)
  then obtain s1 E s2 h s3 where d: "CoreAcquireProtocolLock s0 = Some s1" "CoreFindProtocolEntry g True s1 = Some (E, s2)"
    "?b E s2 = Some (EFI_SUCCESS, h, s3)" "CoreReleaseProtocolLock sv s3 = Some s'" "r = Some h"
    by (auto simp: bind_eq_Some_conv split del: if_split)
  obtain p s4 where p: "hand_alloc (\<lambda>a. prots s2 a \<noteq> None) s2 = (p, s4)" by (rule prod.exhaust)
  have E: "E \<noteq> None" "p \<noteq> NULL" using d(3) e0 p by (auto split: if_splits)
  with d(3) [unfolded p] obtain s5 where "install_handle u s4 = Some (EFI_SUCCESS, h, s5)"
    "install_prot h p g i True s5 = Some s3"
    by (auto simp: bind_eq_Some_conv split: if_splits dest: install_handle_status)
  moreover have "hand_free t s \<Longrightarrow> hand_contract sv \<Longrightarrow> hand_free t s0"
    using z hand_contract.CoreHandleProtocol_keeps by (auto split: if_splits)
  moreover have "u = NULL \<Longrightarrow> s0 = s" using z by simp
  ultimately show ?thesis using that d(1,2,5) p E release_Some [OF assms(2) d(4)] by blast
qed

lemma install_lookup:
  assumes "CoreInstallProtocolInterface sv (Some u) (Some g) True i s = Some (EFI_SUCCESS, r, s')" "quiet sv"
    "hand_contract sv" "hand_free t s" "t \<le> TPL_NOTIFY_LOCK" "pool s' = a # as" "a \<noteq> NULL"
  shows "\<exists>h s2. r = Some h \<and> CoreHandleProtocol sv h (Some g) True s' = Some (EFI_SUCCESS, Some i, s2)"
proof (rule install_steps [where t = t, OF assms(1,2)], goal_cases)
  case (1 s0 s1 e s2 p s3 h s4 s5)
  note d = 1(8-10)
  have f': "hand_free t s'" by (rule hand_contract.CoreInstallProtocolInterface_keeps [OF assms(3,1,4)])
  from install_prot_effect [OF d(1)] obtain H k where H: "handles s' h = Some (H\<lparr>Key := k, Protocols := p # Protocols H\<rparr>)"
    and P: "prots s' p = Some \<lparr>Prot_Handle = h, Prot_Protocol = g, Prot_Interface = i, OpenList = [], OpenListCount = 0\<rparr>"
    unfolding d(2) by auto
  from CoreHandleProtocol_first [OF f' assms(5,2) H _ P _ _ assms(6,7)] d(3) show ?thesis by simp
qed

section \<open>Uninstalling\<close>

text \<open>An interface nobody has opened, the only one of its handle.\<close>

lemma install_new_handle:
  assumes "install_handle NULL s = Some (EFI_SUCCESS, h, s')"
  obtains l where "handles s h = None" "gOrderedHandleList s = Some l" "h \<notin> set l" "h \<noteq> NULL"
    "gOrderedHandleList s' = Some (ordered_insert h l)" "gHandleList s' = gHandleList s @ [h]"
    "handles s' = (handles s)(h \<mapsto> \<lparr>Protocols = [], LocateRequest = 0, Key = 0\<rparr>)"
    "prots s' = prots s" "notifies s' = notifies s" "mProtocolDatabase s' = mProtocolDatabase s"
  using assms that
  by (auto simp: install_handle_def OrderedCollectionInsert_def hand_alloc_def Let_def bind_eq_Some_conv
      split: if_splits list.splits prod.splits)

lemma remove_ordered_insert: "h \<notin> set l \<Longrightarrow> remove1 h (ordered_insert h l) = l"
  by (induction l) (auto simp: PointerCompare_def)

lemma back_up_idle:
  "\<forall>n\<in>set ns. \<exists>N. notifies s n = Some N \<and> Notify_Position N \<noteq> Some p \<Longrightarrow> back_up p b ns s = Some s"
  by (induction ns) auto

lemma uninstall_only:
  assumes "hand_free t s" "t \<le> TPL_NOTIFY_LOCK" "quiet sv" "handles s h = Some H" "Protocols H = [p]"
    "prots s p = Some \<lparr>Prot_Handle = h, Prot_Protocol = g, Prot_Interface = i, OpenList = [], OpenListCount = 0\<rparr>"
    "\<forall>n N. notifies s n = Some N \<longrightarrow> Notify_Position N \<noteq> Some p" "gOrderedHandleList s = Some l"
  shows "\<exists>s'. CoreUninstallProtocolInterface sv h (Some g) i s = Some (EFI_SUCCESS, s')
    \<and> handles s' = (handles s)(h := None) \<and> prots s' = (prots s)(p := None) \<and> notifies s' = notifies s
    \<and> gHandleList s' = remove1 h (gHandleList s) \<and> gOrderedHandleList s' = Some (remove1 h l)
    \<and> mProtocolDatabase s' = mProtocolDatabase (upd_entry g (\<lambda>e. e\<lparr>Entry_Protocols := remove1 p (Entry_Protocols e)\<rparr>) s)"
proof -
  let ?P = "\<lparr>Prot_Handle = h, Prot_Protocol = g, Prot_Interface = i, OpenList = [], OpenListCount = 0\<rparr>" and ?s = "hand_locked s"
  have w: "hand_wf s" using assms(1) by (simp add: hand_free_def)
  from wf_protsD(2) [OF w assms(6)] obtain e where e: "find_entry g s = Some e"
    by (cases "find_entry g s") (auto simp: find_entry_None)
  have f: "CoreFindProtocolInterface h g i ?s = Some (Some p)"
    using assms(4-6) e by (simp add: CoreFindProtocolInterface_def CoreFindProtocolEntry_def)
  have "disconnect_loop sv h p EFI_SUCCESS ?s = Some (EFI_SUCCESS, ?s)"
    by (subst disconnect_loop.simps) (simp add: first_driver_def assms(6))
  moreover have "?s\<lparr>prots := (prots s)(p \<mapsto> ?P)\<rparr> = ?s" using assms(6) by (simp add: fun_upd_idem hand_locked_def)
  ultimately have dc: "CoreDisconnectControllersUsingProtocolInterface sv h p ?s = Some (EFI_SUCCESS, ?s)"
    using assms(6) by (simp add: CoreDisconnectControllersUsingProtocolInterface_def upd_prot_def)
  have "\<forall>n\<in>set (Entry_Notify e). \<exists>N. notifies ?s n = Some N \<and> Notify_Position N \<noteq> Some p"
    using wf_entriesD(4) [OF w find_entry_Some(1) [OF e]] assms(7) by fastforce
  then have r: "CoreRemoveInterfaceFromProtocol h g i ?s =
      Some (Some p, upd_entry g (\<lambda>e. e\<lparr>Entry_Protocols := remove1 p (Entry_Protocols e)\<rparr>) ?s)"
    using e by (simp add: CoreRemoveInterfaceFromProtocol_def f back_up_idle)
  have "h \<in> set l" using w assms(4,8) by (auto simp: hand_wf_def wf_lists_def)
  then show ?thesis
    using assms(4,5,8)
    by (auto simp: CoreUninstallProtocolInterface_def acquire_free [OF assms(1,2)] validate_live [OF locked_held [OF assms(1,2)]]
        f dc r drop_prot_def free_handle_def release_free [OF assms(3)] Let_def upd_entry_def)
qed

lemma install_uninstall:
  assumes "CoreInstallProtocolInterface sv (Some NULL) (Some g) True i s = Some (EFI_SUCCESS, r, s1)" "quiet sv"
    "hand_contract sv" "hand_free t s" "t \<le> TPL_NOTIFY_LOCK"
  shows "\<exists>h s2. r = Some h \<and> CoreUninstallProtocolInterface sv h (Some g) i s1 = Some (EFI_SUCCESS, s2)
    \<and> handles s2 = handles s \<and> prots s2 = prots s \<and> notifies s2 = notifies s
    \<and> gHandleList s2 = gHandleList s \<and> gOrderedHandleList s2 = gOrderedHandleList s
    \<and> (mProtocolDatabase s2 = mProtocolDatabase s
       \<or> find_entry g s = None \<and> mProtocolDatabase s2 = mProtocolDatabase s @ [\<lparr>ProtocolID = g, Entry_Protocols = [], Entry_Notify = []\<rparr>])"
proof (rule install_steps [where t = t, OF assms(1,2)], goal_cases)
  case (1 s0 sa e sb p sc h sd se)
  have f1: "hand_free t s1" by (rule hand_contract.CoreInstallProtocolInterface_keeps [OF assms(3,1,4)])
  have w: "hand_wf s" using assms(4) by (simp add: hand_free_def)
  have sa: "sa = hand_locked s" using 1(1,3) acquire_free [OF assms(4,5)] by simp
  note b = CoreFindProtocolEntry_effect [OF 1(4), unfolded sa, simplified]
  have c: "handles sc = handles sb" "prots sc = prots sb" "notifies sc = notifies sb" "gHandleList sc = gHandleList sb"
    "gOrderedHandleList sc = gOrderedHandleList sb" "mProtocolDatabase sc = mProtocolDatabase sb"
    by (subst hand_alloc_cases(1) [OF 1(5)], simp)+
  have p: "prots s p = None" using hand_alloc_cases(2) [OF 1(5,6)] b by simp
  from install_new_handle [OF 1(7)] obtain l where n: "handles s h = None" "gOrderedHandleList s = Some l" "h \<notin> set l"
    "gOrderedHandleList sd = Some (ordered_insert h l)" "gHandleList sd = gHandleList s @ [h]"
    "handles sd = (handles s)(h \<mapsto> \<lparr>Protocols = [], LocateRequest = 0, Key = 0\<rparr>)"
    "prots sd = prots s" "notifies sd = notifies s" "mProtocolDatabase sd = mProtocolDatabase sb"
    unfolding c b by metis
  from install_prot_effect [OF 1(8)] obtain k where
    e: "handles s1 = (handles s)(h \<mapsto> \<lparr>Protocols = [p], LocateRequest = 0, Key = k\<rparr>)"
      "prots s1 = (prots s)(p \<mapsto> \<lparr>Prot_Handle = h, Prot_Protocol = g, Prot_Interface = i, OpenList = [], OpenListCount = 0\<rparr>)"
      "mProtocolDatabase s1 = mProtocolDatabase (upd_entry g (\<lambda>e. e\<lparr>Entry_Protocols := Entry_Protocols e @ [p]\<rparr>) sb)"
      "gHandleList s1 = gHandleList s @ [h]" "gOrderedHandleList s1 = Some (ordered_insert h l)" "notifies s1 = notifies s"
    unfolding 1(9) n by (auto simp: n upd_entry_def)
  have np: "Notify_Position N \<noteq> Some p" if "notifies s1 n = Some N" for n N
    using wf_notifiesD(2) [OF w, of n N p] that p e(6) by auto
  have hl: "h \<notin> set (gHandleList s)" using w n(1) by (auto simp: hand_wf_def wf_lists_def)
  obtain s2 where u: "CoreUninstallProtocolInterface sv h (Some g) i s1 = Some (EFI_SUCCESS, s2)"
    "handles s2 = (handles s1)(h := None)" "prots s2 = (prots s1)(p := None)" "notifies s2 = notifies s1"
    "gHandleList s2 = remove1 h (gHandleList s1)" "gOrderedHandleList s2 = Some (remove1 h (ordered_insert h l))"
    "mProtocolDatabase s2 = mProtocolDatabase (upd_entry g (\<lambda>e. e\<lparr>Entry_Protocols := remove1 p (Entry_Protocols e)\<rparr>) s1)"
    using uninstall_only [OF f1 assms(5,2), where h = h and g = g and i = i and p = p and l = "ordered_insert h l"]
      e(1,2,5) np by auto
  have "p \<notin> set (Entry_Protocols x)" if "x \<in> set (mProtocolDatabase sb)" for x
    using b(7) that wf_entriesD(3) [OF w, of x p] p by auto
  then have "mProtocolDatabase s2 = mProtocolDatabase sb"
    unfolding u(7) by (auto simp: upd_entry_def e(3) map_idI remove1_append)
  with b(7) u(1-6) e n(2,3) p n(1) hl show ?thesis
    unfolding 1(10) by (auto simp: remove1_append remove_ordered_insert fun_upd_idem)
qed

section \<open>Opening for a driver\<close>

text \<open>The scan of the open list for a driver leaves it alone, and tells whether the same driver, another
  driver or an exclusive agent has the interface open.\<close>

definition opened_as :: "EFI_HANDLE \<Rightarrow> EFI_HANDLE \<Rightarrow> UINT32 \<Rightarrow> OPEN_PROTOCOL_DATA \<Rightarrow> bool" where
  "opened_as Agent Controller Attr d \<longleftrightarrow> AgentHandle d = Agent \<and> Attributes d = Attr \<and> ControllerHandle d = Controller"

lemma opened_as_driver: "opened_as a c EFI_OPEN_PROTOCOL_BY_DRIVER d \<Longrightarrow> by_driver d"
  by (simp add: opened_as_def by_driver_def EFI_OPEN_PROTOCOL_BY_DRIVER_def)

lemma open_scan_by_driver:
  "\<exists>b' x'. open_scan a c EFI_OPEN_PROTOCOL_BY_DRIVER ds b x =
     (if list_ex (opened_as a c EFI_OPEN_PROTOCOL_BY_DRIVER) ds then (Some EFI_ALREADY_STARTED, b', x', ds)
      else (None, b \<or> list_ex by_driver ds, x \<or> list_ex exclusive ds, ds))"
proof (induction ds arbitrary: b x)
  case (Cons d ds)
  have d: "(AgentHandle d = a \<and> Attributes d = EFI_OPEN_PROTOCOL_BY_DRIVER \<and> ControllerHandle d = c) =
      opened_as a c EFI_OPEN_PROTOCOL_BY_DRIVER d" by (simp add: opened_as_def)
  show ?case
  proof (cases "opened_as a c EFI_OPEN_PROTOCOL_BY_DRIVER d")
    case True
    then have "by_driver d" by (rule opened_as_driver)
    with True show ?thesis by (auto simp: d)
  next
    case False
    from Cons.IH [of "b \<or> by_driver d" "x \<or> exclusive d"] obtain b' x' where
      "open_scan a c EFI_OPEN_PROTOCOL_BY_DRIVER ds (b \<or> by_driver d) (x \<or> exclusive d) =
        (if list_ex (opened_as a c EFI_OPEN_PROTOCOL_BY_DRIVER) ds then (Some EFI_ALREADY_STARTED, b', x', ds)
         else (None, (b \<or> by_driver d) \<or> list_ex by_driver ds, (x \<or> exclusive d) \<or> list_ex exclusive ds, ds))" by blast
    with False show ?thesis by (auto simp: d Let_def)
  qed
qed simp

definition hand_live :: "EFI_HANDLE \<Rightarrow> hand_db \<Rightarrow> bool" where
  "hand_live h s \<longleftrightarrow> handles s h \<noteq> None"

lemma by_driver_neq [simp]:
  "EFI_OPEN_PROTOCOL_BY_DRIVER \<noteq> EFI_OPEN_PROTOCOL_TEST_PROTOCOL"
  "EFI_OPEN_PROTOCOL_BY_DRIVER \<noteq> EFI_OPEN_PROTOCOL_BY_CHILD_CONTROLLER"
  by (simp_all add: EFI_OPEN_PROTOCOL_TEST_PROTOCOL_def EFI_OPEN_PROTOCOL_BY_CHILD_CONTROLLER_def
      EFI_OPEN_PROTOCOL_BY_DRIVER_def)

lemma CoreOpenProtocol_for_driver:
  assumes "hand_free t s" "t \<le> TPL_NOTIFY_LOCK" "quiet sv" "hand_live h s" "hand_live a s" "hand_live c s"
    "CoreGetProtocolInterface h g s = Some (Some p)" "prots s p = Some P" "pool s = m # ms" "m \<noteq> NULL"
  shows "\<exists>s'. CoreOpenProtocol sv h (Some g) True a c EFI_OPEN_PROTOCOL_BY_DRIVER s =
      (if list_ex (opened_as a c EFI_OPEN_PROTOCOL_BY_DRIVER) (OpenList P)
         then Some (EFI_ALREADY_STARTED, Some (Prot_Interface P), s')
       else if list_ex by_driver (OpenList P) \<or> list_ex exclusive (OpenList P)
         then Some (EFI_ACCESS_DENIED, None, s')
       else Some (EFI_SUCCESS, Some (Prot_Interface P), s'))
    \<and> prots s' = (if list_ex by_driver (OpenList P) \<or> list_ex exclusive (OpenList P) then prots s
        else (prots s)(p \<mapsto> P\<lparr>
          OpenList := OpenList P @ [\<lparr>AgentHandle = a, ControllerHandle = c, Attributes = EFI_OPEN_PROTOCOL_BY_DRIVER,
            OpenCount = 1\<rparr>], OpenListCount := OpenListCount P + 1\<rparr>))"
proof -
  let ?D = EFI_OPEN_PROTOCOL_BY_DRIVER and ?s = "hand_locked s"
  note h = locked_held [OF assms(1,2)]
  have v: "CoreValidateHandle x ?s = Some EFI_SUCCESS" if "hand_live x s" for x
    using validate_live [OF h, of x] that by (simp add: hand_live_def)
  have k: "open_check h a c ?D ?s = Some EFI_SUCCESS" by (simp add: open_check_def v assms(5,6))
  have g: "CoreGetProtocolInterface h g ?s = Some (Some p)"
  proof -
    have "find_prot Q ps ?s = find_prot Q ps s" for Q ps by (induction ps) (simp_all cong: Option.bind_cong if_cong)
    then show ?thesis using assms(7) by (simp add: CoreGetProtocolInterface_def)
  qed
  have a0: "a \<noteq> NULL" using assms(1,5) by (auto simp: hand_live_def hand_free_def hand_wf_def wf_lists_def)
  have ds: "list_ex (opened_as a c ?D) (OpenList P) \<Longrightarrow> list_ex by_driver (OpenList P)"
    using opened_as_driver by (auto simp: list_ex_iff)
  have "P\<lparr>OpenList := OpenList P\<rparr> = P" by simp
  with assms(8) have id: "(prots s)(p \<mapsto> P\<lparr>OpenList := OpenList P\<rparr>) = prots s" by (simp add: fun_upd_idem)
  from open_scan_by_driver [of a c "OpenList P" False False] obtain b' x' where sc:
    "open_scan a c ?D (OpenList P) False False =
     (if list_ex (opened_as a c ?D) (OpenList P) then (Some EFI_ALREADY_STARTED, b', x', OpenList P)
      else (None, False \<or> list_ex by_driver (OpenList P), False \<or> list_ex exclusive (OpenList P), OpenList P))" by blast
  have op: "\<exists>s2. open_prot sv h p a c ?D ?s =
      Some (if list_ex (opened_as a c ?D) (OpenList P) then EFI_ALREADY_STARTED
         else if list_ex by_driver (OpenList P) \<or> list_ex exclusive (OpenList P) then EFI_ACCESS_DENIED else EFI_SUCCESS, s2)
      \<and> locked s2 \<and> prots s2 = (if list_ex by_driver (OpenList P) \<or> list_ex exclusive (OpenList P) then prots s
        else (prots s)(p \<mapsto> P\<lparr>
          OpenList := OpenList P @ [\<lparr>AgentHandle = a, ControllerHandle = c, Attributes = ?D, OpenCount = 1\<rparr>],
          OpenListCount := OpenListCount P + 1\<rparr>))"
    using ds a0 assms(8-10) id by (auto simp: open_prot_def sc Let_def hand_alloc_def upd_prot_def)
  then obtain s2 where o2: "open_prot sv h p a c ?D ?s =
      Some (if list_ex (opened_as a c ?D) (OpenList P) then EFI_ALREADY_STARTED
         else if list_ex by_driver (OpenList P) \<or> list_ex exclusive (OpenList P) then EFI_ACCESS_DENIED else EFI_SUCCESS, s2)"
    "locked s2" "prots s2 = (if list_ex by_driver (OpenList P) \<or> list_ex exclusive (OpenList P) then prots s
        else (prots s)(p \<mapsto> P\<lparr>
          OpenList := OpenList P @ [\<lparr>AgentHandle = a, ControllerHandle = c, Attributes = ?D, OpenCount = 1\<rparr>],
          OpenListCount := OpenListCount P + 1\<rparr>))" by blast
  show ?thesis
    using o2 ds assms(8)
    by (auto simp: CoreOpenProtocol_def acquire_free [OF assms(1,2)] v [OF assms(4)] k g release_free [OF assms(3)])
qed

end
