(* ===== verification/Driver_Results.thy ===== *)
theory Driver_Results
  imports Driver_Connect "HOL-Library.Multiset"
begin

text \<open>
  Results on the driver model alone: the selection sort of the driver bindings by their version, and
  that the loop that starts drivers ends.
\<close>

section \<open>Sorting the bindings\<close>

definition bound :: "driver_programs \<Rightarrow> UINTN \<Rightarrow> bool" where
  "bound pr i \<longleftrightarrow> binding pr i \<noteq> None"

definition version_of :: "driver_programs \<Rightarrow> UINTN \<Rightarrow> UINT32" where
  "version_of pr i = (case binding pr i of None \<Rightarrow> 0 | Some b \<Rightarrow> Version b)"

lemma version_at_bound: "\<forall>x\<in>set xs. bound pr x \<Longrightarrow> k < length xs \<Longrightarrow> version_at pr xs k = Some (version_of pr (xs ! k))"
  by (auto simp: version_at_def version_of_def bound_def split: option.splits)

lemma highest_spec:
  assumes "\<forall>x\<in>set xs. bound pr x" "\<forall>k\<in>set ks. k < length xs" "i < length xs"
  shows "\<exists>j. highest pr xs ks (version_of pr (xs ! i)) i = Some j \<and> (j = i \<or> j \<in> set ks)
    \<and> (\<forall>k\<in>insert i (set ks). version_of pr (xs ! k) \<le> version_of pr (xs ! j))"
  using assms(2,3)
proof (induction ks arbitrary: i)
  case (Cons k ks)
  show ?case
  proof (cases "version_of pr (xs ! i) < version_of pr (xs ! k)")
    case True
    with Cons.IH [of k] Cons.prems assms(1) show ?thesis by (fastforce simp: version_at_bound)
  next
    case False
    with Cons.IH [of i] Cons.prems assms(1) show ?thesis by (fastforce simp: version_at_bound)
  qed
qed simp

lemma sort_bindings_from:
  assumes "\<forall>x\<in>set xs. bound pr x" "a \<le> length xs"
  shows "\<exists>ys. sort_bindings pr [a..<length xs] (length xs) xs = Some ys \<and> length ys = length xs \<and> take a ys = take a xs
    \<and> mset (drop a ys) = mset (drop a xs) \<and> sorted_wrt (\<lambda>x y. version_of pr y \<le> version_of pr x) (drop a ys)"
  using assms
proof (induction "length xs - a" arbitrary: a xs)
  case 0
  then show ?case by simp
next
  case (Suc d)
  then have a: "a < length xs" by simp
  let ?n = "length xs"
  obtain m where m: "highest pr xs [Suc a..<?n] (version_of pr (xs ! a)) a = Some m" "m = a \<or> m \<in> set [Suc a..<?n]"
    "\<forall>k\<in>insert a (set [Suc a..<?n]). version_of pr (xs ! k) \<le> version_of pr (xs ! m)"
    using highest_spec [OF Suc.prems(1), of "[Suc a..<?n]" a] a by auto
  let ?xs = "xs[a := xs ! m, m := xs ! a]"
  have mn: "m < ?n" "a \<le> m" using m(2) a by auto
  have dr: "drop a ?xs = (drop a xs)[0 := drop a xs ! (m - a), m - a := drop a xs ! 0]"
    using mn a by (simp add: drop_update_swap)
  have ms: "mset (drop a ?xs) = mset (drop a xs)"
    unfolding dr using mn a by (intro mset_swap) auto
  have "mset ?xs = mset xs" using a mn by (intro mset_swap) auto
  then have st: "set ?xs = set xs" by (metis set_mset_mset)
  have d: "d = ?n - Suc a" using Suc.hyps(2) by simp
  obtain ys where ys: "sort_bindings pr [Suc a..<?n] ?n ?xs = Some ys" "length ys = ?n" "take (Suc a) ys = take (Suc a) ?xs"
    "mset (drop (Suc a) ys) = mset (drop (Suc a) ?xs)" "sorted_wrt (\<lambda>x y. version_of pr y \<le> version_of pr x) (drop (Suc a) ys)"
    using Suc.hyps(1) [of ?xs "Suc a"] d Suc.prems a st by auto
  have ya: "ys ! a = ?xs ! a" using ys(3) a by (metis lessI nth_take)
  have xa: "?xs ! a = xs ! m" using a mn by (auto simp: nth_list_update)
  have dy: "drop a ys = ys ! a # drop (Suc a) ys" using ys(2) a by (simp add: Cons_nth_drop_Suc)
  have dx: "drop a ?xs = ?xs ! a # drop (Suc a) ?xs" using a by (simp add: Cons_nth_drop_Suc)
  have le: "version_of pr y \<le> version_of pr (xs ! m)" if "y \<in> set (drop (Suc a) ys)" for y
  proof -
    have "y \<in># mset (drop a xs)" using that ys(4) ms [symmetric] dx by (metis in_multiset_in_set list.set_intros(2) set_mset_mset)
    then obtain k where "k < ?n - a" "y = xs ! (a + k)" by (auto simp: in_set_conv_nth)
    with m(3) show ?thesis by (cases k) auto
  qed
  have "sort_bindings pr [a..<?n] ?n xs = Some ys"
    using a m(1) ys(1) by (simp add: upt_conv_Cons version_at_bound [OF Suc.prems(1)])
  moreover have "take a ys = take a xs"
    using arg_cong [OF ys(3), of "take a"] mn by (simp add: take_update_cancel min_def)
  moreover have "mset (drop a ys) = mset (drop a xs)" unfolding dy ms [symmetric] dx ya using ys(4) by simp
  moreover have "sorted_wrt (\<lambda>x y. version_of pr y \<le> version_of pr x) (drop a ys)"
    unfolding dy ya xa using ys(5) le by simp
  ultimately show ?case using ys(2) by blast
qed

section \<open>Starting the drivers\<close>

definition waiting :: "nat \<Rightarrow> UINTN list \<Rightarrow> nat" where
  "waiting n xs = length (filter (\<lambda>x. x \<noteq> NULL) (take n xs))"

lemma start_pass_returns:
  assumes "\<And>i s. run_program sv (supported pr i c path s) s \<noteq> None" "\<And>i s. run_program sv (start pr i c path s) s \<noteq> None"
    "\<forall>k\<in>set ks. k < n" "n \<le> length xs"
  shows "\<exists>f b xs' s'. start_pass sv pr c path ks xs s = Some (f, b, xs', s')
    \<and> (if f then length xs' = length xs \<and> waiting n xs' < waiting n xs else xs' = xs)"
  using assms(3)
proof (induction ks arbitrary: s)
  case (Cons k ks)
  have k: "k < n" "k < length xs" using Cons.prems assms(4) by auto

  show ?case
  proof (cases "xs ! k = NULL")
    case True
    then show ?thesis using Cons.IH Cons.prems k by simp
  next
    case False
    obtain st1 s1 where s1: "run_program sv (supported pr (xs ! k) c path s) s = Some (st1, s1)" using assms(1) by fast
    obtain st2 s2 where s2: "run_program sv (start pr (xs ! k) c path s1) s1 = Some (st2, s2)" using assms(2) by fast
    show ?thesis
    proof (cases "EFI_ERROR st1")
      case True
      then show ?thesis using Cons.IH Cons.prems k False s1 by simp
    next
      case nerr: False
      have "take n xs = take k xs @ xs ! k # drop (Suc k) (take n xs)"
        using k id_take_nth_drop [of k "take n xs"] by (simp add: min_def)
      moreover have "take n (xs[k := NULL]) = take k xs @ NULL # drop (Suc k) (take n xs)"
        using k upd_conv_take_nth_drop [of k "take n xs" NULL] by (simp add: take_update_swap min_def)
      ultimately obtain us vs where "take n xs = us @ xs ! k # vs" "take n (xs[k := NULL]) = us @ NULL # vs" by blast
      then have "waiting n (xs[k := NULL]) < waiting n xs" using False by (simp add: waiting_def)
      then show ?thesis using k False s1 s2 nerr by auto
    qed
  qed
qed auto

lemma start_loop_returns:
  assumes "\<And>i s. run_program sv (supported pr i c path s) s \<noteq> None" "\<And>i s. run_program sv (start pr i c path s) s \<noteq> None"
    "n \<le> length xs"
  shows "start_loop sv pr c path n one xs s \<noteq> None"
  using assms(3)
proof (induction "waiting n xs" arbitrary: one xs s rule: less_induct)
  case less
  obtain f b xs' s' where p: "start_pass sv pr c path [0..<n] xs s = Some (f, b, xs', s')"
    "if f then length xs' = length xs \<and> waiting n xs' < waiting n xs else xs' = xs"
    using start_pass_returns [OF assms(1,2) _ less.prems, of "[0..<n]" s] by auto
  then show ?case using less.hyps [of xs' "one \<or> b" s'] less.prems by (subst start_loop.simps) auto
qed

end
