(* ===== verification/Hand_Properties.thy ===== *)
theory Hand_Properties
  imports Hand_Results Driver_Results
begin

text \<open>
  The properties of the handle database and of the driver model.
\<close>

section \<open>The database at start-up\<close>

text \<open>The globals before \<open>CoreInitializeHandleServices\<close>, at task priority \<open>t\<close>, with the events \<open>evs\<close>.\<close>

definition hand_boot :: "nat \<Rightarrow> EFI_HANDLE \<Rightarrow> (UINTN \<Rightarrow> UINT32 option) \<Rightarrow> UINTN list \<Rightarrow> hand_db" where
  "hand_boot t core evs addrs =
     \<lparr>mProtocolDatabase = [], gHandleList = [], gOrderedHandleList = None, gHandleDatabaseKey = 0,
      mEfiLocateHandleRequest = 0, gDxeCoreImageHandle = core, handles = (\<lambda>_. None), prots = (\<lambda>_. None),
      notifies = (\<lambda>_. None), events = evs, signalled = [], pool = addrs, locked = False,
      CurrentTpl = t, OwnerTpl = 0\<rparr>"

lemma hand_boot_free:
  assumes "CoreInitializeHandleServices (hand_boot t core evs addrs) = (EFI_SUCCESS, s)"
  shows "hand_free t s"
  using assms
  by (auto simp: CoreInitializeHandleServices_def hand_boot_def hand_alloc_def hand_free_def hand_wf_defs
      split: if_splits list.splits)

text \<open>The loops, for evaluation.\<close>

declare disconnect_loop.simps [code] open_disconnect.simps [code] next_by_protocol.simps [code] locate_loop.simps [code]
  start_loop.simps [code]

text \<open>A system without drivers, and the database after some calls; both serve as examples.\<close>

definition no_drivers :: driver_programs where
  "no_drivers =
     \<lparr>notification = (\<lambda>_. []), binding = (\<lambda>_. None), supported = (\<lambda>_ _ _ _. ([], EFI_UNSUPPORTED)),
      start = (\<lambda>_ _ _ _. ([], EFI_UNSUPPORTED)), stop = (\<lambda>_ _ _ _. ([], EFI_UNSUPPORTED)),
      platform_driver = (\<lambda>_ _ _ _. ([], EFI_NOT_FOUND, NULL)), bus_driver = (\<lambda>_ _ _. ([], EFI_NOT_FOUND, NULL)),
      family_version = (\<lambda>_. 0), security = None, memory = (\<lambda>_. []), node_count = 0\<rparr>"

definition quiet_system :: hand_services where
  "quiet_system = hand_system no_drivers 1"

lemma quiet_system: "quiet quiet_system" "hand_contract quiet_system"
proof -
  show "quiet quiet_system" by (simp add: quiet_system_def quiet_def no_drivers_def)
  show "hand_contract quiet_system" unfolding quiet_system_def by (rule hand_system_contract)
qed

definition hand_after :: "EFI_HANDLE \<Rightarrow> UINTN list \<Rightarrow> hand_call list \<Rightarrow> hand_db" where
  "hand_after core addrs cs =
     the (run_calls quiet_system cs (snd (CoreInitializeHandleServices (hand_boot 4 core [50 \<mapsto> 0] addrs))))"

lemma hand_after_free:
  assumes "fst (CoreInitializeHandleServices (hand_boot 4 core [50 \<mapsto> 0] addrs)) = EFI_SUCCESS"
    "\<not> Option.is_none (run_calls quiet_system cs (snd (CoreInitializeHandleServices (hand_boot 4 core [50 \<mapsto> 0] addrs))))"
  shows "hand_free 4 (hand_after core addrs cs)"
proof -
  obtain s where s: "CoreInitializeHandleServices (hand_boot 4 core [50 \<mapsto> 0] addrs) = (EFI_SUCCESS, s)"
    using assms(1) by (cases "CoreInitializeHandleServices (hand_boot 4 core [50 \<mapsto> 0] addrs)") simp
  with assms(2) obtain s' where s': "run_calls quiet_system cs s = Some s'"
    by (auto simp: Option.is_none_def)
  show ?thesis
    using hand_contract.run_calls_keeps [OF quiet_system(2) s' hand_boot_free [OF s]] by (simp add: hand_after_def s s')
qed

definition guid_A :: EFI_GUID where "guid_A = replicate 16 0xAA"
definition guid_B :: EFI_GUID where "guid_B = replicate 16 0xBB"

section \<open>The invariant\<close>



section \<open>Searching\<close>

text \<open>(C29) The search for the handles of a protocol, which walks the interfaces of the protocol and marks the
  handles it has seen with the number of the request, returns each handle a scan of the whole handle
  list finds, once; it reports that there are none, or that the buffer cannot be allocated.\<close>

theorem CoreLocateHandleBuffer_scans:
  assumes "hand_free t s" "t \<le> TPL_NOTIFY_LOCK" "quiet sv" "search_ready s" "pool s = a # as"
  shows "\<exists>hs s'. mset hs = mset (filter (supports g s) (gHandleList s))
    \<and> CoreLocateHandleBuffer sv ByProtocol (Some g) NULL True s =
      Some (if hs = [] then (EFI_NOT_FOUND, 0, None, s')
            else if a = NULL then (EFI_OUT_OF_RESOURCES, 0, None, s')
            else (EFI_SUCCESS, of_nat (length hs), Some hs, s'))"
proof -
  have m: "mset (found_handles g s) = mset (filter (supports g s) (gHandleList s))"
    using assms(1) by (intro mset_found_handles) (simp add: hand_free_def)
  from assms(3) have "\<forall>s. Yield sv s = Some s" by (simp add: quiet_def)
  from CoreLocateHandleBuffer_by_protocol [OF assms(1,2) this assms(4,5), of g NULL] show ?thesis
    by (elim exE) (intro exI conjI, rule m, assumption)
qed

text \<open>Two handles with protocol A, one of them with protocol B as well.\<close>

definition two_handles :: hand_db where
  "two_handles = hand_after NULL [1, 2, 3, 4, 5, 6, 7, 8, 9, 10, 11, 12]
     [InstallProtocol NULL guid_A 7, InstallProtocol NULL guid_A 8, InstallProtocol 4 guid_B 9]"

lemma two_handles_free: "hand_free 4 two_handles"
  unfolding two_handles_def by (rule hand_after_free) code_simp+

lemma two_handles_parts:
  "gHandleList two_handles = [4, 7]" "pool two_handles = [11, 12]" "mEfiLocateHandleRequest two_handles = 0"
  "map (map_option LocateRequest \<circ> handles two_handles) [4, 7] = [Some 0, Some 0]"
  "map (length \<circ> Entry_Protocols) (mProtocolDatabase two_handles) = [2, 1]"
  "filter (supports guid_A two_handles) [4, 7] = [4, 7]"
  by code_simp+

lemma two_handles_ready: "search_ready two_handles"
proof -
  have d: "dom (handles two_handles) = {4, 7}"
    using two_handles_free two_handles_parts(1) by (auto simp: hand_free_def hand_wf_def wf_lists_def)
  have "LocateRequest H = 0" if "handles two_handles h = Some H" for h H
  proof -
    from that d have "h = 4 \<or> h = 7" by blast
    with that two_handles_parts(4) show ?thesis by auto
  qed
  moreover have "length (Entry_Protocols e) < 2 ^ 61" if "e \<in> set (mProtocolDatabase two_handles)" for e
  proof -
    from that have "length (Entry_Protocols e) \<in> set (map (length \<circ> Entry_Protocols) (mProtocolDatabase two_handles))" by auto
    then show ?thesis unfolding two_handles_parts(5) by auto
  qed
  ultimately show ?thesis unfolding search_ready_def two_handles_parts(3) by auto
qed

theorem CoreLocateHandleBuffer_scans_witness:
  "\<exists>hs s'. mset hs = {#4, 7#}
    \<and> CoreLocateHandleBuffer quiet_system ByProtocol (Some guid_A) NULL True two_handles = Some (EFI_SUCCESS, 2, Some hs, s')"
proof -
  obtain hs s' where h: "mset hs = {#4, 7#}"
    "CoreLocateHandleBuffer quiet_system ByProtocol (Some guid_A) NULL True two_handles =
      Some (if hs = [] then (EFI_NOT_FOUND, 0, None, s') else if (11 :: UINTN) = NULL then (EFI_OUT_OF_RESOURCES, 0, None, s')
            else (EFI_SUCCESS, of_nat (length hs), Some hs, s'))"
    using CoreLocateHandleBuffer_scans [OF two_handles_free _ quiet_system(1) two_handles_ready two_handles_parts(2), of guid_A]
      two_handles_parts by (auto simp: TPL_NOTIFY_LOCK_def)
  from h(1) have "size (mset hs) = 2" by simp
  then have "length hs = 2" by simp
  with h show ?thesis by (intro exI [of _ hs] exI [of _ s']) auto
qed

text \<open>(C30) A driver that asks for a protocol with its registration until nothing is found is given every
  interface the registration has not delivered yet, each once, in the order of their installation.\<close>

theorem registration_delivers:
  assumes "hand_free t s" "t \<le> TPL_NOTIFY_LOCK" "quiet sv" "notifies s n \<noteq> None" "n \<noteq> NULL" "length (pending n s) < k"
  shows "\<exists>s'. locate_repeatedly sv g n k s =
    Some (EFI_NOT_FOUND, map (\<lambda>p. Prot_Interface (the (prots s p))) (pending n s), s')"
  by (rule locate_repeatedly_pending [OF assms])

text \<open>Three interfaces of protocol A, the first of them delivered.\<close>

definition registered :: hand_db where
  "registered = hand_after NULL [1, 2, 3, 4, 5, 6, 7, 8, 9, 10, 11, 12]
     [RegisterProtocolNotify guid_A 50, InstallProtocol NULL guid_A 7, LocateProtocol guid_A 3,
      InstallProtocol NULL guid_A 8, InstallProtocol NULL guid_A 9]"

theorem registration_delivers_witness:
  "\<exists>s'. locate_repeatedly quiet_system guid_A 3 3 registered = Some (EFI_NOT_FOUND, [8, 9], s')"
proof -
  have f: "hand_free 4 registered" unfolding registered_def by (rule hand_after_free) code_simp+
  have n: "\<not> Option.is_none (notifies registered 3)" by code_simp
  have p: "pending 3 registered = [7, 10]" by code_simp
  have i: "map (\<lambda>p. Prot_Interface (the (prots registered p))) [7, 10] = [8, 9]" by code_simp
  from registration_delivers [OF f _ quiet_system(1), of 3 3 guid_A] n i show ?thesis
    by (simp add: p TPL_NOTIFY_LOCK_def Option.is_none_def)
qed

section \<open>Installing and uninstalling\<close>

text \<open>(C31) An interface that has been installed is what the handle is asked for next.\<close>

theorem installed_interface_found:
  assumes "CoreInstallProtocolInterface sv (Some u) (Some g) True i s = Some (EFI_SUCCESS, r, s')" "quiet sv"
    "hand_contract sv" "hand_free t s" "t \<le> TPL_NOTIFY_LOCK" "pool s' = a # as" "a \<noteq> NULL"
  shows "\<exists>h s2. r = Some h \<and> CoreHandleProtocol sv h (Some g) True s' = Some (EFI_SUCCESS, Some i, s2)"
  by (rule install_lookup [OF assms])

theorem installed_interface_found_witness:
  "\<exists>s' s2. CoreInstallProtocolInterface quiet_system (Some 7) (Some guid_B) True 21 two_handles = Some (EFI_SUCCESS, Some 7, s')
    \<and> CoreHandleProtocol quiet_system 7 (Some guid_B) True s' = Some (EFI_SUCCESS, Some 21, s2)"
proof -
  have "map_option (\<lambda>(st, r, s). (st, r, pool s))
      (CoreInstallProtocolInterface quiet_system (Some 7) (Some guid_B) True 21 two_handles) = Some (EFI_SUCCESS, Some 7, [12])"
    by code_simp
  then obtain s' where i: "CoreInstallProtocolInterface quiet_system (Some 7) (Some guid_B) True 21 two_handles = Some (EFI_SUCCESS, Some 7, s')"
    and p: "pool s' = [12]" by auto
  from installed_interface_found [OF i quiet_system two_handles_free _ p] i show ?thesis
    by (auto simp: TPL_NOTIFY_LOCK_def)
qed

text \<open>(C32) Uninstalling the interface of a handle that was made for it takes the handle and the interface
  away again: the database is what it was before the installation, with at most an entry without
  interfaces for a protocol that was not known.\<close>

theorem uninstalled_as_before:
  assumes "CoreInstallProtocolInterface sv (Some NULL) (Some g) True i s = Some (EFI_SUCCESS, r, s1)" "quiet sv"
    "hand_contract sv" "hand_free t s" "t \<le> TPL_NOTIFY_LOCK"
  shows "\<exists>h s2. r = Some h \<and> CoreUninstallProtocolInterface sv h (Some g) i s1 = Some (EFI_SUCCESS, s2)
    \<and> handles s2 = handles s \<and> prots s2 = prots s \<and> notifies s2 = notifies s
    \<and> gHandleList s2 = gHandleList s \<and> gOrderedHandleList s2 = gOrderedHandleList s
    \<and> (mProtocolDatabase s2 = mProtocolDatabase s
       \<or> find_entry g s = None \<and> mProtocolDatabase s2 = mProtocolDatabase s @ [\<lparr>ProtocolID = g, Entry_Protocols = [], Entry_Notify = []\<rparr>])"
  by (rule install_uninstall [OF assms])

definition with_spare :: hand_db where
  "with_spare = hand_after NULL [1, 2, 3, 4, 5, 6, 7, 8] [InstallProtocol NULL guid_A 7]"

theorem uninstalled_as_before_witness:
  "\<exists>h s1 s2. CoreInstallProtocolInterface quiet_system (Some NULL) (Some guid_A) True 30 with_spare = Some (EFI_SUCCESS, Some h, s1)
    \<and> gHandleList s1 = [4, 7]
    \<and> CoreUninstallProtocolInterface quiet_system h (Some guid_A) 30 s1 = Some (EFI_SUCCESS, s2) \<and> gHandleList s2 = [4]"
proof -
  have f: "hand_free 4 with_spare" unfolding with_spare_def by (rule hand_after_free) code_simp+
  have l: "gHandleList with_spare = [4]" by code_simp
  have "map_option (\<lambda>(st, r, s). (st, gHandleList s))
      (CoreInstallProtocolInterface quiet_system (Some NULL) (Some guid_A) True 30 with_spare) = Some (EFI_SUCCESS, [4, 7])"
    by code_simp
  then obtain r s1 where i: "CoreInstallProtocolInterface quiet_system (Some NULL) (Some guid_A) True 30 with_spare = Some (EFI_SUCCESS, r, s1)"
    and h: "gHandleList s1 = [4, 7]" by auto
  from uninstalled_as_before [OF i quiet_system f] h l i show ?thesis by (auto simp: TPL_NOTIFY_LOCK_def)
qed



section \<open>Drivers\<close>

text \<open>(C35) A driver is given an interface exactly when no driver and no exclusive agent has it; the driver that
  has it is told so, every other is refused, and neither changes an open list.\<close>

theorem driver_open_decision:
  assumes "hand_free t s" "t \<le> TPL_NOTIFY_LOCK" "quiet sv" "hand_live h s" "hand_live a s" "hand_live c s"
    "CoreGetProtocolInterface h g s = Some (Some p)" "prots s p = Some P" "pool s = m # ms" "m \<noteq> NULL"
  shows "\<exists>s'. CoreOpenProtocol sv h (Some g) True a c EFI_OPEN_PROTOCOL_BY_DRIVER s =
      (if list_ex (opened_as a c EFI_OPEN_PROTOCOL_BY_DRIVER) (OpenList P)
         then Some (EFI_ALREADY_STARTED, Some (Prot_Interface P), s')
       else if list_ex by_driver (OpenList P) \<or> list_ex exclusive (OpenList P)
         then Some (EFI_ACCESS_DENIED, None, s')
       else Some (EFI_SUCCESS, Some (Prot_Interface P), s'))
    \<and> prots s' = (if list_ex by_driver (OpenList P) \<or> list_ex exclusive (OpenList P) then prots s
        else (prots s)(p \<mapsto> P\<lparr>
          OpenList := OpenList P @ [\<lparr>AgentHandle = a, ControllerHandle = c, Attributes = EFI_OPEN_PROTOCOL_BY_DRIVER,
            OpenCount = 1\<rparr>], OpenListCount := OpenListCount P + 1\<rparr>))"
  by (rule CoreOpenProtocol_for_driver [OF assms])

text \<open>Handle 4 is opened by the driver on handle 7.\<close>

definition managed :: hand_db where
  "managed = hand_after NULL [1, 2, 3, 4, 5, 6, 7, 8, 9, 10, 11, 12]
     [InstallProtocol NULL guid_A 7, InstallProtocol NULL guid_A 8, OpenProtocol 4 guid_A 7 4 EFI_OPEN_PROTOCOL_BY_DRIVER]"

theorem driver_open_decision_witness:
  "\<exists>s'. CoreOpenProtocol quiet_system 4 (Some guid_A) True 4 4 EFI_OPEN_PROTOCOL_BY_DRIVER managed =
    Some (EFI_ACCESS_DENIED, None, s') \<and> prots s' = prots managed"
proof -
  have f: "hand_free 4 managed" unfolding managed_def by (rule hand_after_free) code_simp+
  have h: "\<not> Option.is_none (handles managed 4)" by code_simp
  have g: "CoreGetProtocolInterface 4 guid_A managed = Some (Some 3)" by code_simp
  have o: "map_option OpenList (prots managed 3) =
      Some [\<lparr>AgentHandle = 7, ControllerHandle = 4, Attributes = EFI_OPEN_PROTOCOL_BY_DRIVER, OpenCount = 1\<rparr>]"
    by code_simp
  then obtain P where P: "prots managed 3 = Some P"
    "OpenList P = [\<lparr>AgentHandle = 7, ControllerHandle = 4, Attributes = EFI_OPEN_PROTOCOL_BY_DRIVER, OpenCount = 1\<rparr>]"
    by auto
  have m: "pool managed = [10, 11, 12]" by code_simp
  have l: "hand_live 4 managed" using h by (simp add: hand_live_def Option.is_none_def)
  from driver_open_decision [OF f _ quiet_system(1) l l l g P(1) m] P(2) show ?thesis
    by (auto simp: TPL_NOTIFY_LOCK_def opened_as_def by_driver_def EFI_OPEN_PROTOCOL_BY_DRIVER_def)
qed

text \<open>(C36) The bindings that no override has placed are sorted by descending version, and those before them
  stay where they are.\<close>

theorem bindings_sorted:
  assumes "\<forall>x\<in>set xs. bound pr x" "a \<le> length xs"
  shows "\<exists>ys. sort_bindings pr [a..<length xs] (length xs) xs = Some ys \<and> take a ys = take a xs
    \<and> mset ys = mset xs \<and> sorted_wrt (\<lambda>x y. version_of pr y \<le> version_of pr x) (drop a ys)"
proof -
  obtain ys where ys: "sort_bindings pr [a..<length xs] (length xs) xs = Some ys" "take a ys = take a xs"
    "mset (drop a ys) = mset (drop a xs)" "sorted_wrt (\<lambda>x y. version_of pr y \<le> version_of pr x) (drop a ys)"
    using sort_bindings_from [OF assms] by blast
  then have "mset ys = mset xs" by (metis append_take_drop_id mset_append)
  with ys show ?thesis by blast
qed

definition three_bindings :: driver_programs where
  "three_bindings = no_drivers\<lparr>binding := [1 \<mapsto> \<lparr>Version = 10, ImageHandle = 4\<rparr>, 2 \<mapsto> \<lparr>Version = 30, ImageHandle = 4\<rparr>,
     3 \<mapsto> \<lparr>Version = 20, ImageHandle = 4\<rparr>]\<rparr>"

theorem bindings_sorted_witness:
  "\<exists>ys. sort_bindings three_bindings [0..<length [1, 2, 3]] (length [1, 2, 3]) [1, 2, 3] = Some ys \<and> mset ys = {#1, 2, 3#}
    \<and> sorted_wrt (\<lambda>x y. version_of three_bindings y \<le> version_of three_bindings x) ys"
  using bindings_sorted [of "[1, 2, 3]" three_bindings 0] by (auto simp: bound_def three_bindings_def)

text \<open>(C37) When the entry points of the drivers return, the loop that starts drivers on a controller ends,
  whatever they do to the database.\<close>

theorem driver_start_ends:
  assumes "\<And>i s. run_program sv (supported pr i c path s) s \<noteq> None" "\<And>i s. run_program sv (start pr i c path s) s \<noteq> None"
    "n \<le> length xs"
  shows "\<exists>one s'. start_loop sv pr c path n False xs s = Some (one, s')"
  using start_loop_returns [OF assms, of False s] by auto

definition eager_drivers :: driver_programs where
  "eager_drivers = no_drivers\<lparr>supported := (\<lambda>_ _ _ _. ([], EFI_SUCCESS)), start := (\<lambda>_ _ _ _. ([], EFI_SUCCESS))\<rparr>"

theorem driver_start_ends_witness:
  "\<exists>one s'. start_loop quiet_system eager_drivers 4 None 3 False [1, 2, 3] two_handles = Some (one, s')"
  using driver_start_ends [of quiet_system eager_drivers 4 None 3 "[1, 2, 3]" two_handles]
  by (simp add: eager_drivers_def run_program_def)

end
