(* ===== verification/Depex_Eval.thy ===== *)
theory Depex_Eval
  imports Driver_Connect
begin

text \<open>
  The evaluation of dependency expressions, \<^verbatim>\<open>MdeModulePkg/Core/Dxe/Dispatcher/Dependency.c\<close>, and the
  state of the dispatcher it works on.

  The boolean stack is the list of its values, the top first, with its size; both are empty before the
  first allocation.  A dependency expression is the buffer that the section was read into.  A read
  outside that buffer and a failed \<open>ASSERT\<close> are \<^const>\<open>None\<close>.
\<close>

section \<open>Data\<close>

definition EFI_DEP_BEFORE :: UINT8 where "EFI_DEP_BEFORE = 0x00"
definition EFI_DEP_AFTER :: UINT8 where "EFI_DEP_AFTER = 0x01"
definition EFI_DEP_PUSH :: UINT8 where "EFI_DEP_PUSH = 0x02"
definition EFI_DEP_AND :: UINT8 where "EFI_DEP_AND = 0x03"
definition EFI_DEP_OR :: UINT8 where "EFI_DEP_OR = 0x04"
definition EFI_DEP_NOT :: UINT8 where "EFI_DEP_NOT = 0x05"
definition EFI_DEP_TRUE :: UINT8 where "EFI_DEP_TRUE = 0x06"
definition EFI_DEP_FALSE :: UINT8 where "EFI_DEP_FALSE = 0x07"
definition EFI_DEP_END :: UINT8 where "EFI_DEP_END = 0x08"
definition EFI_DEP_SOR :: UINT8 where "EFI_DEP_SOR = 0x09"
definition EFI_DEP_REPLACE_TRUE :: UINT8 where "EFI_DEP_REPLACE_TRUE = 0xff"
definition DEPEX_STACK_SIZE_INCREMENT :: nat where "DEPEX_STACK_SIZE_INCREMENT = 0x1000"

record EFI_CORE_DRIVER_ENTRY =
  FvHandle :: EFI_HANDLE
  FileName :: EFI_GUID
  FvFileDevicePath :: dp_ptr
  Fv :: UINTN
  Depex :: "UINT8 list option"
  DepexSize :: nat
  Before :: bool
  After :: bool
  BeforeAfterGuid :: EFI_GUID
  Dependent :: bool
  Unrequested :: bool
  Scheduled :: bool
  Untrusted :: bool
  Initialized :: bool
  DepexProtocolError :: bool
  Driver_ImageHandle :: EFI_HANDLE
  IsFvImage :: bool

record KNOWN_HANDLE =
  Known_Handle :: EFI_HANDLE
  FvNameGuid :: EFI_GUID

record EFI_CORE_PROTOCOL_NOTIFY_ENTRY =
  ProtocolGuid :: EFI_GUID
  Present :: bool

record disp_state =
  hand :: hand_db
  mDepexEvaluationStack :: "bool list"
  DepexStackSize :: nat
  drivers :: "UINTN \<Rightarrow> EFI_CORE_DRIVER_ENTRY option"
  mDiscoveredList :: "UINTN list"
  mScheduledQueue :: "UINTN list"
  mFvHandleList :: "KNOWN_HANDLE list"
  gDispatcherRunning :: bool
  mFwVolEventRegistration :: UINTN
  mArchProtocols :: "EFI_CORE_PROTOCOL_NOTIFY_ENTRY list"
  gDxeCoreFileName :: EFI_GUID
  LoadedImage_FilePath :: dp_ptr
  LoadedImage_DeviceHandle :: EFI_HANDLE

definition upd_driver :: "UINTN \<Rightarrow> (EFI_CORE_DRIVER_ENTRY \<Rightarrow> EFI_CORE_DRIVER_ENTRY) \<Rightarrow> disp_state \<Rightarrow> disp_state option" where
  "upd_driver d f s = do {
     D \<leftarrow> drivers s d;
     Some (s\<lparr>drivers := (drivers s)(d \<mapsto> f D)\<rparr>) }"

fun services_available :: "EFI_CORE_PROTOCOL_NOTIFY_ENTRY list \<Rightarrow> EFI_STATUS" where
  "services_available [] = EFI_SUCCESS"
| "services_available (e # es) = (if \<not> Present e then EFI_NOT_FOUND else services_available es)"

definition CoreAllEfiServicesAvailable :: "disp_state \<Rightarrow> EFI_STATUS" where
  "CoreAllEfiServicesAvailable s = services_available (mArchProtocols s)"

section \<open>The boolean stack\<close>

definition GrowDepexStack :: "disp_state \<Rightarrow> EFI_STATUS \<times> disp_state" where
  "GrowDepexStack s =
     (let (NewStack, h) = hand_alloc (\<lambda>_. False) (hand s);
          s = s\<lparr>hand := h\<rparr> in
      if NewStack = NULL then (EFI_OUT_OF_RESOURCES, s)
      else (EFI_SUCCESS, s\<lparr>DepexStackSize := DEPEX_STACK_SIZE_INCREMENT + DepexStackSize s\<rparr>))"

definition PushBool :: "bool \<Rightarrow> disp_state \<Rightarrow> EFI_STATUS \<times> disp_state" where
  "PushBool Value s =
     (let (Status, s) = (if length (mDepexEvaluationStack s) = DepexStackSize s then GrowDepexStack s
                         else (EFI_SUCCESS, s)) in
      if EFI_ERROR Status then (Status, s)
      else (EFI_SUCCESS, s\<lparr>mDepexEvaluationStack := Value # mDepexEvaluationStack s\<rparr>))"

definition PopBool :: "disp_state \<Rightarrow> EFI_STATUS \<times> bool \<times> disp_state" where
  "PopBool s =
     (case mDepexEvaluationStack s of
        [] \<Rightarrow> (EFI_ACCESS_DENIED, False, s)
      | Value # vs \<Rightarrow> (EFI_SUCCESS, Value, s\<lparr>mDepexEvaluationStack := vs\<rparr>))"

section \<open>Before, After and SOR\<close>

definition byte_at :: "UINT8 list \<Rightarrow> nat \<Rightarrow> UINT8 option" where
  "byte_at buf i = (if i < length buf then Some (buf ! i) else None)"

definition guid_at :: "UINT8 list \<Rightarrow> nat \<Rightarrow> EFI_GUID option" where
  "guid_at buf i = (if i + 16 \<le> length buf then Some (take 16 (drop i buf)) else None)"

definition CorePreProcessDepex :: "UINTN \<Rightarrow> disp_state \<Rightarrow> (EFI_STATUS \<times> disp_state) option" where
  "CorePreProcessDepex d s = do {
     D \<leftarrow> drivers s d;
     buf \<leftarrow> Depex D;
     op \<leftarrow> byte_at buf 0;
     let D = (if op = EFI_DEP_SOR then D\<lparr>Unrequested := True\<rparr> else D\<lparr>Dependent := True\<rparr>);
     let D = (if op = EFI_DEP_BEFORE then D\<lparr>Before := True\<rparr>
              else if op = EFI_DEP_AFTER then D\<lparr>After := True\<rparr> else D);
     D \<leftarrow> (if Before D \<or> After D then do {
              g \<leftarrow> guid_at buf 1;
              Some (D\<lparr>BeforeAfterGuid := g\<rparr>) }
            else Some D);
     Some (EFI_SUCCESS, s\<lparr>drivers := (drivers s)(d \<mapsto> D)\<rparr>) }"

section \<open>The evaluator\<close>

text \<open>Two operands are popped, and their combination is pushed.\<close>

definition depex_binary :: "(bool \<Rightarrow> bool \<Rightarrow> bool) \<Rightarrow> disp_state \<Rightarrow> EFI_STATUS \<times> disp_state" where
  "depex_binary f s =
     (let (Status, Operator, s) = PopBool s in
      if EFI_ERROR Status then (Status, s)
      else let (Status, Operator2, s) = PopBool s in
        if EFI_ERROR Status then (Status, s)
        else PushBool (f Operator Operator2) s)"

definition depex_not :: "disp_state \<Rightarrow> EFI_STATUS \<times> disp_state" where
  "depex_not s =
     (let (Status, Operator, s) = PopBool s in
      if EFI_ERROR Status then (Status, s) else PushBool (\<not> Operator) s)"

text \<open>The operand of \<open>PUSH\<close>; a protocol that is found is not looked for again.\<close>

definition depex_push :: "hand_services \<Rightarrow> UINTN \<Rightarrow> nat \<Rightarrow> UINT8 list \<Rightarrow> disp_state \<Rightarrow> (EFI_STATUS \<times> disp_state) option" where
  "depex_push sv d i buf s = do {
     DriverGuid \<leftarrow> guid_at buf (i + 1);
     (Status, _, h) \<leftarrow> CoreLocateProtocol sv (Some DriverGuid) NULL True (hand s);
     let s = s\<lparr>hand := h\<rparr>;
     if EFI_ERROR Status then Some (PushBool False s)
     else do {
       s \<leftarrow> upd_driver d (\<lambda>D. D\<lparr>Depex := Some (buf[i := EFI_DEP_REPLACE_TRUE])\<rparr>) s;
       Some (PushBool True s) } }"

text \<open>The loop: \<open>i\<close> is the offset of \<open>Iterator\<close>.\<close>

partial_function (option) depex_loop :: "hand_services \<Rightarrow> UINTN \<Rightarrow> nat \<Rightarrow> disp_state \<Rightarrow> (bool \<times> disp_state) option" where
  "depex_loop sv d i s = do {
     D \<leftarrow> drivers s d;
     if DepexSize D \<le> i then Some (False, s)
     else do {
       buf \<leftarrow> Depex D;
       op \<leftarrow> byte_at buf i;
       if op = EFI_DEP_BEFORE \<or> op = EFI_DEP_AFTER then None
       else if op = EFI_DEP_SOR then (if i \<noteq> 0 then Some (False, s) else depex_loop sv d (i + 1) s)
       else if op = EFI_DEP_PUSH then do {
         (Status, s) \<leftarrow> depex_push sv d i buf s;
         if EFI_ERROR Status then Some (False, s) else depex_loop sv d (i + 17) s }
       else if op = EFI_DEP_AND then do {
         let (Status, s) = depex_binary (\<and>) s;
         if EFI_ERROR Status then Some (False, s) else depex_loop sv d (i + 1) s }
       else if op = EFI_DEP_OR then do {
         let (Status, s) = depex_binary (\<or>) s;
         if EFI_ERROR Status then Some (False, s) else depex_loop sv d (i + 1) s }
       else if op = EFI_DEP_NOT then do {
         let (Status, s) = depex_not s;
         if EFI_ERROR Status then Some (False, s) else depex_loop sv d (i + 1) s }
       else if op = EFI_DEP_TRUE then do {
         let (Status, s) = PushBool True s;
         if EFI_ERROR Status then Some (False, s) else depex_loop sv d (i + 1) s }
       else if op = EFI_DEP_FALSE then do {
         let (Status, s) = PushBool False s;
         if EFI_ERROR Status then Some (False, s) else depex_loop sv d (i + 1) s }
       else if op = EFI_DEP_END then do {
         let (Status, Operator, s) = PopBool s;
         if EFI_ERROR Status then Some (False, s) else Some (Operator, s) }
       else if op = EFI_DEP_REPLACE_TRUE then do {
         _ \<leftarrow> guid_at buf (i + 1);
         let (Status, s) = PushBool True s;
         if EFI_ERROR Status then Some (False, s) else depex_loop sv d (i + 17) s }
       else Some (False, s) } }"

definition CoreIsSchedulable :: "hand_services \<Rightarrow> UINTN \<Rightarrow> disp_state \<Rightarrow> (bool \<times> disp_state) option" where
  "CoreIsSchedulable sv d s = do {
     D \<leftarrow> drivers s d;
     if After D \<or> Before D then Some (False, s)
     else if Depex D = None then Some (\<not> EFI_ERROR (CoreAllEfiServicesAvailable s), s)
     else depex_loop sv d 0 (s\<lparr>mDepexEvaluationStack := []\<rparr>) }"

end
