(* ===== verification/Dispatcher.thy ===== *)
theory Dispatcher
  imports Depex_Eval
begin

text \<open>
  The DXE dispatcher, \<^verbatim>\<open>MdeModulePkg/Core/Dxe/Dispatcher/Dispatcher.c\<close>.  Drivers are addresses of their
  \<open>EFI_CORE_DRIVER_ENTRY\<close>; \<open>mDiscoveredList\<close> and \<open>mScheduledQueue\<close> are the lists of their members, and
  linking an entry that is in the queue already is \<^const>\<open>None\<close>, as it breaks the list.

  What lies behind the firmware volume protocol, the image services and the event of the dispatcher is
  a record every operation takes: each of these may change the state, which is how a driver that is
  started installs protocols and has further drivers discovered.
\<close>

section \<open>The environment\<close>

type_synonym EFI_FV_FILETYPE = UINT8
type_synonym EFI_SECTION_TYPE = UINT8

definition EFI_FV_FILETYPE_DXE_CORE :: EFI_FV_FILETYPE where "EFI_FV_FILETYPE_DXE_CORE = 0x05"
definition EFI_FV_FILETYPE_DRIVER :: EFI_FV_FILETYPE where "EFI_FV_FILETYPE_DRIVER = 0x07"
definition EFI_FV_FILETYPE_COMBINED_PEIM_DRIVER :: EFI_FV_FILETYPE where "EFI_FV_FILETYPE_COMBINED_PEIM_DRIVER = 0x08"
definition EFI_FV_FILETYPE_FIRMWARE_VOLUME_IMAGE :: EFI_FV_FILETYPE where "EFI_FV_FILETYPE_FIRMWARE_VOLUME_IMAGE = 0x0B"
definition EFI_FV_FILETYPE_COMBINED_SMM_DXE :: EFI_FV_FILETYPE where "EFI_FV_FILETYPE_COMBINED_SMM_DXE = 0x0C"
definition EFI_SECTION_DXE_DEPEX :: EFI_SECTION_TYPE where "EFI_SECTION_DXE_DEPEX = 0x13"
definition EFI_SECTION_RAW :: EFI_SECTION_TYPE where "EFI_SECTION_RAW = 0x19"
definition EFI_SECTION_SMM_DEPEX :: EFI_SECTION_TYPE where "EFI_SECTION_SMM_DEPEX = 0x1C"
definition MEDIA_PIWG_FW_FILE_DP :: UINT8 where "MEDIA_PIWG_FW_FILE_DP = 0x06"

definition mDxeFileTypes :: "EFI_FV_FILETYPE list" where
  "mDxeFileTypes = [EFI_FV_FILETYPE_DRIVER, EFI_FV_FILETYPE_COMBINED_SMM_DXE, EFI_FV_FILETYPE_COMBINED_PEIM_DRIVER,
     EFI_FV_FILETYPE_DXE_CORE, EFI_FV_FILETYPE_FIRMWARE_VOLUME_IMAGE]"

definition gEfiFirmwareVolume2ProtocolGuid :: EFI_GUID where
  "gEfiFirmwareVolume2ProtocolGuid =
     [0xB6, 0x73, 0x0E, 0x22, 0xDB, 0x6B, 0x13, 0x44, 0x84, 0x05, 0xB9, 0x74, 0xB1, 0x08, 0x61, 0x9A]"
definition gAprioriGuid :: EFI_GUID where
  "gAprioriGuid =
     [0xE7, 0x0E, 0x51, 0xFC, 0xDC, 0xFF, 0xD4, 0x11, 0xBD, 0x41, 0x00, 0x80, 0xC7, 0x3C, 0x88, 0x81]"

record disp_env =
  services :: hand_services
  ReadSection :: "UINTN \<Rightarrow> EFI_GUID \<Rightarrow> EFI_SECTION_TYPE \<Rightarrow> disp_state \<Rightarrow> (EFI_STATUS \<times> UINT8 list \<times> disp_state) option"
  GetNextFile :: "UINTN \<Rightarrow> UINTN \<Rightarrow> EFI_FV_FILETYPE \<Rightarrow> disp_state \<Rightarrow>
    (EFI_STATUS \<times> UINTN \<times> EFI_FV_FILETYPE \<times> EFI_GUID \<times> disp_state) option"
  FvNameOf :: "EFI_HANDLE \<Rightarrow> disp_state \<Rightarrow> (EFI_GUID option \<times> disp_state) option"
  FirmwareVolume2Hobs :: "(EFI_GUID \<times> EFI_GUID) list"
  CoreProcessFvImageFile :: "UINTN \<Rightarrow> EFI_HANDLE \<Rightarrow> EFI_GUID \<Rightarrow> disp_state \<Rightarrow> disp_state option"
  CoreLoadImage :: "dp_ptr \<Rightarrow> disp_state \<Rightarrow> (EFI_STATUS \<times> EFI_HANDLE \<times> disp_state) option"
  CoreStartImage :: "EFI_HANDLE \<Rightarrow> disp_state \<Rightarrow> disp_state option"
  CreateDispatchEvent :: "disp_state \<Rightarrow> EFI_STATUS \<times> disp_state"
  SignalDispatchEvent :: "disp_state \<Rightarrow> disp_state option"
  CloseDispatchEvent :: "disp_state \<Rightarrow> disp_state option"

section \<open>The states of a driver\<close>

definition queue_insert :: "UINTN \<Rightarrow> disp_state \<Rightarrow> disp_state option" where
  "queue_insert d s =
     (if d \<in> set (mScheduledQueue s) then None else Some (s\<lparr>mScheduledQueue := mScheduledQueue s @ [d]\<rparr>))"

definition CoreGetDepexSectionAndPreProccess :: "disp_env \<Rightarrow> UINTN \<Rightarrow> disp_state \<Rightarrow> (EFI_STATUS \<times> disp_state) option" where
  "CoreGetDepexSectionAndPreProccess env d s = do {
     D \<leftarrow> drivers s d;
     (Status, buf, s) \<leftarrow> ReadSection env (Fv D) (FileName D) EFI_SECTION_DXE_DEPEX s;
     if EFI_ERROR Status then
       if Status = EFI_PROTOCOL_ERROR then do {
         s \<leftarrow> upd_driver d (\<lambda>D. D\<lparr>DepexProtocolError := True\<rparr>) s;
         Some (Status, s) }
       else do {
         s \<leftarrow> upd_driver d (\<lambda>D. D\<lparr>Depex := None, Dependent := True, DepexProtocolError := False\<rparr>) s;
         Some (Status, s) }
     else do {
       s \<leftarrow> upd_driver d (\<lambda>D. D\<lparr>Depex := Some buf, DepexSize := length buf\<rparr>) s;
       (_, s) \<leftarrow> CorePreProcessDepex d s;
       s \<leftarrow> upd_driver d (\<lambda>D. D\<lparr>DepexProtocolError := False\<rparr>) s;
       Some (Status, s) } }"

fun schedule_walk :: "EFI_HANDLE \<Rightarrow> EFI_GUID \<Rightarrow> UINTN list \<Rightarrow> disp_state \<Rightarrow> (EFI_STATUS \<times> disp_state) option" where
  "schedule_walk FirmwareVolumeHandle DriverName [] s = Some (EFI_NOT_FOUND, s)"
| "schedule_walk FirmwareVolumeHandle DriverName (d # ds) s = do {
     D \<leftarrow> drivers s d;
     if FvHandle D = FirmwareVolumeHandle \<and> Unrequested D \<and> DriverName = FileName D then
       Some (EFI_SUCCESS, s\<lparr>drivers := (drivers s)(d \<mapsto> D\<lparr>Unrequested := False, Dependent := True\<rparr>)\<rparr>)
     else schedule_walk FirmwareVolumeHandle DriverName ds s }"

definition CoreSchedule :: "EFI_HANDLE \<Rightarrow> EFI_GUID \<Rightarrow> disp_state \<Rightarrow> (EFI_STATUS \<times> disp_state) option" where
  "CoreSchedule FirmwareVolumeHandle DriverName s =
     schedule_walk FirmwareVolumeHandle DriverName (mDiscoveredList s) s"

fun trust_walk :: "EFI_HANDLE \<Rightarrow> EFI_GUID \<Rightarrow> UINTN list \<Rightarrow> disp_state \<Rightarrow> (EFI_STATUS \<times> disp_state) option" where
  "trust_walk FirmwareVolumeHandle DriverName [] s = Some (EFI_NOT_FOUND, s)"
| "trust_walk FirmwareVolumeHandle DriverName (d # ds) s = do {
     D \<leftarrow> drivers s d;
     if FvHandle D = FirmwareVolumeHandle \<and> Untrusted D \<and> DriverName = FileName D then do {
       s \<leftarrow> queue_insert d (s\<lparr>drivers := (drivers s)(d \<mapsto> D\<lparr>Untrusted := False, Scheduled := True\<rparr>)\<rparr>);
       Some (EFI_SUCCESS, s) }
     else trust_walk FirmwareVolumeHandle DriverName ds s }"

definition CoreTrust :: "EFI_HANDLE \<Rightarrow> EFI_GUID \<Rightarrow> disp_state \<Rightarrow> (EFI_STATUS \<times> disp_state) option" where
  "CoreTrust FirmwareVolumeHandle DriverName s =
     trust_walk FirmwareVolumeHandle DriverName (mDiscoveredList s) s"

section \<open>Scheduling with Before and After\<close>

text \<open>One of the two loops: \<open>side\<close> is \<open>Before\<close> or \<open>After\<close>, and \<open>f\<close> the recursive call.\<close>

fun sched_each ::
    "(UINTN \<Rightarrow> disp_state \<Rightarrow> disp_state option) \<Rightarrow> (EFI_CORE_DRIVER_ENTRY \<Rightarrow> bool) \<Rightarrow> UINTN \<Rightarrow> UINTN list \<Rightarrow>
     disp_state \<Rightarrow> disp_state option" where
  "sched_each f side d [] s = Some s"
| "sched_each f side d (x # xs) s = do {
     D \<leftarrow> drivers s x;
     I \<leftarrow> drivers s d;
     s \<leftarrow> (if side D \<and> Dependent D \<and> x \<noteq> d \<and> FileName I = BeforeAfterGuid D then f x s else Some s);
     sched_each f side d xs s }"

lemma sched_each_mono [partial_function_mono]:
  assumes "\<And>x s. mono_option (\<lambda>f. F f x s)"
  shows "mono_option (\<lambda>f. sched_each (F f) side d xs s)"
proof (induction xs arbitrary: s)
  case (Cons x xs)
  show ?case
    unfolding sched_each.simps by (intro partial_function_mono Cons assms)
qed (simp add: option.const_mono)

partial_function (option) CoreInsertOnScheduledQueueWhileProcessingBeforeAndAfter ::
    "UINTN \<Rightarrow> disp_state \<Rightarrow> disp_state option" where
  "CoreInsertOnScheduledQueueWhileProcessingBeforeAndAfter d s = do {
     s \<leftarrow> sched_each CoreInsertOnScheduledQueueWhileProcessingBeforeAndAfter Before d (mDiscoveredList s) s;
     s \<leftarrow> upd_driver d (\<lambda>D. D\<lparr>Dependent := False, Scheduled := True\<rparr>) s;
     s \<leftarrow> queue_insert d s;
     sched_each CoreInsertOnScheduledQueueWhileProcessingBeforeAndAfter After d (mDiscoveredList s) s }"

section \<open>The dispatcher\<close>

text \<open>One driver off the queue: whether an image was started or a volume processed, and the new state.\<close>

definition dispatch_one :: "disp_env \<Rightarrow> UINTN \<Rightarrow> disp_state \<Rightarrow> (bool \<times> disp_state) option" where
  "dispatch_one env d s = do {
     D \<leftarrow> drivers s d;
     (Status, s) \<leftarrow>
       (if Driver_ImageHandle D = NULL \<and> \<not> IsFvImage D then do {
          (Status, h, s) \<leftarrow> CoreLoadImage env (FvFileDevicePath D) s;
          s \<leftarrow> upd_driver d (\<lambda>D. D\<lparr>Driver_ImageHandle := h\<rparr>) s;
          Some (Status, s) }
        else Some (EFI_SUCCESS, s));
     if EFI_ERROR Status then do {
       s \<leftarrow> upd_driver d (\<lambda>D. if Status = EFI_SECURITY_VIOLATION
                              then D\<lparr>Untrusted := True, Scheduled := False\<rparr>
                              else D\<lparr>Initialized := True, Scheduled := False\<rparr>) s;
       Some (False, s\<lparr>mScheduledQueue := remove1 d (mScheduledQueue s)\<rparr>) }
     else do {
       s \<leftarrow> upd_driver d (\<lambda>D. D\<lparr>Scheduled := False, Initialized := True\<rparr>) s;
       let s = s\<lparr>mScheduledQueue := remove1 d (mScheduledQueue s)\<rparr>;
       D \<leftarrow> drivers s d;
       s \<leftarrow> (if IsFvImage D then CoreProcessFvImageFile env (Fv D) (FvHandle D) (FileName D) s
             else if Driver_ImageHandle D = NULL then None
             else CoreStartImage env (Driver_ImageHandle D) s);
       Some (True, s) } }"

text \<open>The queue is drained.\<close>

partial_function (option) dispatch_drain :: "disp_env \<Rightarrow> EFI_STATUS \<Rightarrow> disp_state \<Rightarrow> (EFI_STATUS \<times> disp_state) option" where
  "dispatch_drain env ReturnStatus s =
     (case mScheduledQueue s of
        [] \<Rightarrow> Some (ReturnStatus, s)
      | d # _ \<Rightarrow> do {
          (started, s) \<leftarrow> dispatch_one env d s;
          dispatch_drain env (if started then EFI_SUCCESS else ReturnStatus) s })"

text \<open>The search for drivers to schedule; \<open>Link\<close> is the member of the list that was looked at last.\<close>

partial_function (option) dispatch_search ::
    "disp_env \<Rightarrow> UINTN option \<Rightarrow> bool \<Rightarrow> disp_state \<Rightarrow> (bool \<times> disp_state) option" where
  "dispatch_search env Link ReadyToRun s = do {
     l \<leftarrow> list_next (mDiscoveredList s) Link;
     case l of
       None \<Rightarrow> Some (ReadyToRun, s)
     | Some d \<Rightarrow> do {
         D \<leftarrow> drivers s d;
         s \<leftarrow> (if DepexProtocolError D then map_option snd (CoreGetDepexSectionAndPreProccess env d s) else Some s);
         D \<leftarrow> drivers s d;
         if Dependent D then do {
           (r, s) \<leftarrow> CoreIsSchedulable (services env) d s;
           if r then do {
             s \<leftarrow> CoreInsertOnScheduledQueueWhileProcessingBeforeAndAfter d s;
             dispatch_search env (Some d) True s }
           else dispatch_search env (Some d) ReadyToRun s }
         else dispatch_search env (Some d) ReadyToRun s } }"

partial_function (option) dispatch_rounds :: "disp_env \<Rightarrow> EFI_STATUS \<Rightarrow> disp_state \<Rightarrow> (EFI_STATUS \<times> disp_state) option" where
  "dispatch_rounds env ReturnStatus s = do {
     (ReturnStatus, s) \<leftarrow> dispatch_drain env ReturnStatus s;
     s \<leftarrow> (if \<not> EFI_ERROR ReturnStatus then SignalDispatchEvent env s else Some s);
     (ReadyToRun, s) \<leftarrow> dispatch_search env None False s;
     if ReadyToRun then dispatch_rounds env ReturnStatus s else Some (ReturnStatus, s) }"

definition CoreDispatcher :: "disp_env \<Rightarrow> disp_state \<Rightarrow> (EFI_STATUS \<times> disp_state) option" where
  "CoreDispatcher env s =
     (if gDispatcherRunning s then Some (EFI_ALREADY_STARTED, s)
      else let (Status, s) = CreateDispatchEvent env (s\<lparr>gDispatcherRunning := True\<rparr>) in
        if EFI_ERROR Status then Some (Status, s)
        else do {
          (ReturnStatus, s) \<leftarrow> dispatch_rounds env EFI_NOT_FOUND s;
          s \<leftarrow> CloseDispatchEvent env s;
          Some (ReturnStatus, s\<lparr>gDispatcherRunning := False\<rparr>) })"

section \<open>Discovering drivers\<close>

definition FvHasBeenProcessed :: "EFI_HANDLE \<Rightarrow> disp_state \<Rightarrow> bool" where
  "FvHasBeenProcessed fvh s = list_ex (\<lambda>k. Known_Handle k = fvh) (mFvHandleList s)"

definition FvIsBeingProcessed :: "disp_env \<Rightarrow> EFI_HANDLE \<Rightarrow> disp_state \<Rightarrow> (KNOWN_HANDLE option \<times> disp_state) option" where
  "FvIsBeingProcessed env fvh s = do {
     (name, s) \<leftarrow> FvNameOf env fvh s;
     if name \<noteq> None \<and> list_ex (\<lambda>k. FvNameGuid k = the name) (mFvHandleList s) then Some (None, s)
     else do {
       let (a, h) = hand_alloc (\<lambda>_. False) (hand s);
       if a = NULL then None
       else do {
         let k = \<lparr>Known_Handle = fvh, FvNameGuid = (case name of None \<Rightarrow> replicate 16 0 | Some g \<Rightarrow> g)\<rparr>;
         Some (Some k, s\<lparr>hand := h, mFvHandleList := mFvHandleList s @ [k]\<rparr>) } } }"

text \<open>\<open>mFvDevicePath\<close>: the node of the file and the end of the path.\<close>

definition fv_file_path :: "EFI_GUID \<Rightarrow> UINT8 list" where
  "fv_file_path NameGuid =
     [MEDIA_DEVICE_PATH, MEDIA_PIWG_FW_FILE_DP, 20, 0] @ NameGuid @ mUefiDevicePathLibEndDevicePath"

definition CoreFvToDevicePath :: "disp_env \<Rightarrow> EFI_HANDLE \<Rightarrow> EFI_GUID \<Rightarrow> disp_state \<Rightarrow> (dp_ptr \<times> disp_state) option" where
  "CoreFvToDevicePath env fvh DriverName s = do {
     let sv = services env;
     (Status, i, h) \<leftarrow> CoreHandleProtocol sv fvh (Some gEfiDevicePathProtocolGuid) True (hand s);
     if EFI_ERROR Status then Some (None, s\<lparr>hand := h\<rparr>)
     else do {
       i \<leftarrow> i;
       let (a, h) = hand_alloc (\<lambda>_. False) h;
       path \<leftarrow> AppendDevicePath (PcdNodes sv) (if a = NULL then None else Some (\<lambda>_. 0)) (path_at sv i)
         (Some (fv_file_path DriverName));
       Some (path, s\<lparr>hand := h\<rparr>) } }"

definition CoreAddToDriverList ::
    "disp_env \<Rightarrow> UINTN \<Rightarrow> EFI_HANDLE \<Rightarrow> EFI_GUID \<Rightarrow> EFI_FV_FILETYPE \<Rightarrow> disp_state \<Rightarrow> (EFI_STATUS \<times> disp_state) option" where
  "CoreAddToDriverList env fv fvh DriverName Type s = do {
     let (d, h) = hand_alloc (\<lambda>a. drivers s a \<noteq> None) (hand s);
     let s = s\<lparr>hand := h\<rparr>;
     if d = NULL then None
     else do {
       (path, s) \<leftarrow> CoreFvToDevicePath env fvh DriverName s;
       let s = s\<lparr>drivers := (drivers s)(d \<mapsto>
         \<lparr>FvHandle = fvh, FileName = DriverName, FvFileDevicePath = path, Fv = fv, Depex = None, DepexSize = 0,
          Before = False, After = False, BeforeAfterGuid = replicate 16 0, Dependent = False, Unrequested = False,
          Scheduled = False, Untrusted = False, Initialized = False, DepexProtocolError = False, Driver_ImageHandle = NULL,
          IsFvImage = (Type = EFI_FV_FILETYPE_FIRMWARE_VOLUME_IMAGE)\<rparr>)\<rparr>;
       (_, s) \<leftarrow> CoreGetDepexSectionAndPreProccess env d s;
       Some (EFI_SUCCESS, s\<lparr>mDiscoveredList := mDiscoveredList s @ [d]\<rparr>) } }"

text \<open>\<open>FirmwareVolume2Hobs\<close> are the names of the volumes and files in the FV2 HOBs.\<close>

definition FvFoundInHobFv2 :: "disp_env \<Rightarrow> EFI_GUID \<Rightarrow> EFI_GUID \<Rightarrow> bool" where
  "FvFoundInHobFv2 env FvName DriverName =
     list_ex (\<lambda>(fv, name). DriverName = name \<and> FvName = fv) (FirmwareVolume2Hobs env)"

text \<open>A file of the volume.\<close>

definition discover_file ::
    "disp_env \<Rightarrow> UINTN \<Rightarrow> EFI_HANDLE \<Rightarrow> KNOWN_HANDLE \<Rightarrow> EFI_FV_FILETYPE \<Rightarrow> EFI_GUID \<Rightarrow> disp_state \<Rightarrow> disp_state option" where
  "discover_file env fv fvh k Type NameGuid s =
     (if Type = EFI_FV_FILETYPE_DXE_CORE then
        if LoadedImage_FilePath s = None \<and> NameGuid = gDxeCoreFileName s then do {
          let (a, h) = hand_alloc (\<lambda>_. False) (hand s);
          path \<leftarrow> DuplicateDevicePath (PcdNodes (services env)) (if a = NULL then None else Some (\<lambda>_. 0))
            (Some (fv_file_path NameGuid));
          Some (s\<lparr>hand := h, LoadedImage_FilePath := path, LoadedImage_DeviceHandle := fvh\<rparr>) }
        else Some s
      else if Type = EFI_FV_FILETYPE_FIRMWARE_VOLUME_IMAGE then
        if FvFoundInHobFv2 env (FvNameGuid k) NameGuid then Some s
        else do {
          (Status, _, s) \<leftarrow> ReadSection env fv NameGuid EFI_SECTION_SMM_DEPEX s;
          if \<not> EFI_ERROR Status then None
          else do {
            (Status, _, s) \<leftarrow> ReadSection env fv NameGuid EFI_SECTION_DXE_DEPEX s;
            if EFI_ERROR Status then CoreProcessFvImageFile env fv fvh NameGuid s
            else map_option snd (CoreAddToDriverList env fv fvh NameGuid Type s) } }
      else map_option snd (CoreAddToDriverList env fv fvh NameGuid Type s))"

partial_function (option) discover_type ::
    "disp_env \<Rightarrow> UINTN \<Rightarrow> EFI_HANDLE \<Rightarrow> KNOWN_HANDLE \<Rightarrow> EFI_FV_FILETYPE \<Rightarrow> UINTN \<Rightarrow> disp_state \<Rightarrow> disp_state option" where
  "discover_type env fv fvh k Type key s = do {
     (Status, key, FoundType, NameGuid, s) \<leftarrow> GetNextFile env fv key Type s;
     if EFI_ERROR Status then Some s
     else do {
       s \<leftarrow> discover_file env fv fvh k FoundType NameGuid s;
       discover_type env fv fvh k Type key s } }"

fun discover_types ::
    "disp_env \<Rightarrow> UINTN \<Rightarrow> EFI_HANDLE \<Rightarrow> KNOWN_HANDLE \<Rightarrow> EFI_FV_FILETYPE list \<Rightarrow> disp_state \<Rightarrow> disp_state option" where
  "discover_types env fv fvh k [] s = Some s"
| "discover_types env fv fvh k (t # ts) s = do {
     s \<leftarrow> discover_type env fv fvh k t 0 s;
     discover_types env fv fvh k ts s }"

text \<open>The drivers of the a priori file are put on the queue.\<close>

fun apriori_find :: "EFI_HANDLE \<Rightarrow> EFI_GUID \<Rightarrow> UINTN list \<Rightarrow> disp_state \<Rightarrow> disp_state option" where
  "apriori_find h g [] s = Some s"
| "apriori_find h g (d # ds) s = do {
     D \<leftarrow> drivers s d;
     if FileName D = g \<and> h = FvHandle D then
       queue_insert d (s\<lparr>drivers := (drivers s)(d \<mapsto> D\<lparr>Dependent := False, Scheduled := True\<rparr>)\<rparr>)
     else apriori_find h g ds s }"

fun apriori_all :: "EFI_HANDLE \<Rightarrow> EFI_GUID list \<Rightarrow> disp_state \<Rightarrow> disp_state option" where
  "apriori_all h [] s = Some s"
| "apriori_all h (g # gs) s = do {
     s \<leftarrow> apriori_find h g (mDiscoveredList s) s;
     apriori_all h gs s }"

definition guid_array :: "UINT8 list \<Rightarrow> EFI_GUID list" where
  "guid_array buf = map (\<lambda>i. take 16 (drop (16 * i) buf)) [0..<length buf div 16]"

definition process_volume :: "disp_env \<Rightarrow> EFI_HANDLE \<Rightarrow> KNOWN_HANDLE \<Rightarrow> disp_state \<Rightarrow> disp_state option" where
  "process_volume env fvh k s = do {
     let sv = services env;
     (Status, fv, h) \<leftarrow> CoreHandleProtocol sv fvh (Some gEfiFirmwareVolume2ProtocolGuid) True (hand s);
     let s = s\<lparr>hand := h\<rparr>;
     if EFI_ERROR Status \<or> fv = Some NULL then None
     else do {
       fv \<leftarrow> fv;
       (Status, _, h) \<leftarrow> CoreHandleProtocol sv fvh (Some gEfiDevicePathProtocolGuid) True (hand s);
       let s = s\<lparr>hand := h\<rparr>;
       if EFI_ERROR Status then Some s
       else do {
         s \<leftarrow> discover_types env fv fvh k mDxeFileTypes s;
         (Status, buf, s) \<leftarrow> ReadSection env fv gAprioriGuid EFI_SECTION_RAW s;
         apriori_all fvh (if EFI_ERROR Status then [] else guid_array buf) s } } }"

partial_function (option) CoreFwVolEventProtocolNotify :: "disp_env \<Rightarrow> disp_state \<Rightarrow> disp_state option" where
  "CoreFwVolEventProtocolNotify env s = do {
     (Status, _, Result, h) \<leftarrow> CoreLocateHandle (services env) ByRegisterNotify None (mFwVolEventRegistration s) True 8 True (hand s);
     let s = s\<lparr>hand := h\<rparr>;
     if EFI_ERROR Status then Some s
     else (case Result of
       [] \<Rightarrow> None
     | fvh # _ \<Rightarrow>
         if FvHasBeenProcessed fvh s then CoreFwVolEventProtocolNotify env s
         else do {
           (k, s) \<leftarrow> FvIsBeingProcessed env fvh s;
           s \<leftarrow> (case k of None \<Rightarrow> Some s | Some k \<Rightarrow> process_volume env fvh k s);
           CoreFwVolEventProtocolNotify env s }) }"

end
