(* ===== verification/Dispatch_Order.thy ===== *)
theory Dispatch_Order
  imports Dispatcher
begin

text \<open>
  Scheduling a driver with those that want to run before or after it: the recursion ends, schedules each
  of them once, and in the order they ask for.
\<close>

section \<open>What scheduling does to the state\<close>

definition drv :: "disp_state \<Rightarrow> UINTN \<Rightarrow> EFI_CORE_DRIVER_ENTRY" where
  "drv s x = the (drivers s x)"

definition dep :: "disp_state \<Rightarrow> UINTN set" where
  "dep s = {x \<in> set (mDiscoveredList s). Dependent (drv s x)}"

definition targets :: "disp_state \<Rightarrow> UINTN \<Rightarrow> UINTN \<Rightarrow> bool" where
  "targets s x y \<longleftrightarrow> (Before (drv s x) \<or> After (drv s x)) \<and> BeforeAfterGuid (drv s x) = FileName (drv s y)"

text \<open>The entries are there, no two drivers share a name, and none wants both Before and After.\<close>

definition disp_static :: "disp_state \<Rightarrow> bool" where
  "disp_static s \<longleftrightarrow>
     (\<forall>x\<in>set (mDiscoveredList s). drivers s x \<noteq> None)
     \<and> inj_on (\<lambda>x. FileName (drv s x)) (set (mDiscoveredList s))
     \<and> (\<forall>x\<in>set (mDiscoveredList s). \<not> (Before (drv s x) \<and> After (drv s x)))"

definition disp_queue :: "disp_state \<Rightarrow> bool" where
  "disp_queue s \<longleftrightarrow> dep s \<inter> set (mScheduledQueue s) = {}"

text \<open>The drivers of a list have been moved to the queue.\<close>

definition scheduled :: "UINTN list \<Rightarrow> disp_state \<Rightarrow> disp_state" where
  "scheduled new s = s\<lparr>
     drivers := (\<lambda>x. if x \<in> set new then map_option (\<lambda>D. D\<lparr>Dependent := False, Scheduled := True\<rparr>) (drivers s x) else drivers s x),
     mScheduledQueue := mScheduledQueue s @ new\<rparr>"

lemma scheduled_Nil [simp]: "scheduled [] s = s"
  by (simp add: scheduled_def)

lemma scheduled_append: "scheduled b (scheduled a s) = scheduled (a @ b) s"
  by (rule disp_state.equality) (auto simp: scheduled_def fun_eq_iff option.map_comp comp_def)

lemma scheduled_simps [simp]:
  "mDiscoveredList (scheduled new s) = mDiscoveredList s" "mScheduledQueue (scheduled new s) = mScheduledQueue s @ new"
  "drivers (scheduled new s) x = None \<longleftrightarrow> drivers s x = None"
  by (auto simp: scheduled_def)

lemma drv_scheduled:
  assumes "drivers s x \<noteq> None"
  shows "drv (scheduled new s) x = (if x \<in> set new then (drv s x)\<lparr>Dependent := False, Scheduled := True\<rparr> else drv s x)"
  using assms by (auto simp: scheduled_def drv_def)

lemma static_scheduled:
  assumes "disp_static s"
  shows "disp_static (scheduled new s)" "dep (scheduled new s) = dep s - set new"
    "x \<in> set (mDiscoveredList s) \<Longrightarrow> y \<in> set (mDiscoveredList s) \<Longrightarrow> targets (scheduled new s) x y = targets s x y"
proof -
  have live: "drivers s x \<noteq> None" if "x \<in> set (mDiscoveredList s)" for x using assms that by (simp add: disp_static_def)
  have f: "FileName (drv (scheduled new s) x) = FileName (drv s x)" "Before (drv (scheduled new s) x) = Before (drv s x)"
    "After (drv (scheduled new s) x) = After (drv s x)" "BeforeAfterGuid (drv (scheduled new s) x) = BeforeAfterGuid (drv s x)"
    if "x \<in> set (mDiscoveredList s)" for x using live [OF that] by (simp_all add: drv_scheduled)
  show "disp_static (scheduled new s)"
    using assms f unfolding disp_static_def by (simp add: inj_on_def)
  show "dep (scheduled new s) = dep s - set new" using live by (auto simp: dep_def drv_scheduled split: if_splits)
  show "targets (scheduled new s) x y = targets s x y" if "x \<in> set (mDiscoveredList s)" "y \<in> set (mDiscoveredList s)"
    using f that by (simp add: targets_def)
qed

lemma queue_scheduled: "disp_static s \<Longrightarrow> disp_queue s \<Longrightarrow> disp_queue (scheduled new s)"
  by (auto simp: disp_queue_def static_scheduled)

lemma targets_unique:
  "disp_static s \<Longrightarrow> targets s x y \<Longrightarrow> targets s x z \<Longrightarrow> y \<in> set (mDiscoveredList s) \<Longrightarrow> z \<in> set (mDiscoveredList s) \<Longrightarrow> y = z"
  by (simp add: targets_def disp_static_def inj_on_def)

section \<open>Good orders\<close>

definition precedes :: "'a list \<Rightarrow> 'a \<Rightarrow> 'a \<Rightarrow> bool" where
  "precedes l x y \<longleftrightarrow> (\<exists>us vs. l = us @ x # vs \<and> y \<in> set vs)"

lemma precedes_in: "precedes l x y \<Longrightarrow> x \<in> set l \<and> y \<in> set l"
  by (auto simp: precedes_def)

lemma precedes_append:
  "precedes a x y \<Longrightarrow> precedes (a @ b) x y" "precedes b x y \<Longrightarrow> precedes (a @ b) x y"
  "x \<in> set a \<Longrightarrow> y \<in> set b \<Longrightarrow> precedes (a @ b) x y"
proof -
  show "precedes a x y \<Longrightarrow> precedes (a @ b) x y" by (fastforce simp: precedes_def)
  show "precedes b x y \<Longrightarrow> precedes (a @ b) x y" unfolding precedes_def by (metis append.assoc)
  show "x \<in> set a \<Longrightarrow> y \<in> set b \<Longrightarrow> precedes (a @ b) x y"
    by (auto simp: precedes_def dest!: split_list) (metis append_Cons append_assoc in_set_conv_decomp)
qed

text \<open>A list of drivers to schedule while those of \<open>A\<close> are being inserted: it keeps to the wishes of all
  drivers for Before and After, and apart from the drivers of \<open>R\<close> it holds only drivers that wish to run
  before or after another driver of the list.\<close>

definition good :: "disp_state \<Rightarrow> UINTN set \<Rightarrow> UINTN list \<Rightarrow> UINTN set \<Rightarrow> bool" where
  "good s A new R \<longleftrightarrow>
     distinct new \<and> set new \<subseteq> dep s - A
     \<and> (\<forall>y\<in>set new. \<forall>x\<in>dep s. x \<noteq> y \<longrightarrow> targets s x y \<longrightarrow>
          (Before (drv s x) \<longrightarrow> precedes new x y) \<and> (After (drv s x) \<longrightarrow> precedes new y x))
     \<and> (\<forall>z\<in>set new. z \<in> R \<or> (\<exists>y\<in>set new. targets s z y))"

lemma goodD:
  assumes "good s A new R"
  shows "distinct new" "set new \<subseteq> dep s - A"
    "y \<in> set new \<Longrightarrow> x \<in> dep s \<Longrightarrow> x \<noteq> y \<Longrightarrow> targets s x y \<Longrightarrow>
      (Before (drv s x) \<longrightarrow> precedes new x y) \<and> (After (drv s x) \<longrightarrow> precedes new y x)"
    "z \<in> set new \<Longrightarrow> z \<in> R \<or> (\<exists>y\<in>set new. targets s z y)"
  using assms unfolding good_def by blast+

lemma goodI:
  assumes "distinct new" "set new \<subseteq> dep s - A"
    "\<And>x y. y \<in> set new \<Longrightarrow> x \<in> dep s \<Longrightarrow> x \<noteq> y \<Longrightarrow> targets s x y \<Longrightarrow>
      (Before (drv s x) \<longrightarrow> precedes new x y) \<and> (After (drv s x) \<longrightarrow> precedes new y x)"
    "\<And>z. z \<in> set new \<Longrightarrow> z \<in> R \<or> (\<exists>y\<in>set new. targets s z y)"
  shows "good s A new R"
  using assms unfolding good_def by blast

lemma dep_discovered: "x \<in> dep s \<Longrightarrow> x \<in> set (mDiscoveredList s)"
  by (simp add: dep_def)

lemma good_append:
  assumes st: "disp_static s" and a: "good s A a R" and b: "good (scheduled a s) A b R"
    and R: "\<And>x y. x \<in> R \<Longrightarrow> y \<in> dep s - A \<Longrightarrow> \<not> targets s x y"
  shows "good s A (a @ b) R"
proof -
  note S = static_scheduled [OF st, where new = a]
  have da: "set a \<subseteq> dep s - A" "set b \<subseteq> dep s - A" "set a \<inter> set b = {}" "distinct a" "distinct b"
    using a b S(2) by (auto simp: good_def)
  have t: "targets (scheduled a s) x y = targets s x y" if "x \<in> dep s" "y \<in> dep s" for x y
    using S(3) that by (simp add: dep_discovered)
  have flags: "Before (drv (scheduled a s) x) = Before (drv s x)" "After (drv (scheduled a s) x) = After (drv s x)"
    if "x \<in> dep s" for x using that st by (auto simp: drv_scheduled disp_static_def dep_discovered)
  have ord: "(Before (drv s x) \<longrightarrow> precedes (a @ b) x y) \<and> (After (drv s x) \<longrightarrow> precedes (a @ b) y x)"
    if y: "y \<in> set (a @ b)" and x: "x \<in> dep s" "x \<noteq> y" "targets s x y" for x y
  proof (cases "y \<in> set a")
    case True
    from goodD(3) [OF a True x] show ?thesis
      using precedes_append(1) [of a x y b] precedes_append(1) [of a y x b] by blast
  next
    case False
    then have yb: "y \<in> set b" using y by simp
    show ?thesis
    proof (cases "x \<in> set a")
      case True
      have "y \<in> dep s - A" using yb da by auto
      with R x(3) have "x \<notin> R" by blast
      then obtain z where "z \<in> set a" "targets s x z" using goodD(4) [OF a True] by blast
      then have "z = y" using targets_unique [OF st] x(3) da yb by (meson DiffD1 dep_discovered subsetD)
      with \<open>z \<in> set a\<close> yb da(3) show ?thesis by blast
    next
      case False
      then have "x \<in> dep (scheduled a s)" using x(1) S(2) by simp
      moreover have "targets (scheduled a s) x y" using t x yb da by blast
      ultimately have "(Before (drv s x) \<longrightarrow> precedes b x y) \<and> (After (drv s x) \<longrightarrow> precedes b y x)"
        using goodD(3) [OF b yb _ x(2)] by (simp add: flags [OF x(1)])
      then show ?thesis using precedes_append(2) [of b x y a] precedes_append(2) [of b y x a] by blast
    qed
  qed
  have cl: "z \<in> R \<or> (\<exists>y\<in>set (a @ b). targets s z y)" if "z \<in> set (a @ b)" for z
  proof (cases "z \<in> set a")
    case True
    then show ?thesis using goodD(4) [OF a True] by auto
  next
    case False
    then have z: "z \<in> set b" using that by simp
    have zd: "z \<in> dep s" "\<And>y. y \<in> set b \<Longrightarrow> y \<in> dep s" using z da by auto
    from goodD(4) [OF b z] show ?thesis
    proof
      assume "\<exists>y\<in>set b. targets (scheduled a s) z y"
      then obtain y where "y \<in> set b" "targets (scheduled a s) z y" by blast
      then show ?thesis using t [OF zd(1) zd(2)] by auto
    qed simp
  qed
  show ?thesis
  proof (rule goodI)
    show "distinct (a @ b)" "set (a @ b) \<subseteq> dep s - A" using da by auto
  next
    fix x y
    assume "y \<in> set (a @ b)" "x \<in> dep s" "x \<noteq> y" "targets s x y"
    then show "(Before (drv s x) \<longrightarrow> precedes (a @ b) x y) \<and> (After (drv s x) \<longrightarrow> precedes (a @ b) y x)" by (rule ord)
  next
    fix z
    assume "z \<in> set (a @ b)"
    then show "z \<in> R \<or> (\<exists>y\<in>set (a @ b). targets s z y)" by (rule cl)
  qed
qed

section \<open>The recursion\<close>

text \<open>The drivers under insertion wish to run before or after one another only, as far as drivers that are
  still waiting are concerned.\<close>

definition tied :: "disp_state \<Rightarrow> UINTN set \<Rightarrow> UINTN \<Rightarrow> bool" where
  "tied s A d \<longleftrightarrow> (\<forall>a\<in>insert d A. \<forall>c\<in>dep s. targets s a c \<longrightarrow> c \<in> A)"

definition sched_ok :: "UINTN set \<Rightarrow> UINTN \<Rightarrow> disp_state \<Rightarrow> bool" where
  "sched_ok A d s \<longleftrightarrow> (\<exists>new. CoreInsertOnScheduledQueueWhileProcessingBeforeAndAfter d s = Some (scheduled new s)
     \<and> good s A new {d} \<and> d \<in> set new)"

lemma tied_scheduled:
  assumes "disp_static s" "insert x A \<subseteq> dep s" "tied s A x"
  shows "tied (scheduled n s) A x"
  unfolding tied_def
proof (intro ballI impI)
  fix a c
  assume a: "a \<in> insert x A" and c: "c \<in> dep (scheduled n s)" and t: "targets (scheduled n s) a c"
  have d: "a \<in> dep s" "c \<in> dep s" using a c assms(2) static_scheduled(2) [OF assms(1)] by auto
  then have "targets s a c" using t static_scheduled(3) [OF assms(1)] by (simp add: dep_discovered)
  then show "c \<in> A" using assms(3) a d(2) unfolding tied_def by blast
qed

lemma good_roots: "good s A new R \<Longrightarrow> R \<subseteq> R' \<Longrightarrow> good s A new R'"
  unfolding good_def by blast

lemma good_Nil: "good s A [] R"
  by (simp add: good_def)

text \<open>One driver leaves the discovered state.\<close>

lemma schedule_driver:
  assumes "disp_static s" "disp_queue s" "d \<in> dep s"
  shows "(do { s \<leftarrow> upd_driver d (\<lambda>D. D\<lparr>Dependent := False, Scheduled := True\<rparr>) s; queue_insert d s }) = Some (scheduled [d] s)"
proof -
  obtain D where D: "drivers s d = Some D"
    using assms(1) dep_discovered [OF assms(3)] by (auto simp: disp_static_def)
  have q: "d \<notin> set (mScheduledQueue s)" using assms(2,3) by (auto simp: disp_queue_def)
  have "(drivers s)(d \<mapsto> D\<lparr>Dependent := False, Scheduled := True\<rparr>) =
      (\<lambda>x. if x \<in> set [d] then map_option (\<lambda>D. D\<lparr>Dependent := False, Scheduled := True\<rparr>) (drivers s x) else drivers s x)"
    using D by auto
  then show ?thesis using D q by (simp add: upd_driver_def queue_insert_def scheduled_def)
qed

text \<open>The test of the loops, read on the state before the loop.\<close>

lemma sched_test:
  assumes "disp_static s" "x \<in> set (mDiscoveredList s)" "d \<in> set (mDiscoveredList s)"
    "drivers (scheduled acc s) x = Some D" "drivers (scheduled acc s) d = Some I" "side = Before \<or> side = After"
  shows "side D \<and> Dependent D \<and> x \<noteq> d \<and> FileName I = BeforeAfterGuid D \<longleftrightarrow>
    x \<in> dep s - set acc \<and> side (drv s x) \<and> targets s x d \<and> x \<noteq> d"
proof -
  have l: "drivers s x \<noteq> None" "drivers s d \<noteq> None" using assms(1-3) by (auto simp: disp_static_def)
  have "D = drv (scheduled acc s) x" "I = drv (scheduled acc s) d" using assms(4,5) by (simp_all add: drv_def)
  with l have "side D = side (drv s x)" "FileName I = FileName (drv s d)" "BeforeAfterGuid D = BeforeAfterGuid (drv s x)"
    "Dependent D = (Dependent (drv s x) \<and> x \<notin> set acc)"
    using assms(6) by (auto simp: drv_scheduled)
  then show ?thesis using assms(2,6) by (auto simp: dep_def targets_def)
qed

lemma sched_phase:
  assumes st: "disp_static s" and q: "disp_queue s" and d: "d \<in> set (mDiscoveredList s)" "d \<notin> dep s - A"
    and A: "A \<subseteq> dep s" and side: "side = Before \<or> side = After"
    and H: "\<And>x. x \<in> dep s \<Longrightarrow> side (drv s x) \<Longrightarrow> targets s x d \<Longrightarrow> x \<noteq> d \<Longrightarrow> x \<notin> A \<and> tied s A x"
    and IH: "\<And>x s'. disp_static s' \<Longrightarrow> disp_queue s' \<Longrightarrow> x \<in> dep s' \<Longrightarrow> x \<notin> A \<Longrightarrow> A \<subseteq> dep s' \<Longrightarrow> tied s' A x \<Longrightarrow>
      dep s' \<subseteq> dep s \<Longrightarrow> sched_ok A x s'"
    and xs: "set xs \<subseteq> set (mDiscoveredList s)" and acc: "good s A acc {x. targets s x d \<and> side (drv s x)}"
  shows "\<exists>new. sched_each CoreInsertOnScheduledQueueWhileProcessingBeforeAndAfter side d xs (scheduled acc s) = Some (scheduled new s)
    \<and> good s A new {x. targets s x d \<and> side (drv s x)} \<and> set acc \<subseteq> set new
    \<and> (\<forall>x\<in>set xs. x \<in> dep s \<and> side (drv s x) \<and> targets s x d \<and> x \<noteq> d \<longrightarrow> x \<in> set new)"
  using xs acc
proof (induction xs arbitrary: acc)
  case Nil
  then show ?case by auto
next
  case (Cons x xs)
  let ?R = "{x. targets s x d \<and> side (drv s x)}" and ?t = "scheduled acc s"
  let ?sel = "\<lambda>x. x \<in> dep s \<and> side (drv s x) \<and> targets s x d \<and> x \<noteq> d"
  note S = static_scheduled [OF st, where new = acc]
  have xd: "x \<in> set (mDiscoveredList s)" using Cons.prems(1) by simp
  have "drivers ?t x \<noteq> None" "drivers ?t d \<noteq> None" using st xd d(1) by (auto simp: disp_static_def)
  then obtain D I where D: "drivers ?t x = Some D" "drivers ?t d = Some I" by blast
  note test = sched_test [OF st xd d(1) D side]
  show ?case
  proof (cases "?sel x \<and> x \<notin> set acc")
    case True
    then have x: "x \<in> dep ?t" "x \<notin> A" "tied s A x" using H S(2) by auto
    have At: "A \<subseteq> dep ?t" using A goodD(2) [OF Cons.prems(2)] S(2) by auto
    have "tied ?t A x" by (rule tied_scheduled [OF st _ x(3)]) (use A True in auto)
    from IH [OF S(1) queue_scheduled [OF st q] x(1,2) At this] S(2)
    obtain n where n: "CoreInsertOnScheduledQueueWhileProcessingBeforeAndAfter x ?t = Some (scheduled n ?t)" "good ?t A n {x}" "x \<in> set n"
      by (auto simp: sched_ok_def)
    have R: "\<not> targets s z y" if "z \<in> ?R" "y \<in> dep s - A" for z y
      using targets_unique [OF st, of z y d] that d dep_discovered [of y s] by auto
    have "good s A (acc @ n) ?R"
      using good_append [OF st Cons.prems(2) good_roots [OF n(2)] R] True by auto
    from Cons.IH [OF _ this] Cons.prems(1) obtain new where new:
      "sched_each CoreInsertOnScheduledQueueWhileProcessingBeforeAndAfter side d xs (scheduled (acc @ n) s) = Some (scheduled new s)"
      "good s A new ?R" "set (acc @ n) \<subseteq> set new" "\<forall>x\<in>set xs. ?sel x \<longrightarrow> x \<in> set new" by auto
    then show ?thesis using D test True n by (auto simp: scheduled_append)
  next
    case False
    from Cons.IH [OF _ Cons.prems(2)] Cons.prems(1) obtain new where
      "sched_each CoreInsertOnScheduledQueueWhileProcessingBeforeAndAfter side d xs ?t = Some (scheduled new s)"
      "good s A new ?R" "set acc \<subseteq> set new" "\<forall>x\<in>set xs. ?sel x \<longrightarrow> x \<in> set new" by auto
    then show ?thesis using D test False by auto
  qed
qed

text \<open>The insertion, unfolded into its three phases.\<close>

lemma insert_phases:
  "CoreInsertOnScheduledQueueWhileProcessingBeforeAndAfter d s =
    Option.bind (sched_each CoreInsertOnScheduledQueueWhileProcessingBeforeAndAfter Before d (mDiscoveredList s) s) (\<lambda>s.
    Option.bind (do { s \<leftarrow> upd_driver d (\<lambda>D. D\<lparr>Dependent := False, Scheduled := True\<rparr>) s; queue_insert d s }) (\<lambda>s.
    sched_each CoreInsertOnScheduledQueueWhileProcessingBeforeAndAfter After d (mDiscoveredList s) s))"
  by (subst CoreInsertOnScheduledQueueWhileProcessingBeforeAndAfter.simps) (simp add: Option.bind_assoc)

lemma before_roots:
  assumes st: "disp_static s" and B: "good s A B {x. targets s x d \<and> Before (drv s x)}"
    and x: "x \<in> set B" and y: "y \<in> dep s" "y \<notin> set B" "targets s x y"
  shows "Before (drv s x)" "d \<in> dep s \<Longrightarrow> y = d"
proof -
  have "\<not> targets s x z" if "z \<in> set B" for z
    using targets_unique [OF st _ y(3), of z] that goodD(2) [OF B] y(1,2) by (auto dest!: dep_discovered)
  then have t: "targets s x d" "Before (drv s x)" using goodD(4) [OF B x] by auto
  then show "Before (drv s x)" "d \<in> dep s \<Longrightarrow> y = d"
    using targets_unique [OF st y(3), of d] y(1) by (auto simp: dep_discovered)
qed

text \<open>The three parts of the list one insertion makes: the drivers before \<open>d\<close>, \<open>d\<close>, and the drivers after it.\<close>

lemma good_insert:
  assumes st: "disp_static s" and d: "d \<in> dep s" "d \<notin> A" "tied s A d"
    and B: "good s (insert d A) B {x. targets s x d \<and> Before (drv s x)}"
      "\<And>x. x \<in> dep s \<Longrightarrow> Before (drv s x) \<Longrightarrow> targets s x d \<Longrightarrow> x \<noteq> d \<Longrightarrow> x \<in> set B"
    and C: "good (scheduled (B @ [d]) s) A C {x. targets s x d \<and> After (drv s x)}"
      "\<And>x. x \<in> dep s - set (B @ [d]) \<Longrightarrow> After (drv s x) \<Longrightarrow> targets s x d \<Longrightarrow> x \<in> set C"
  shows "good s A (B @ [d] @ C) {d}"
proof -
  let ?s2 = "scheduled (B @ [d]) s"
  note S = static_scheduled [OF st, where new = "B @ [d]"]
  have BA: "set B \<subseteq> dep s - insert d A" "distinct B" using goodD(1,2) [OF B(1)] by auto
  have CA: "set C \<subseteq> dep s - A - set (B @ [d])" "distinct C" using goodD(1,2) [OF C(1)] S(2) by auto
  have same: "targets ?s2 x y = targets s x y" "Before (drv ?s2 x) = Before (drv s x)" "After (drv ?s2 x) = After (drv s x)"
    if "x \<in> dep s" "y \<in> dep s" for x y
    using S(3) that st by (auto simp: dep_discovered drv_scheduled disp_static_def)
  have Broot: "Before (drv s x) \<and> targets s x d \<or> (\<exists>y\<in>set B. targets s x y)" if "x \<in> set B" for x
    using goodD(4) [OF B(1) that] by auto
  have noAfter: "x \<notin> set B" if "After (drv s x)" "targets s x d" "x \<in> dep s" for x
    using before_roots [OF st B(1) _ d(1) _ that(2)] BA st that(1) dep_discovered [OF that(3)] by (auto simp: disp_static_def)
  have ord: "(Before (drv s x) \<longrightarrow> precedes (B @ [d] @ C) x y) \<and> (After (drv s x) \<longrightarrow> precedes (B @ [d] @ C) y x)"
    if y: "y \<in> set (B @ [d] @ C)" and x: "x \<in> dep s" "x \<noteq> y" "targets s x y" for x y
  proof -
    from y consider (b) "y \<in> set B" | (d) "y = d" | (c) "y \<in> set C" by auto
    then show ?thesis
    proof cases
      case b
      from goodD(3) [OF B(1) b x] show ?thesis
        using precedes_append(1) [of B x y "[d] @ C"] precedes_append(1) [of B y x "[d] @ C"] by blast
    next
      case d
      have "precedes (B @ [d] @ C) x d" if "Before (drv s x)"
        using precedes_append(3) [of x B d "[d] @ C"] B(2) [OF x(1) that] x d by simp
      moreover have "precedes ((B @ [d]) @ C) d x" if "After (drv s x)"
        using precedes_append(3) [of d "B @ [d]" x C] C(2) [OF _ that] noAfter [OF that] x d by simp
      ultimately show ?thesis using d by simp
    next
      case c
      then have yd: "y \<in> dep s" "y \<notin> A" "y \<notin> set B" "y \<noteq> d" using CA by auto
      have "x \<notin> set B" using before_roots [OF st B(1) _ yd(1,3) x(3)] yd(4) \<open>d \<in> dep s\<close> by auto
      moreover have "x \<noteq> d" using \<open>tied s A d\<close> x(3) yd(1,2) by (auto simp: tied_def)
      ultimately have "x \<in> dep ?s2" using x(1) S(2) by simp
      then have "(Before (drv s x) \<longrightarrow> precedes C x y) \<and> (After (drv s x) \<longrightarrow> precedes C y x)"
        using goodD(3) [OF C(1) c _ x(2)] same [OF x(1) yd(1)] x(3) by simp
      then show ?thesis
        using precedes_append(2) [of C x y "B @ [d]"] precedes_append(2) [of C y x "B @ [d]"] by simp
    qed
  qed
  have cl: "z \<in> {d} \<or> (\<exists>y\<in>set (B @ [d] @ C). targets s z y)" if z: "z \<in> set (B @ [d] @ C)" for z
  proof -
    from z consider "z \<in> set B" | "z = d" | "z \<in> set C" by auto
    then show ?thesis
    proof cases
      case 1
      with Broot show ?thesis by auto
    next
      case 3
      then have zd: "z \<in> dep s" using CA by auto
      from goodD(4) [OF C(1) 3] show ?thesis
      proof
        assume "\<exists>y\<in>set C. targets ?s2 z y"
        then obtain y where y: "y \<in> set C" "targets ?s2 z y" by blast
        moreover have "y \<in> dep s" using CA y(1) by auto
        ultimately show ?thesis using same(1) [OF zd] by auto
      qed auto
    qed simp
  qed
  show ?thesis
  proof (rule goodI)
    show "distinct (B @ [d] @ C)" "set (B @ [d] @ C) \<subseteq> dep s - A" using BA CA d by auto
  next
    fix x y
    assume "y \<in> set (B @ [d] @ C)" "x \<in> dep s" "x \<noteq> y" "targets s x y"
    then show "(Before (drv s x) \<longrightarrow> precedes (B @ [d] @ C) x y) \<and> (After (drv s x) \<longrightarrow> precedes (B @ [d] @ C) y x)" by (rule ord)
  next
    fix z
    assume "z \<in> set (B @ [d] @ C)"
    then show "z \<in> {d} \<or> (\<exists>y\<in>set (B @ [d] @ C). targets s z y)" by (rule cl)
  qed
qed

end
