(* ===== verification/Dispatch_Insert.thy ===== *)
theory Dispatch_Insert
  imports Dispatch_Order
begin

text \<open>The insertion of a driver into the queue ends and makes a good order.\<close>

lemma tied_inner:
  assumes st: "disp_static s" and t: "tied s A d" and d: "d \<in> set (mDiscoveredList s)"
    and x: "targets s x d"
  shows "tied s (insert d A) x"
  unfolding tied_def
proof (intro ballI impI)
  fix a c
  assume a: "a \<in> insert x (insert d A)" and c: "c \<in> dep s" "targets s a c"
  then show "c \<in> insert d A"
  proof (cases "a \<in> insert d A")
    case True
    then show ?thesis using t c unfolding tied_def by blast
  next
    case False
    then have "targets s x c" using a c by auto
    then show ?thesis using targets_unique [OF st _ x _ d] c(1) by (auto simp: dep_discovered)
  qed
qed

lemma tied_after:
  assumes st: "disp_static s" and ti: "tied s A d" and d: "d \<in> dep s" and A: "A \<subseteq> dep s" and n: "d \<in> set n"
    and x: "x \<in> dep (scheduled n s)" "targets (scheduled n s) x d"
  shows "tied (scheduled n s) A x"
  unfolding tied_def
proof (intro ballI impI)
  fix a c
  assume a: "a \<in> insert x A" and c: "c \<in> dep (scheduled n s)" "targets (scheduled n s) a c"
  note S = static_scheduled [OF st, where new = n]
  have w: "a \<in> dep s" "x \<in> dep s" "c \<in> dep s" using a A x(1) c(1) S(2) by auto
  then have t: "targets s a c" "targets s x d" using c(2) x(2) S(3) d by (auto simp: dep_discovered)
  show "c \<in> A"
  proof (cases "a \<in> A")
    case True
    then show ?thesis using ti t(1) w(3) unfolding tied_def by blast
  next
    case False
    then have "c = d" using targets_unique [OF st, of x c d] a t d w(3) by (auto simp: dep_discovered)
    then show ?thesis using c(1) n S(2) by simp
  qed
qed

lemma tied_not_in: "tied s A d \<Longrightarrow> d \<in> dep s \<Longrightarrow> d \<notin> A \<Longrightarrow> targets s x d \<Longrightarrow> x \<notin> A"
  unfolding tied_def by blast

lemma finite_dep [simp]: "finite (dep s)"
  by (simp add: dep_def)

lemma fewer_waiting:
  assumes "x \<in> dep s'" "x \<notin> A'" "dep s' - A' \<subseteq> dep s - A"
  shows "card (dep s' - insert x A') < card (dep s - A)"
  using assms by (intro psubset_card_mono) auto

lemma good_waiting_roots:
  assumes "good s A new R" "R \<inter> dep s \<subseteq> R'"
  shows "good s A new R'"
  using goodD [OF assms(1)] assms(2) by (intro goodI) blast+

lemma insert_sched_ok:
  assumes "disp_static s" "disp_queue s" "d \<in> dep s" "d \<notin> A" "A \<subseteq> dep s" "tied s A d"
  shows "sched_ok A d s"
  using assms
proof (induction "card (dep s - insert d A)" arbitrary: s A d rule: less_induct)
  case less
  let ?ins = CoreInsertOnScheduledQueueWhileProcessingBeforeAndAfter and ?R = "\<lambda>side. {x. targets s x d \<and> side (drv s x)}"
  note st = less.prems(1) and q = less.prems(2) and d = less.prems(3,4) and A = less.prems(5) and ti = less.prems(6)
  have dd: "d \<in> set (mDiscoveredList s)" using d(1) by (rule dep_discovered)
  have IH: "sched_ok A' x s'"
    if "disp_static s'" "disp_queue s'" "x \<in> dep s'" "x \<notin> A'" "A' \<subseteq> dep s'" "tied s' A' x"
      "dep s' - A' \<subseteq> dep s - insert d A" for x s' A'
    by (rule less.hyps [OF fewer_waiting [OF that(3,4,7)] that(1-6)])
  have "\<exists>B. sched_each ?ins Before d (mDiscoveredList s) (scheduled [] s) = Some (scheduled B s)
    \<and> good s (insert d A) B (?R Before) \<and> set [] \<subseteq> set B
    \<and> (\<forall>x\<in>set (mDiscoveredList s). x \<in> dep s \<and> Before (drv s x) \<and> targets s x d \<and> x \<noteq> d \<longrightarrow> x \<in> set B)"
  proof (rule sched_phase [OF st q dd])
    show "x \<notin> insert d A \<and> tied s (insert d A) x" if "x \<in> dep s" "Before (drv s x)" "targets s x d" "x \<noteq> d" for x
      using tied_inner [OF st ti dd that(3)] tied_not_in [OF ti d that(3)] that(4) by simp
  next
    fix x s'
    assume a: "disp_static s'" "disp_queue s'" "x \<in> dep s'" "x \<notin> insert d A" "insert d A \<subseteq> dep s'" "tied s' (insert d A) x"
      and "dep s' \<subseteq> dep s"
    then show "sched_ok (insert d A) x s'" by (intro IH [OF a]) blast
  qed (use d A good_Nil in auto)
  then obtain B where B: "sched_each ?ins Before d (mDiscoveredList s) s = Some (scheduled B s)" "good s (insert d A) B (?R Before)"
    "\<And>x. x \<in> dep s \<Longrightarrow> Before (drv s x) \<Longrightarrow> targets s x d \<Longrightarrow> x \<noteq> d \<Longrightarrow> x \<in> set B"
    by (auto simp: dep_discovered)
  let ?s2 = "scheduled (B @ [d]) s"
  note S = static_scheduled [OF st, where new = B] and S2 = static_scheduled [OF st, where new = "B @ [d]"]
  have "d \<in> dep (scheduled B s)" using d(1) goodD(2) [OF B(2)] S(2) by auto
  note mid = schedule_driver [OF S(1) queue_scheduled [OF st q] this, unfolded scheduled_append]
  have same: "targets ?s2 x y = targets s x y" if "x \<in> dep s" "y \<in> set (mDiscoveredList s)" for x y
    using S2(3) [OF dep_discovered] that by simp
  have after: "After (drv ?s2 x) = After (drv s x)" if "x \<in> dep s" for x
    using that st by (auto simp: drv_scheduled disp_static_def dep_discovered)
  have A2: "A \<subseteq> dep ?s2" "d \<notin> dep ?s2" "dep ?s2 \<subseteq> dep s" using A d goodD(2) [OF B(2)] S2(2) by auto
  have "\<exists>C. sched_each ?ins After d (mDiscoveredList s) (scheduled [] ?s2) = Some (scheduled C ?s2)
    \<and> good ?s2 A C {x. targets ?s2 x d \<and> After (drv ?s2 x)} \<and> set [] \<subseteq> set C
    \<and> (\<forall>x\<in>set (mDiscoveredList s). x \<in> dep ?s2 \<and> After (drv ?s2 x) \<and> targets ?s2 x d \<and> x \<noteq> d \<longrightarrow> x \<in> set C)"
  proof (rule sched_phase [OF S2(1) queue_scheduled [OF st q]])
    show "x \<notin> A \<and> tied ?s2 A x" if "x \<in> dep ?s2" "After (drv ?s2 x)" "targets ?s2 x d" "x \<noteq> d" for x
      using tied_after [OF st ti d(1) A, of "B @ [d]" x] tied_not_in [OF ti d, of x] same [of x d] that(1,3) A2(3) dd by auto
  next
    fix x s'
    assume a: "disp_static s'" "disp_queue s'" "x \<in> dep s'" "x \<notin> A" "A \<subseteq> dep s'" "tied s' A x"
      and "dep s' \<subseteq> dep ?s2"
    then show "sched_ok A x s'" using A2 by (intro IH [OF a]) blast
  qed (use dd A2 good_Nil in auto)
  then obtain C where C: "sched_each ?ins After d (mDiscoveredList s) ?s2 = Some (scheduled C ?s2)"
    "good ?s2 A C {x. targets ?s2 x d \<and> After (drv ?s2 x)}"
    "\<And>x. x \<in> dep ?s2 \<Longrightarrow> After (drv ?s2 x) \<Longrightarrow> targets ?s2 x d \<Longrightarrow> x \<noteq> d \<Longrightarrow> x \<in> set C"
    using A2(3) by (auto dest: dep_discovered)
  have "good s A (B @ [d] @ C) {d}"
  proof (rule good_insert [OF st d ti B(2,3)])
    show "good ?s2 A C (?R After)" using A2(3) by (intro good_waiting_roots [OF C(2)]) (auto simp: same dd after)
  next
    fix x
    assume x: "x \<in> dep s - set (B @ [d])" "After (drv s x)" "targets s x d"
    then show "x \<in> set C" using S2(2) by (intro C(3)) (auto simp: same dd after)
  qed
  moreover have "?ins d s = Some (scheduled (B @ [d] @ C) s)"
    by (simp only: insert_phases B(1) mid C(1) Option.bind.bind_lunit scheduled_simps scheduled_append append_assoc)
  ultimately show ?case unfolding sched_ok_def by auto
qed

end
