(* ===== verification/Depex_Correct.thy ===== *)
theory Depex_Correct
  imports Depex_Eval Hand_Results
begin

text \<open>
  Dependency expressions as terms, their code, and that the evaluator computes the value of the term
  whose code it is given.
\<close>

section \<open>Looking for a protocol\<close>

definition installed :: "hand_db \<Rightarrow> EFI_GUID \<Rightarrow> bool" where
  "installed h g \<longleftrightarrow> (case find_entry g h of None \<Rightarrow> False | Some e \<Rightarrow> Entry_Protocols e \<noteq> [])"

text \<open>The marks of the handles are older than the next \<open>n\<close> requests.\<close>

definition marks_old :: "nat \<Rightarrow> hand_db \<Rightarrow> bool" where
  "marks_old n h \<longleftrightarrow>
     (\<forall>a H. handles h a = Some H \<longrightarrow> LocateRequest H \<le> mEfiLocateHandleRequest h)
     \<and> unat (mEfiLocateHandleRequest h) + n < 2 ^ 64"

lemma installed_cong: "mProtocolDatabase h' = mProtocolDatabase h \<Longrightarrow> installed h' = installed h"
  by (simp add: installed_def find_entry_def fun_eq_iff)

text \<open>The database after a search: nothing but the marks and the number of the request has changed.\<close>

definition searched :: "hand_db \<Rightarrow> hand_db \<Rightarrow> bool" where
  "searched h h' \<longleftrightarrow> mProtocolDatabase h' = mProtocolDatabase h \<and> prots h' = prots h \<and> pool h' = pool h
     \<and> notifies h' = notifies h \<and> mEfiLocateHandleRequest h' = mEfiLocateHandleRequest h + 1
     \<and> (\<forall>a H'. handles h' a = Some H' \<longrightarrow> (\<exists>H. handles h a = Some H
          \<and> (LocateRequest H' = LocateRequest H \<or> LocateRequest H' = mEfiLocateHandleRequest h + 1)))"

lemma next_request: "marks_old (Suc n) h \<Longrightarrow> unat (mEfiLocateHandleRequest h + 1) = unat (mEfiLocateHandleRequest h) + 1"
  by (simp add: marks_old_def unat_word_ariths)

lemma marks_old_searched:
  assumes "marks_old (Suc n) h" "searched h h'"
  shows "marks_old n h'"
proof -
  let ?m = "mEfiLocateHandleRequest h"
  note u = next_request [OF assms(1)]
  have le: "?m \<le> ?m + 1" using u by (simp add: word_le_nat_alt)
  have "LocateRequest H' \<le> ?m + 1" if "handles h' a = Some H'" for a H'
  proof -
    from assms(2) that obtain H where "handles h a = Some H"
      "LocateRequest H' = LocateRequest H \<or> LocateRequest H' = ?m + 1" unfolding searched_def by blast
    moreover from this(1) have "LocateRequest H \<le> ?m" using assms(1) by (simp add: marks_old_def)
    ultimately show ?thesis using le by auto
  qed
  moreover have "mEfiLocateHandleRequest h' = ?m + 1" using assms(2) by (simp add: searched_def)
  ultimately show ?thesis using assms(1) u by (simp add: marks_old_def)
qed

lemma CoreLocateProtocol_installed:
  assumes "hand_free t h" "t \<le> TPL_NOTIFY_LOCK" "quiet sv" "marks_old (Suc n) h"
  shows "\<exists>i h'. CoreLocateProtocol sv (Some g) NULL True h =
      Some (if installed h g then EFI_SUCCESS else EFI_NOT_FOUND, Some i, h') \<and> searched h h' \<and> hand_free t h'"
proof -
  let ?h = "(hand_locked h)\<lparr>mEfiLocateHandleRequest := mEfiLocateHandleRequest h + 1\<rparr>"
  have nl: "\<not> locked h" and w: "hand_wf h" using assms(1) by (auto simp: hand_free_def)
  have hh: "hand_held t ?h" using held_request [OF locked_held [OF assms(1,2)]] by simp
  show ?thesis
  proof (cases "find_entry g h")
    case None
    then have "CoreLocateProtocol sv (Some g) NULL True h = Some (EFI_NOT_FOUND, Some NULL, hand_unlocked ?h)"
      using nl by (simp add: CoreLocateProtocol_def acquire_free [OF assms(1,2)] CoreFindProtocolEntry_def Let_def
          release_free [OF assms(3)] find_entry_def)
    then show ?thesis using unlocked_free [OF hh] None by (auto simp: installed_def searched_def)
  next
    case (Some e)
    have fe: "find_entry g ?h = Some e" using Some by (simp add: find_entry_def)
    let ?pos = "\<lparr>SearchKey = NULL, Position = None, ProtEntry = g\<rparr>"
    have wk: "walking g [] (Entry_Protocols e) ?pos ?h"
      by (rule walking_start [OF w Some]) (simp add: same_wf_def)
    have m: "marked {} ?h"
      unfolding marked_def
    proof (intro allI impI)
      fix a H
      assume "handles ?h a = Some H"
      then have "LocateRequest H \<le> mEfiLocateHandleRequest h" using assms(4) by (simp add: marks_old_def)
      with next_request [OF assms(4)] show "LocateRequest H = mEfiLocateHandleRequest ?h \<longleftrightarrow> a \<in> {}"
        by (auto simp: word_le_nat_alt)
    qed
    show ?thesis
    proof (cases "Entry_Protocols e")
      case Nil
      then have "next_by_protocol NULL ?pos ?h = Some (NULL, NULL, ?pos\<lparr>Position := None\<rparr>, ?h)"
        using next_by_protocol_Nil wk by simp
      then have "CoreLocateProtocol sv (Some g) NULL True h = Some (EFI_NOT_FOUND, Some NULL, hand_unlocked ?h)"
        using nl fe by (simp add: CoreLocateProtocol_def acquire_free [OF assms(1,2)] CoreFindProtocolEntry_def Let_def
          release_free [OF assms(3)] CoreGetNextLocateByProtocol_def)
      then show ?thesis using unlocked_free [OF hh] Some Nil by (auto simp: installed_def searched_def)
    next
      case (Cons p ps)
      let ?h2 = "mark (owner ?h p) ?h"
      from Cons wk have wk': "walking g [] (p # ps) ?pos ?h" by simp
      from next_by_protocol_Cons [OF wk' m, of NULL] obtain i pos' where
        n: "next_by_protocol NULL ?pos ?h = Some (owner ?h p, i, pos', ?h2)" by simp
      have o: "owner ?h p \<noteq> NULL" using wk' by (simp add: walking_def)
      have h2: "hand_held t ?h2" using mark_all_held [OF hh, of "[owner ?h p]"] by (simp add: mark_all_def)
      have "CoreLocateProtocol sv (Some g) NULL True h = Some (EFI_SUCCESS, Some i, hand_unlocked ?h2)"
        using nl fe n o by (simp add: CoreLocateProtocol_def acquire_free [OF assms(1,2)] CoreFindProtocolEntry_def Let_def
          release_free [OF assms(3)] CoreGetNextLocateByProtocol_def)
      moreover have "searched h (hand_unlocked ?h2)"
        by (auto simp: searched_def mark_def split: if_splits)
      ultimately show ?thesis using unlocked_free [OF h2] Some Cons by (auto simp: installed_def)
    qed
  qed
qed

section \<open>Terms and their code\<close>

datatype depex = Dep_Push EFI_GUID | Dep_True | Dep_False | Dep_Not depex | Dep_And depex depex | Dep_Or depex depex

primrec depex_value :: "(EFI_GUID \<Rightarrow> bool) \<Rightarrow> depex \<Rightarrow> bool" where
  "depex_value inst (Dep_Push g) = inst g"
| "depex_value inst Dep_True = True"
| "depex_value inst Dep_False = False"
| "depex_value inst (Dep_Not a) = (\<not> depex_value inst a)"
| "depex_value inst (Dep_And a b) = (depex_value inst a \<and> depex_value inst b)"
| "depex_value inst (Dep_Or a b) = (depex_value inst a \<or> depex_value inst b)"

primrec depex_ops :: "depex \<Rightarrow> nat" where
  "depex_ops (Dep_Push g) = 1"
| "depex_ops Dep_True = 1"
| "depex_ops Dep_False = 1"
| "depex_ops (Dep_Not a) = depex_ops a + 1"
| "depex_ops (Dep_And a b) = depex_ops a + depex_ops b + 1"
| "depex_ops (Dep_Or a b) = depex_ops a + depex_ops b + 1"

text \<open>Postfix code; the \<open>PUSH\<close> of an installed protocol may have been replaced.\<close>

inductive depex_code :: "(EFI_GUID \<Rightarrow> bool) \<Rightarrow> depex \<Rightarrow> UINT8 list \<Rightarrow> bool" for inst where
  push: "length g = 16 \<Longrightarrow> depex_code inst (Dep_Push g) (EFI_DEP_PUSH # g)"
| replaced: "length g = 16 \<Longrightarrow> inst g \<Longrightarrow> depex_code inst (Dep_Push g) (EFI_DEP_REPLACE_TRUE # g)"
| true: "depex_code inst Dep_True [EFI_DEP_TRUE]"
| false: "depex_code inst Dep_False [EFI_DEP_FALSE]"
| neg: "depex_code inst a xs \<Longrightarrow> depex_code inst (Dep_Not a) (xs @ [EFI_DEP_NOT])"
| conj: "depex_code inst a xs \<Longrightarrow> depex_code inst b ys \<Longrightarrow> depex_code inst (Dep_And a b) (xs @ ys @ [EFI_DEP_AND])"
| disj: "depex_code inst a xs \<Longrightarrow> depex_code inst b ys \<Longrightarrow> depex_code inst (Dep_Or a b) (xs @ ys @ [EFI_DEP_OR])"

code_pred depex_code .

definition room :: "nat \<Rightarrow> disp_state \<Rightarrow> bool" where
  "room n s \<longleftrightarrow> NULL \<notin> set (pool (hand s)) \<and> n \<le> length (pool (hand s))"

lemma PushBool_room:
  assumes "room (Suc n) s"
  shows "\<exists>s'. PushBool v s = (EFI_SUCCESS, s') \<and> mDepexEvaluationStack s' = v # mDepexEvaluationStack s
    \<and> drivers s' = drivers s \<and> room n s' \<and> hand s' = (hand s)\<lparr>pool := pool (hand s')\<rparr>"
  using assms
  by (auto simp: PushBool_def GrowDepexStack_def hand_alloc_def room_def Let_def split: list.splits)

section \<open>The evaluator\<close>

named_theorems opcodes
declare EFI_DEP_BEFORE_def [opcodes] EFI_DEP_AFTER_def [opcodes] EFI_DEP_PUSH_def [opcodes] EFI_DEP_AND_def [opcodes]
  EFI_DEP_OR_def [opcodes] EFI_DEP_NOT_def [opcodes] EFI_DEP_TRUE_def [opcodes] EFI_DEP_FALSE_def [opcodes]
  EFI_DEP_END_def [opcodes] EFI_DEP_SOR_def [opcodes] EFI_DEP_REPLACE_TRUE_def [opcodes]

lemma byte_at_code [simp]: "byte_at (pre @ x # post) (length pre) = Some x"
  by (simp add: byte_at_def)

lemma guid_at_code [simp]: "length g = 16 \<Longrightarrow> guid_at (pre @ x # g @ post) (Suc (length pre)) = Some g"
  by (simp add: guid_at_def)

text \<open>The code \<open>bs\<close> lies in the buffer of the driver; the database is as it was but for searches.\<close>

definition loaded :: "UINTN \<Rightarrow> UINT8 list \<Rightarrow> disp_state \<Rightarrow> bool" where
  "loaded d bs s \<longleftrightarrow> (\<exists>D. drivers s d = Some D \<and> Depex D = Some bs \<and> DepexSize D = length bs)"

definition ready :: "nat \<Rightarrow> hand_db \<Rightarrow> nat \<Rightarrow> disp_state \<Rightarrow> bool" where
  "ready t h n s \<longleftrightarrow> hand_free t (hand s) \<and> mProtocolDatabase (hand s) = mProtocolDatabase h
     \<and> marks_old n (hand s) \<and> room n s"

lemma ready_push:
  assumes "ready t h (Suc n) s"
  shows "\<exists>s'. PushBool v s = (EFI_SUCCESS, s') \<and> mDepexEvaluationStack s' = v # mDepexEvaluationStack s
    \<and> ready t h n s' \<and> loaded d bs s' = loaded d bs s"
proof -
  obtain s' where s': "PushBool v s = (EFI_SUCCESS, s')" "mDepexEvaluationStack s' = v # mDepexEvaluationStack s"
    "drivers s' = drivers s" "room n s'" and h: "hand s' = (hand s)\<lparr>pool := pool (hand s')\<rparr>"
    using PushBool_room [of n s v] assms by (auto simp: ready_def)
  have f: "hand_free t (hand s)" using assms by (simp add: ready_def)
  have "hand_free t ((hand s)\<lparr>pool := p\<rparr>)" for p
    by (rule hand_free_same [OF f]) (simp_all add: same_wf_def same_lock_def)
  with h have "hand_free t (hand s')" by metis
  moreover have "marks_old n (hand s')" "mProtocolDatabase (hand s') = mProtocolDatabase h"
    using assms by (subst h, simp add: ready_def marks_old_def)+
  ultimately show ?thesis using s' by (auto simp: ready_def loaded_def)
qed

lemma ready_less: "ready t h n s \<Longrightarrow> m \<le> n \<Longrightarrow> ready t h m s"
  by (auto simp: ready_def marks_old_def room_def)

lemma ready_stack [simp]: "ready t h n (s\<lparr>mDepexEvaluationStack := vs\<rparr>) = ready t h n s"
  "loaded d bs (s\<lparr>mDepexEvaluationStack := vs\<rparr>) = loaded d bs s"
  by (simp_all add: ready_def room_def loaded_def)

text \<open>One instruction at the offset of \<open>pre\<close>.\<close>

lemma depex_loop_steps:
  "loaded d (pre @ EFI_DEP_AND # post) s \<Longrightarrow> depex_loop sv d (length pre) s =
     (case depex_binary (\<and>) s of (Status, s) \<Rightarrow> if EFI_ERROR Status then Some (False, s) else depex_loop sv d (length pre + 1) s)"
  "loaded d (pre @ EFI_DEP_OR # post) s \<Longrightarrow> depex_loop sv d (length pre) s =
     (case depex_binary (\<or>) s of (Status, s) \<Rightarrow> if EFI_ERROR Status then Some (False, s) else depex_loop sv d (length pre + 1) s)"
  "loaded d (pre @ EFI_DEP_NOT # post) s \<Longrightarrow> depex_loop sv d (length pre) s =
     (case depex_not s of (Status, s) \<Rightarrow> if EFI_ERROR Status then Some (False, s) else depex_loop sv d (length pre + 1) s)"
  "loaded d (pre @ EFI_DEP_TRUE # post) s \<Longrightarrow> depex_loop sv d (length pre) s =
     (case PushBool True s of (Status, s) \<Rightarrow> if EFI_ERROR Status then Some (False, s) else depex_loop sv d (length pre + 1) s)"
  "loaded d (pre @ EFI_DEP_FALSE # post) s \<Longrightarrow> depex_loop sv d (length pre) s =
     (case PushBool False s of (Status, s) \<Rightarrow> if EFI_ERROR Status then Some (False, s) else depex_loop sv d (length pre + 1) s)"
  "loaded d (pre @ EFI_DEP_END # post) s \<Longrightarrow> depex_loop sv d (length pre) s =
     (case PopBool s of (Status, Operator, s) \<Rightarrow> if EFI_ERROR Status then Some (False, s) else Some (Operator, s))"
  "loaded d (pre @ EFI_DEP_PUSH # post) s \<Longrightarrow> depex_loop sv d (length pre) s = do {
     (Status, s) \<leftarrow> depex_push sv d (length pre) (pre @ EFI_DEP_PUSH # post) s;
     if EFI_ERROR Status then Some (False, s) else depex_loop sv d (length pre + 17) s }"
  "loaded d (pre @ EFI_DEP_REPLACE_TRUE # post) s \<Longrightarrow> depex_loop sv d (length pre) s = do {
     _ \<leftarrow> guid_at (pre @ EFI_DEP_REPLACE_TRUE # post) (length pre + 1);
     (case PushBool True s of (Status, s) \<Rightarrow> if EFI_ERROR Status then Some (False, s) else depex_loop sv d (length pre + 17) s) }"
  "loaded d (EFI_DEP_SOR # post) s \<Longrightarrow> depex_loop sv d 0 s = depex_loop sv d 1 s"
  by (subst depex_loop.simps, clarsimp simp: loaded_def opcodes byte_at_def)+

text \<open>The search behind \<open>PUSH\<close>.\<close>

lemma depex_push_step:
  assumes "ready t h (Suc n) s" "t \<le> TPL_NOTIFY_LOCK" "quiet sv" "length g = 16"
    "loaded d (pre @ EFI_DEP_PUSH # g @ post) s"
  shows "\<exists>op s'. depex_push sv d (length pre) (pre @ EFI_DEP_PUSH # g @ post) s = Some (EFI_SUCCESS, s')
    \<and> depex_code (installed h) (Dep_Push g) (op # g) \<and> loaded d (pre @ op # g @ post) s' \<and> ready t h n s'
    \<and> mDepexEvaluationStack s' = installed h g # mDepexEvaluationStack s"
proof -
  from assms(1) have r: "hand_free t (hand s)" "mProtocolDatabase (hand s) = mProtocolDatabase h" "marks_old (Suc n) (hand s)"
    "room (Suc n) s" by (simp_all add: ready_def)
  obtain i h' where l: "CoreLocateProtocol sv (Some g) NULL True (hand s) =
      Some (if installed h g then EFI_SUCCESS else EFI_NOT_FOUND, Some i, h')" "searched (hand s) h'" "hand_free t h'"
    using CoreLocateProtocol_installed [OF r(1) assms(2,3) r(3), of g] installed_cong [OF r(2)] by auto
  let ?s = "s\<lparr>hand := h'\<rparr>"
  have old: "marks_old n h'" by (rule marks_old_searched [OF r(3) l(2)])
  have rd: "ready t h n s'" if "PushBool v (?s\<lparr>drivers := ds\<rparr>) = (EFI_SUCCESS, s')" for v ds s'
  proof -
    have "room (Suc n) (?s\<lparr>drivers := ds\<rparr>)" using r(4) l(2) by (simp add: room_def searched_def)
    from PushBool_room [OF this, of v] that have "room n s'" and e: "hand s' = h'\<lparr>pool := pool (hand s')\<rparr>" by auto
    have "hand_free t (h'\<lparr>pool := p\<rparr>)" for p
      by (rule hand_free_same [OF l(3)]) (simp_all add: same_wf_def same_lock_def)
    with e have "hand_free t (hand s')" by metis
    moreover have "marks_old n (hand s')" "mProtocolDatabase (hand s') = mProtocolDatabase h"
      using old l(2) r(2) by (subst e, simp add: marks_old_def searched_def)+
    ultimately show ?thesis using \<open>room n s'\<close> by (simp add: ready_def)
  qed
  obtain D where D: "drivers s d = Some D" "Depex D = Some (pre @ EFI_DEP_PUSH # g @ post)"
    "DepexSize D = length (pre @ EFI_DEP_PUSH # g @ post)" using assms(5) by (auto simp: loaded_def)
  have rm: "room (Suc n) (?s\<lparr>drivers := ds\<rparr>)" for ds using r(4) l(2) by (simp add: room_def searched_def)
  show ?thesis
  proof (cases "installed h g")
    case False
    from PushBool_room [OF rm [of "drivers s"], of False] obtain s' where p: "PushBool False ?s = (EFI_SUCCESS, s')"
      "mDepexEvaluationStack s' = False # mDepexEvaluationStack s" "drivers s' = drivers s" by auto
    have "depex_push sv d (length pre) (pre @ EFI_DEP_PUSH # g @ post) s = Some (EFI_SUCCESS, s')"
      using False l(1) p(1) assms(4) by (simp add: depex_push_def Let_def)
    moreover have "ready t h n s'" using rd [of False "drivers s" s'] p(1) by simp
    ultimately show ?thesis
      using depex_code.push [OF assms(4)] D p(2,3) False
      by (intro exI [of _ EFI_DEP_PUSH] exI [of _ s']) (simp add: loaded_def)
  next
    case True
    let ?ds = "(drivers s)(d \<mapsto> D\<lparr>Depex := Some (pre @ EFI_DEP_REPLACE_TRUE # g @ post)\<rparr>)"
    from PushBool_room [OF rm [of ?ds], of True] obtain s' where p: "PushBool True (?s\<lparr>drivers := ?ds\<rparr>) = (EFI_SUCCESS, s')"
      "mDepexEvaluationStack s' = True # mDepexEvaluationStack s" "drivers s' = ?ds" by auto
    have "depex_push sv d (length pre) (pre @ EFI_DEP_PUSH # g @ post) s = Some (EFI_SUCCESS, s')"
      using True l(1) p(1) assms(4) D(1) by (simp add: depex_push_def Let_def upd_driver_def)
    moreover have "ready t h n s'" by (rule rd [OF p(1)])
    ultimately show ?thesis
      using depex_code.replaced [of g "installed h"] assms(4) D p(2,3) True
      by (intro exI [of _ EFI_DEP_REPLACE_TRUE] exI [of _ s']) (simp add: loaded_def)
  qed
qed

text \<open>The code \<open>bs\<close> of a term, wherever it lies, pushes the value of the term, and is again code of it.\<close>

definition runs :: "hand_services \<Rightarrow> UINTN \<Rightarrow> nat \<Rightarrow> hand_db \<Rightarrow> depex \<Rightarrow> UINT8 list \<Rightarrow> bool" where
  "runs sv d t h e bs \<longleftrightarrow> (\<forall>pre post s n. loaded d (pre @ bs @ post) s \<longrightarrow> ready t h (depex_ops e + n) s \<longrightarrow>
     (\<exists>bs' s'. depex_loop sv d (length pre) s = depex_loop sv d (length pre + length bs) s' \<and> length bs' = length bs
       \<and> depex_code (installed h) e bs' \<and> loaded d (pre @ bs' @ post) s' \<and> ready t h n s'
       \<and> mDepexEvaluationStack s' = depex_value (installed h) e # mDepexEvaluationStack s))"

lemma runsI:
  assumes "\<And>pre post s n. loaded d (pre @ bs @ post) s \<Longrightarrow> ready t h (depex_ops e + n) s \<Longrightarrow>
     \<exists>bs' s'. depex_loop sv d (length pre) s = depex_loop sv d (length pre + length bs) s' \<and> length bs' = length bs
       \<and> depex_code (installed h) e bs' \<and> loaded d (pre @ bs' @ post) s' \<and> ready t h n s'
       \<and> mDepexEvaluationStack s' = depex_value (installed h) e # mDepexEvaluationStack s"
  shows "runs sv d t h e bs"
  unfolding runs_def using assms by blast

lemma runsE:
  assumes "runs sv d t h e bs" "loaded d (pre @ bs @ post) s" "ready t h (depex_ops e + n) s"
  obtains bs' s' where "depex_loop sv d (length pre) s = depex_loop sv d (length pre + length bs) s'" "length bs' = length bs"
    "depex_code (installed h) e bs'" "loaded d (pre @ bs' @ post) s'" "ready t h n s'"
    "mDepexEvaluationStack s' = depex_value (installed h) e # mDepexEvaluationStack s"
  using assms unfolding runs_def by blast

lemma runs_push:
  assumes "length g = 16" "t \<le> TPL_NOTIFY_LOCK" "quiet sv"
  shows "runs sv d t h (Dep_Push g) (EFI_DEP_PUSH # g)"
proof (rule runsI)
  fix pre post s n
  assume a: "loaded d (pre @ (EFI_DEP_PUSH # g) @ post) s" "ready t h (depex_ops (Dep_Push g) + n) s"
  from depex_push_step [of t h n s sv g d pre post] a assms obtain op s' where
    "depex_push sv d (length pre) (pre @ EFI_DEP_PUSH # g @ post) s = Some (EFI_SUCCESS, s')"
    "depex_code (installed h) (Dep_Push g) (op # g)" "loaded d (pre @ op # g @ post) s'" "ready t h n s'"
    "mDepexEvaluationStack s' = installed h g # mDepexEvaluationStack s" by auto
  with a assms(1) show "\<exists>bs' s'. depex_loop sv d (length pre) s = depex_loop sv d (length pre + length (EFI_DEP_PUSH # g)) s'
      \<and> length bs' = length (EFI_DEP_PUSH # g) \<and> depex_code (installed h) (Dep_Push g) bs' \<and> loaded d (pre @ bs' @ post) s'
      \<and> ready t h n s' \<and> mDepexEvaluationStack s' = depex_value (installed h) (Dep_Push g) # mDepexEvaluationStack s"
    by (intro exI [of _ "op # g"] exI [of _ s']) (simp add: depex_loop_steps(7) add.commute)
qed

text \<open>Instructions that push a constant.\<close>

lemma runs_const:
  assumes c: "depex_code (installed h) e (op # g)" "depex_ops e = 1" "depex_value (installed h) e = v"
    and s: "\<And>pre post s s'. loaded d (pre @ op # g @ post) s \<Longrightarrow> PushBool v s = (EFI_SUCCESS, s') \<Longrightarrow>
      depex_loop sv d (length pre) s = depex_loop sv d (length pre + length (op # g)) s'"
  shows "runs sv d t h e (op # g)"
proof (rule runsI)
  fix pre post s n
  assume a: "loaded d (pre @ (op # g) @ post) s" "ready t h (depex_ops e + n) s"
  from ready_push [of t h n s v d "pre @ (op # g) @ post"] a c(2) obtain s' where
    "PushBool v s = (EFI_SUCCESS, s')" "mDepexEvaluationStack s' = v # mDepexEvaluationStack s" "ready t h n s'"
    "loaded d (pre @ (op # g) @ post) s'" by auto
  with a c s [of pre post s s'] show "\<exists>bs' s'. depex_loop sv d (length pre) s = depex_loop sv d (length pre + length (op # g)) s'
      \<and> length bs' = length (op # g) \<and> depex_code (installed h) e bs' \<and> loaded d (pre @ bs' @ post) s'
      \<and> ready t h n s' \<and> mDepexEvaluationStack s' = depex_value (installed h) e # mDepexEvaluationStack s"
    by (intro exI [of _ "op # g"] exI [of _ s']) simp
qed

text \<open>An instruction that replaces the operands on the stack.\<close>

lemma replace_top:
  assumes "ready t h (Suc n) s"
  shows "\<exists>s'. PushBool v (s\<lparr>mDepexEvaluationStack := vs\<rparr>) = (EFI_SUCCESS, s') \<and> mDepexEvaluationStack s' = v # vs
    \<and> ready t h n s' \<and> loaded d bs s' = loaded d bs s"
  using ready_push [of t h n "s\<lparr>mDepexEvaluationStack := vs\<rparr>" v d bs] assms by simp

lemma runs_not:
  assumes "runs sv d t h a xs"
  shows "runs sv d t h (Dep_Not a) (xs @ [EFI_DEP_NOT])"
proof (rule runsI, goal_cases)
  case (1 pre post s n)
  from 1 have l: "loaded d (pre @ xs @ [EFI_DEP_NOT] @ post) s" "ready t h (depex_ops a + Suc n) s" by simp_all
  from runsE [OF assms l] obtain xs' s1 where
    a: "depex_loop sv d (length pre) s = depex_loop sv d (length pre + length xs) s1" "length xs' = length xs"
      "depex_code (installed h) a xs'" "loaded d (pre @ xs' @ [EFI_DEP_NOT] @ post) s1" "ready t h (Suc n) s1"
      "mDepexEvaluationStack s1 = depex_value (installed h) a # mDepexEvaluationStack s" .
  let ?v = "\<not> depex_value (installed h) a"
  from replace_top [OF a(5), of ?v "mDepexEvaluationStack s" d "pre @ xs' @ [EFI_DEP_NOT] @ post"] a(4) obtain s' where
    p: "PushBool ?v (s1\<lparr>mDepexEvaluationStack := mDepexEvaluationStack s\<rparr>) = (EFI_SUCCESS, s')"
      "mDepexEvaluationStack s' = ?v # mDepexEvaluationStack s" "ready t h n s'" "loaded d (pre @ xs' @ [EFI_DEP_NOT] @ post) s'"
    by auto
  have "depex_not s1 = (EFI_SUCCESS, s')" using a(6) p(1) by (simp add: depex_not_def PopBool_def)
  with depex_loop_steps(3) [of d "pre @ xs'" post s1 sv] a p depex_code.neg [OF a(3)] show ?case
    by (intro exI [of _ "xs' @ [EFI_DEP_NOT]"] exI [of _ s']) simp
qed

lemma runs_binary:
  assumes "runs sv d t h a xs" "runs sv d t h b ys" "depex_ops e = depex_ops a + depex_ops b + 1"
    and v: "depex_value (installed h) e = f (depex_value (installed h) b) (depex_value (installed h) a)"
    and c: "\<And>xs ys. depex_code (installed h) a xs \<Longrightarrow> depex_code (installed h) b ys \<Longrightarrow> depex_code (installed h) e (xs @ ys @ [op])"
    and s: "\<And>pre post s. loaded d (pre @ op # post) s \<Longrightarrow> depex_loop sv d (length pre) s =
      (case depex_binary f s of (Status, s) \<Rightarrow> if EFI_ERROR Status then Some (False, s) else depex_loop sv d (length pre + 1) s)"
  shows "runs sv d t h e (xs @ ys @ [op])"
proof (rule runsI, goal_cases)
  case (1 pre post s n)
  let ?a = "depex_value (installed h) a" and ?b = "depex_value (installed h) b" and ?st = "mDepexEvaluationStack s"
  from 1 assms(3) have l: "loaded d (pre @ xs @ (ys @ [op] @ post)) s" "ready t h (depex_ops a + (depex_ops b + Suc n)) s"
    by (simp_all add: ac_simps)
  from runsE [OF assms(1) l] obtain xs' s1 where
    x: "depex_loop sv d (length pre) s = depex_loop sv d (length pre + length xs) s1" "length xs' = length xs"
      "depex_code (installed h) a xs'" "loaded d (pre @ xs' @ (ys @ [op] @ post)) s1" "ready t h (depex_ops b + Suc n) s1"
      "mDepexEvaluationStack s1 = ?a # ?st" .
  from x(4) have l2: "loaded d ((pre @ xs') @ ys @ ([op] @ post)) s1" by simp
  from runsE [OF assms(2) l2 x(5)] obtain ys' s2 where
    y: "depex_loop sv d (length (pre @ xs')) s1 = depex_loop sv d (length (pre @ xs') + length ys) s2" "length ys' = length ys"
      "depex_code (installed h) b ys'" "loaded d ((pre @ xs') @ ys' @ ([op] @ post)) s2" "ready t h (Suc n) s2"
      "mDepexEvaluationStack s2 = ?b # mDepexEvaluationStack s1" .
  let ?bs = "(pre @ xs' @ ys') @ op # post"
  from y(4) have l3: "loaded d ?bs s2" by simp
  from replace_top [OF y(5), of "f ?b ?a" ?st d ?bs] l3 obtain s' where
    p: "PushBool (f ?b ?a) (s2\<lparr>mDepexEvaluationStack := ?st\<rparr>) = (EFI_SUCCESS, s')"
      "mDepexEvaluationStack s' = f ?b ?a # ?st" "ready t h n s'" "loaded d ?bs s'" by auto
  have "depex_binary f s2 = (EFI_SUCCESS, s')" using x(6) y(6) p(1) by (simp add: depex_binary_def PopBool_def)
  with s [OF l3] x(1,2) y(1,2) p c [OF x(3) y(3)] v show ?case
    by (intro exI [of _ "xs' @ ys' @ [op]"] exI [of _ s']) (simp add: ac_simps)
qed

lemma depex_code_runs:
  assumes "depex_code (installed h) e bs" "t \<le> TPL_NOTIFY_LOCK" "quiet sv"
  shows "runs sv d t h e bs"
  using assms(1)
proof induction
  case (push g)
  then show ?case by (rule runs_push [OF _ assms(2,3)])
next
  case (replaced g)
  then show ?case
    by (intro runs_const [of h _ _ _ True] depex_code.replaced) (simp_all add: depex_loop_steps(8) add.commute)
next
  case true
  show ?case by (intro runs_const [of h _ _ _ True] depex_code.true) (simp_all add: depex_loop_steps(4))
next
  case false
  show ?case by (intro runs_const [of h _ _ _ False] depex_code.false) (simp_all add: depex_loop_steps(5))
next
  case (neg a xs)
  then show ?case by (intro runs_not)
next
  case (conj a xs b ys)
  then show ?case
    by (intro runs_binary [where f = "(\<and>)"] depex_code.conj depex_loop_steps(1)) auto
next
  case (disj a xs b ys)
  then show ?case
    by (intro runs_binary [where f = "(\<or>)"] depex_code.disj depex_loop_steps(2)) auto
qed

end
