(* ===== verification/Dispatch_Properties.thy ===== *)
theory Dispatch_Properties
  imports Dispatch_Insert Depex_Correct Hand_Properties
begin

text \<open>
  The properties of the dependency expressions and of the dispatcher.
\<close>

declare depex_loop.simps [code] CoreInsertOnScheduledQueueWhileProcessingBeforeAndAfter.simps [code]
  dispatch_drain.simps [code] dispatch_search.simps [code] dispatch_rounds.simps [code]

section \<open>Dependency expressions\<close>

lemma depex_loop_end:
  assumes "depex_code (installed (hand s)) e bs" "quiet sv" "t \<le> TPL_NOTIFY_LOCK"
    "loaded d (sor @ bs @ EFI_DEP_END # post) s" "ready t (hand s) (depex_ops e) s"
  shows "\<exists>bs' s'. depex_loop sv d (length sor) s = Some (depex_value (installed (hand s)) e, s')
    \<and> depex_code (installed (hand s)) e bs' \<and> loaded d (sor @ bs' @ EFI_DEP_END # post) s'
    \<and> installed (hand s') = installed (hand s)"
proof -
  let ?v = "depex_value (installed (hand s)) e"
  have r: "ready t (hand s) (depex_ops e + 0) s" using assms(5) by simp
  obtain bs' s1 where x: "depex_loop sv d (length sor) s = depex_loop sv d (length sor + length bs) s1" "length bs' = length bs"
    "depex_code (installed (hand s)) e bs'" "loaded d (sor @ bs' @ EFI_DEP_END # post) s1" "ready t (hand s) 0 s1"
    "mDepexEvaluationStack s1 = ?v # mDepexEvaluationStack s"
    by (rule runsE [OF depex_code_runs [OF assms(1,3,2)] assms(4) r])
  have "depex_loop sv d (length (sor @ bs')) s1 = Some (?v, s1\<lparr>mDepexEvaluationStack := mDepexEvaluationStack s\<rparr>)"
    using depex_loop_steps(6) [of d "sor @ bs'" post s1 sv] x(4,6) by (simp add: PopBool_def)
  moreover have "installed (hand s1) = installed (hand s)" using x(5) by (intro installed_cong) (simp add: ready_def)
  ultimately show ?thesis using x(1-4)
    by (intro exI [of _ bs'] exI [of _ "s1\<lparr>mDepexEvaluationStack := mDepexEvaluationStack s\<rparr>"]) simp
qed

text \<open>(C38) The evaluator computes the value of the dependency expression: for the postfix code of an expression
  (whose \<open>PUSH\<close> instructions of earlier evaluations may have been overwritten), with or without \<open>SOR\<close> in
  front, it returns, and the driver may be scheduled exactly when the expression holds of the protocols
  that are installed.  The protocols are what they were, and the buffer, in which the \<open>PUSH\<close> of every
  protocol found has been overwritten, holds code of the same expression.\<close>

theorem CoreIsSchedulable_evaluates:
  assumes "drivers s d = Some D" "\<not> Before D" "\<not> After D" "Depex D = Some (sor @ bs @ EFI_DEP_END # post)"
    "DepexSize D = length (sor @ bs @ EFI_DEP_END # post)" "sor = [] \<or> sor = [EFI_DEP_SOR]"
    "depex_code (installed (hand s)) e bs" "quiet sv" "t \<le> TPL_NOTIFY_LOCK" "ready t (hand s) (depex_ops e) s"
  shows "\<exists>bs' s'. CoreIsSchedulable sv d s = Some (depex_value (installed (hand s)) e, s')
    \<and> depex_code (installed (hand s)) e bs' \<and> loaded d (sor @ bs' @ EFI_DEP_END # post) s'
    \<and> installed (hand s') = installed (hand s)"
proof -
  let ?s = "s\<lparr>mDepexEvaluationStack := []\<rparr>"
  have l: "loaded d (sor @ bs @ EFI_DEP_END # post) ?s" using assms(1,4,5) by (simp add: loaded_def)
  have "CoreIsSchedulable sv d s = depex_loop sv d 0 ?s" using assms(1-4) by (simp add: CoreIsSchedulable_def)
  also have "\<dots> = depex_loop sv d (length sor) ?s"
    using assms(6) l depex_loop_steps(9) [of d "bs @ EFI_DEP_END # post" ?s sv] by auto
  finally show ?thesis using depex_loop_end [of ?s e bs sv t d sor post] assms(7-10) l by simp
qed

definition guid_C :: EFI_GUID where "guid_C = replicate 16 0xCC"

definition no_entry :: EFI_CORE_DRIVER_ENTRY where
  "no_entry = \<lparr>FvHandle = NULL, FileName = replicate 16 0, FvFileDevicePath = None, Fv = NULL, Depex = None, DepexSize = 0,
     Before = False, After = False, BeforeAfterGuid = replicate 16 0, Dependent = False, Unrequested = False,
     Scheduled = False, Untrusted = False, Initialized = False, DepexProtocolError = False, Driver_ImageHandle = NULL,
     IsFvImage = False\<rparr>"

definition disp_after :: "hand_db \<Rightarrow> (UINTN \<times> EFI_CORE_DRIVER_ENTRY) list \<Rightarrow> disp_state" where
  "disp_after h ds = \<lparr>hand = h, mDepexEvaluationStack = [], DepexStackSize = 0, drivers = map_of ds, mDiscoveredList = map fst ds,
     mScheduledQueue = [], mFvHandleList = [], gDispatcherRunning = False, mFwVolEventRegistration = NULL, mArchProtocols = [],
     gDxeCoreFileName = replicate 16 0, LoadedImage_FilePath = None, LoadedImage_DeviceHandle = NULL\<rparr>"

text \<open>A driver that waits for protocol A in the absence of protocol C.\<close>

definition A_not_C :: "UINT8 list" where
  "A_not_C = (EFI_DEP_PUSH # guid_A) @ ((EFI_DEP_PUSH # guid_C) @ [EFI_DEP_NOT]) @ [EFI_DEP_AND]"

definition waiting :: disp_state where
  "waiting = disp_after (two_handles\<lparr>pool := [11, 12, 13, 14]\<rparr>)
     [(1, no_entry\<lparr>Depex := Some ([EFI_DEP_SOR] @ A_not_C @ EFI_DEP_END # []), DepexSize := 38\<rparr>)]"

lemma waiting_ready: "ready 4 (hand waiting) 4 waiting"
proof -
  have h: "hand waiting = two_handles\<lparr>pool := [11, 12, 13, 14]\<rparr>" by (simp add: waiting_def disp_after_def)
  have f: "hand_free 4 (hand waiting)"
    unfolding h by (rule hand_free_same [OF two_handles_free]) (simp_all add: same_wf_def same_lock_def)
  have d: "dom (handles two_handles) = {4, 7}"
    using two_handles_free two_handles_parts(1) by (auto simp: hand_free_def hand_wf_def wf_lists_def)
  have "LocateRequest H = 0" if "handles two_handles h = Some H" for h H
  proof -
    from that d have "h = 4 \<or> h = 7" by blast
    with that two_handles_parts(4) show ?thesis by auto
  qed
  with f show ?thesis using two_handles_parts(3) by (auto simp: ready_def room_def marks_old_def h)
qed

theorem CoreIsSchedulable_evaluates_witness:
  "installed (hand waiting) guid_A \<and> \<not> installed (hand waiting) guid_C
   \<and> (\<exists>s'. CoreIsSchedulable quiet_system 1 waiting = Some (True, s') \<and> installed (hand s') = installed (hand waiting))"
proof -
  let ?e = "Dep_And (Dep_Push guid_A) (Dep_Not (Dep_Push guid_C))"
  have i: "installed (hand waiting) guid_A" "\<not> installed (hand waiting) guid_C" by code_simp+
  have g: "length guid_A = 16" "length guid_C = 16" by code_simp+
  have c: "depex_code (installed (hand waiting)) ?e A_not_C"
    unfolding A_not_C_def by (intro depex_code.intros g)
  have D: "drivers waiting 1 = Some (no_entry\<lparr>Depex := Some ([EFI_DEP_SOR] @ A_not_C @ EFI_DEP_END # []), DepexSize := 38\<rparr>)"
    by (simp add: waiting_def disp_after_def)
  have "length ([EFI_DEP_SOR] @ A_not_C @ EFI_DEP_END # []) = 38" using g by (simp add: A_not_C_def)
  moreover have "ready 4 (hand waiting) (depex_ops ?e) waiting" using ready_less [OF waiting_ready] by simp
  ultimately have "\<exists>bs' s'. CoreIsSchedulable quiet_system 1 waiting = Some (depex_value (installed (hand waiting)) ?e, s')
    \<and> depex_code (installed (hand waiting)) ?e bs' \<and> loaded 1 ([EFI_DEP_SOR] @ bs' @ EFI_DEP_END # []) s'
    \<and> installed (hand s') = installed (hand waiting)"
    by (intro CoreIsSchedulable_evaluates [OF D _ _ _ _ _ c quiet_system(1), where t = 4])
      (simp_all add: no_entry_def TPL_NOTIFY_LOCK_def del: depex_ops.simps)
  with i show ?thesis by auto
qed

section \<open>The order of drivers\<close>

text \<open>(C39) Inserting a driver with a satisfied dependency into the queue ends; it appends drivers that were waiting,
  each once and the driver itself among them.  All waiting drivers that ask to run before or after a
  driver of the list are in it, and on the side they ask for; apart from the driver itself the list
  holds only drivers that ask to run before or after one of the list.  (No two drivers have the same
  name, and none asks for both; see \<open>same_name_never_ends\<close> for why this matters.)\<close>

theorem insertion_ordered:
  assumes "disp_static s" "disp_queue s" "d \<in> dep s" "\<not> Before (drv s d)" "\<not> After (drv s d)"
  shows "\<exists>new. CoreInsertOnScheduledQueueWhileProcessingBeforeAndAfter d s = Some (scheduled new s)
    \<and> distinct new \<and> d \<in> set new \<and> set new \<subseteq> dep s
    \<and> (\<forall>y\<in>set new. \<forall>x\<in>dep s. x \<noteq> y \<longrightarrow> targets s x y \<longrightarrow>
         (Before (drv s x) \<longrightarrow> precedes new x y) \<and> (After (drv s x) \<longrightarrow> precedes new y x))
    \<and> (\<forall>z\<in>set new. z = d \<or> (\<exists>y\<in>set new. targets s z y))"
proof -
  have "tied s {} d" using assms(4,5) by (simp add: tied_def targets_def)
  from insert_sched_ok [OF assms(1-3) _ _ this] obtain new where
    n: "CoreInsertOnScheduledQueueWhileProcessingBeforeAndAfter d s = Some (scheduled new s)" "good s {} new {d}" "d \<in> set new"
    by (auto simp: sched_ok_def)
  then show ?thesis using goodD [OF n(2)] by (intro exI [of _ new]) auto
qed

definition guid_of :: "UINT8 \<Rightarrow> EFI_GUID" where "guid_of b = replicate 16 b"

text \<open>Driver 3 runs after 1, driver 2 before 1, driver 4 before 3.\<close>

definition asking :: "(UINTN \<times> EFI_CORE_DRIVER_ENTRY) list" where
  "asking =
     [(1, no_entry\<lparr>FileName := guid_of 1, Dependent := True\<rparr>),
      (2, no_entry\<lparr>FileName := guid_of 2, Dependent := True, Before := True, BeforeAfterGuid := guid_of 1\<rparr>),
      (3, no_entry\<lparr>FileName := guid_of 3, Dependent := True, After := True, BeforeAfterGuid := guid_of 1\<rparr>),
      (4, no_entry\<lparr>FileName := guid_of 4, Dependent := True, Before := True, BeforeAfterGuid := guid_of 3\<rparr>)]"

lemma asking_drv:
  "drv (disp_after h asking) 1 = no_entry\<lparr>FileName := guid_of 1, Dependent := True\<rparr>"
  "drv (disp_after h asking) 2 = no_entry\<lparr>FileName := guid_of 2, Dependent := True, Before := True, BeforeAfterGuid := guid_of 1\<rparr>"
  "drv (disp_after h asking) 3 = no_entry\<lparr>FileName := guid_of 3, Dependent := True, After := True, BeforeAfterGuid := guid_of 1\<rparr>"
  "drv (disp_after h asking) 4 = no_entry\<lparr>FileName := guid_of 4, Dependent := True, Before := True, BeforeAfterGuid := guid_of 3\<rparr>"
  "set (mDiscoveredList (disp_after h asking)) = {1, 2, 3, 4}"
  by (simp_all add: drv_def disp_after_def asking_def)

theorem insertion_ordered_witness:
  "\<exists>new. CoreInsertOnScheduledQueueWhileProcessingBeforeAndAfter 1 (disp_after two_handles asking) =
      Some (scheduled new (disp_after two_handles asking))
    \<and> distinct new \<and> precedes new 2 1 \<and> precedes new 1 3 \<and> precedes new 4 3"
proof -
  let ?s = "disp_after two_handles asking"
  have neq: "guid_of a = guid_of b \<longleftrightarrow> a = b" for a b by (simp add: guid_of_def)
  have live: "\<forall>x\<in>{1, 2, 3, 4}. drivers ?s x \<noteq> None" by (simp add: disp_after_def asking_def)
  have st: "disp_static ?s"
    using live unfolding disp_static_def asking_drv(5) by (simp add: inj_on_def asking_drv no_entry_def neq)
  have q: "disp_queue ?s" by (simp add: disp_queue_def disp_after_def)
  have d: "dep ?s = {1, 2, 3, 4}" unfolding dep_def asking_drv(5) by (auto simp: asking_drv no_entry_def)
  have t: "targets ?s 2 1" "targets ?s 3 1" "targets ?s 4 3" by (simp_all add: targets_def asking_drv no_entry_def)
  have "1 \<in> dep ?s" "\<not> Before (drv ?s 1)" "\<not> After (drv ?s 1)" by (simp_all add: d asking_drv no_entry_def)
  from insertion_ordered [OF st q this] obtain new where
    n: "CoreInsertOnScheduledQueueWhileProcessingBeforeAndAfter 1 ?s = Some (scheduled new ?s)" "distinct new" "1 \<in> set new"
    and o: "\<And>x y. y \<in> set new \<Longrightarrow> x \<in> dep ?s \<Longrightarrow> x \<noteq> y \<Longrightarrow> targets ?s x y \<Longrightarrow>
      (Before (drv ?s x) \<longrightarrow> precedes new x y) \<and> (After (drv ?s x) \<longrightarrow> precedes new y x)"
    by (elim exE conjE) blast
  from o [OF n(3) _ _ t(1)] o [OF n(3) _ _ t(2)] have p: "precedes new 2 1" "precedes new 1 3"
    by (simp_all add: d asking_drv no_entry_def)
  from o [OF conjunct2 [OF precedes_in [OF p(2)]] _ _ t(3)] have "precedes new 4 3" by (simp add: d asking_drv no_entry_def)
  with n p show ?thesis by blast
qed

text \<open>Two drivers with the same name, of which each asks to run before that name, are inserted one before the
  other for ever.\<close>

definition before_each_other :: "UINTN \<Rightarrow> UINTN \<Rightarrow> disp_state \<Rightarrow> bool" where
  "before_each_other d e s \<longleftrightarrow> d \<noteq> e \<and> (mDiscoveredList s = [d, e] \<or> mDiscoveredList s = [e, d])
     \<and> (\<exists>D E. drivers s d = Some D \<and> drivers s e = Some E \<and> FileName D = FileName E
          \<and> Before D \<and> Dependent D \<and> BeforeAfterGuid D = FileName D
          \<and> Before E \<and> Dependent E \<and> BeforeAfterGuid E = FileName E)"

lemma before_each_other_sym: "before_each_other d e s \<Longrightarrow> before_each_other e d s"
  unfolding before_each_other_def by metis

lemma same_name_never_ends:
  "before_each_other d e s \<Longrightarrow> CoreInsertOnScheduledQueueWhileProcessingBeforeAndAfter d s = None"
proof -
  have "\<forall>e. \<not> before_each_other d e s"
    if r: "CoreInsertOnScheduledQueueWhileProcessingBeforeAndAfter d s = Some r" for d s r
  proof (rule CoreInsertOnScheduledQueueWhileProcessingBeforeAndAfter.raw_induct
      [where P = "\<lambda>d s r. \<forall>e. \<not> before_each_other d e s", OF _ r], goal_cases)
    case (1 f d s r)
    show ?case
    proof (intro allI notI)
      fix e
      assume b: "before_each_other d e s"
      then have "f e s = None" using 1(1) [of e s] before_each_other_sym [OF b] by (cases "f e s") auto
      with b 1(2) show False by (auto simp: before_each_other_def)
    qed
  qed
  then show "before_each_other d e s \<Longrightarrow> CoreInsertOnScheduledQueueWhileProcessingBeforeAndAfter d s = None" by fastforce
qed

section \<open>The dispatcher\<close>



















text \<open>When the event of the dispatcher cannot be created, \<open>CoreDispatcher\<close> returns with \<open>gDispatcherRunning\<close>
  set, and no later call dispatches anything.\<close>

lemma CoreDispatcher_left_running:
  assumes "\<not> gDispatcherRunning s" "CreateDispatchEvent env (s\<lparr>gDispatcherRunning := True\<rparr>) = (st, s')" "EFI_ERROR st"
    "gDispatcherRunning s'"
  shows "CoreDispatcher env s = Some (st, s') \<and> CoreDispatcher env' s' = Some (EFI_ALREADY_STARTED, s')"
  using assms by (simp add: CoreDispatcher_def)

end
