(* ===== verification/Spec2Isabelle.thy ===== *)
theory Spec2Isabelle
  imports Gcd_Properties Event_Properties Device_Path_Properties Hand_Properties Dispatch_Properties
begin

text \<open>
  A verification library for the core of the Project Mu firmware (\<^verbatim>\<open>src/MdeModulePkg/Core/Dxe\<close>) and the
  base libraries it stands on (\<^verbatim>\<open>src/MdePkg/Library\<close>).  The DXE core is the part of the firmware that owns
  memory, events, protocols and drivers; everything else is a driver that calls it.

  \<^bold>\<open>Conventions.\<close>  Integers have the width of the source (\<open>64 word\<close> for \<open>UINT64\<close>, \<open>UINTN\<close> and
  addresses), so sums wrap around.  Where a quantity is only compared or counted it is a natural number.
  Status codes are numbers with the error bit of the source, tested with \<open>EFI_ERROR\<close>.  An operation is a
  function on a record of the globals it works on.  \<^const>\<open>None\<close> in the option monad stands for the end
  of the program: a failed \<open>ASSERT\<close>, an access outside a buffer or to memory that has been freed, a list
  that is linked twice, or a loop that never ends; theorems that a routine returns say that its value is
  not \<^const>\<open>None\<close>.  Loops are structural recursions where the source walks a list it does not change, and
  \<open>partial_function\<close>s otherwise.  Memory allocation draws on a list of addresses (handle database), on a
  sequence of successes and failures (events, the space maps), so a theorem covers every pattern of
  failures.

  \<^bold>\<open>The parts.\<close>

  \<^item> \<^bold>\<open>Prelude\<close>: integer types and status codes (\<^verbatim>\<open>Base.h\<close>, \<^verbatim>\<open>PiMultiPhase.h\<close>), shared lemmas on
    words, lists and options, and the collections of rules.

  \<^item> \<^bold>\<open>Global coherency domain\<close> (\<^verbatim>\<open>Gcd/Gcd.c\<close>): \<open>Gcd_Map\<close> has the sorted list of descriptors with
    search, split, merge and the conversion loop; \<open>Gcd_Services\<close> the memory and I/O space services;
    \<open>Gcd_Tiling\<close> says that a list of descriptors tiles the address space and gives the abstract map from
    addresses to descriptors; \<open>Gcd_Convert\<close> and \<open>Gcd_Allocate\<close> prove that conversion and allocation refine
    updates of that map, both through the locale \<open>gcd_update\<close>; \<open>Gcd_Properties\<close> holds the contracts of
    the services, the round trips, and the inputs on which the code goes wrong.

  \<^item> \<^bold>\<open>Events, timers and task priorities\<close> (\<^verbatim>\<open>Event/Tpl.c\<close>, \<^verbatim>\<open>Event/Event.c\<close>, \<^verbatim>\<open>Event/Timer.c\<close>,
    \<^verbatim>\<open>Library/Library.c\<close>, \<^verbatim>\<open>BaseLib/HighBitSet64.c\<close>): \<open>Bit_Scan\<close> and \<open>Event_Core\<close> have the code,
    \<open>Event_Inv\<close> the invariant of the event database.  Lowering the task priority runs notification
    functions, which call the services again: the locale \<open>restoring\<close> of \<open>Event_Services\<close> is the contract
    of \<open>CoreRestoreTpl\<close>, \<open>Event_Calls\<close> proves every service against it, and \<open>Event_Restore\<close> interprets it
    on \<open>CoreRestoreTpl\<close> for every code of the drivers and every depth of nesting (its fuel argument; a
    nesting deeper than the fuel is \<^const>\<open>None\<close>, so a fuel is enough exactly when the result is not).
    \<open>Event_Timer\<close> has the termination of the timer check, \<open>Event_Order\<close> the order of notification.

  \<^item> \<^bold>\<open>Device paths\<close> (\<^verbatim>\<open>UefiDevicePathLib/DevicePathUtilities.c\<close>): \<open>Device_Path\<close> has the code over byte
    buffers with every access checked; \<open>Device_Path_Nodes\<close> the abstract paths and their layout;
    \<open>Device_Path_Valid\<close> that the validity check decides exactly the layouts of well-formed paths;
    \<open>Device_Path_Properties\<close> that the routines implement operations on lists of nodes.

  \<^item> \<^bold>\<open>Handle database\<close> (\<^verbatim>\<open>Hand/Handle.c\<close>, \<^verbatim>\<open>Notify.c\<close>, \<^verbatim>\<open>Locate.c\<close>): \<open>Hand_Core\<close>, \<open>Hand_Services\<close>,
    \<open>Hand_Install\<close> and \<open>Hand_Locate\<close> have the code.  Handles, interfaces and registrations live in stores
    indexed by address.  What runs when the lock of the database is released, and the controller
    services the database calls, are the record \<open>hand_services\<close>; the locale \<open>hand_contract\<close> is what the
    database relies on.  \<open>Hand_Inv\<close> has the invariant, \<open>Hand_Updates\<close> and the theories \<open>Hand_Keeps*\<close> that
    every service keeps it.  \<open>Hand_Search\<close> and \<open>Hand_Results\<close> have the searches and round trips.

  \<^item> \<^bold>\<open>Driver model\<close> (\<^verbatim>\<open>Hand/DriverSupport.c\<close>): \<open>Driver_Support\<close> and \<open>Driver_Connect\<close> have connecting and
    disconnecting of controllers.  Drivers are programs that call the services.  \<open>hand_system\<close> ties the
    knot: a system of nesting depth \<open>n\<close> whose notification functions and drivers call the system of depth
    \<open>n - 1\<close>.  \<open>Driver_Keeps\<close> interprets \<open>hand_contract\<close> on it for every depth and all drivers;
    \<open>Driver_Results\<close> has the sorting of the driver bindings and the end of the start loop.

  \<^item> \<^bold>\<open>Dispatcher\<close> (\<^verbatim>\<open>Dispatcher/Dependency.c\<close>, \<^verbatim>\<open>Dispatcher/Dispatcher.c\<close>): \<open>Depex_Eval\<close> has the
    evaluator of dependency expressions, \<open>Depex_Correct\<close> the expressions as terms and that the code of a
    term evaluates to its value on top of the handle database; \<open>Dispatcher\<close> has discovery, scheduling and
    the dispatch loop; \<open>Dispatch_Order\<close> and \<open>Dispatch_Insert\<close> the recursion for Before and After.

  The theories \<open>*_Properties\<close> hold the numbered properties, each with a witness where it has hypotheses.

  \<^bold>\<open>Not modelled.\<close>  Debug output and performance records.  Interrupts happen between calls, not inside
  them.  The locks of the space maps are the atomicity of each service.  The ordered collection behind
  the handle list is its sorted list of keys.  In the dispatcher, the firmware volume protocol, the image
  services and the dispatch event are fields of an environment, whose calls may change the state.  The
  protocol that exports the internal wait for events, device paths as text, and the notifications of
  architectural protocols are left out.  The other packages (setup browser and HII, network, shell,
  cryptography, variable store, PEI and SMM cores, bus and device drivers) are drivers on top of the core
  or other phases of the boot, and are not part of this library.
\<close>

end
